theory Spec2Isabelle
  imports Complex_Main
begin

section \<open>Watchlog RUM for React: identity, queue and transport pipeline\<close>

text \<open>
  A shallow embedding of \<^verbatim>\<open>src/index.tsx\<close> (v0.2.6). The module-level variables
  (\<^verbatim>\<open>current\<close>, the pending routing values, the two initial-view flags) and the parts
  of the browser the module touches (local storage, the clock, timers, window listeners,
  the two network transports) are the fields of one record, \<open>world\<close>; every source
  function takes the world and returns the new one. A function that can let an exception
  escape returns a \<open>result\<close>, which carries the world as the exception left it.

  Conventions:
  \<^item> JavaScript numbers that the module only counts, adds and compares are integers
    (\<open>int\<close>); the sample rate and the random draws are rationals. The byte cap, which
    the caller supplies and the module only ever compares against, is any JavaScript
    number (\<open>JsNumber\<close>).
  \<^item> A user-supplied function is a pure HOL function; where the call may throw, its
    result type has a case for the throw.
  \<^item> Free-form values (\<^verbatim>\<open>any\<close>) are strings holding their JSON text; objects used as
    string-keyed dictionaries are maps, and the object spread
    \<^verbatim>\<open>{...a, ...b}\<close> is \<open>a ++ b\<close>.
  \<^item> The browser is assumed to be there (\<^verbatim>\<open>window\<close>, \<^verbatim>\<open>document\<close>,
    \<^verbatim>\<open>navigator\<close> and \<^verbatim>\<open>location\<close> are defined); local storage may throw on
    reads and on writes.
  \<^item> All clock reads of one synchronous call see the same instant, \<open>clock\<close>.
  \<^item> Events are held by reference: what \<^verbatim>\<open>JSON.stringify\<close> makes of an event is read
    from the world (\<open>blob_size\<close>) at the time of the call, and can differ between the
    time an event is queued and the time the queue is flushed.
\<close>

subsection \<open>Types\<close>

type_synonym jsval = string
type_synonym jsobj = "string \<rightharpoonup> jsval"

text \<open>A JavaScript number: a finite value, an infinity, or \<^verbatim>\<open>NaN\<close>.\<close>
datatype JsNumber = Finite rat | PosInfinity | NegInfinity | NaN

text \<open>\<^verbatim>\<open>n <= x\<close> for an integer \<open>n\<close>; every comparison with \<^verbatim>\<open>NaN\<close> is false.\<close>
fun at_most :: "int \<Rightarrow> JsNumber \<Rightarrow> bool" where
  "at_most n (Finite r) = (of_int n \<le> r)"
| "at_most n PosInfinity = True"
| "at_most n NegInfinity = False"
| "at_most n NaN = False"

text \<open>A path normalizer; \<open>None\<close> is a call that throws.\<close>
type_synonym normalizer = "string \<Rightarrow> string option"

datatype RumEventType = page_view | custom | error | web_vital | resource | network | long_task

text \<open>
  \<^verbatim>\<open>BaseContext\<close>, without the fields that are plain reads of the browser with no
  logic of the module behind them (url, title, referrer, viewport, user agent, language,
  time zone).
\<close>
record BaseContext =
  ctx_app :: "string option"
  ctx_environment :: "string option"
  ctx_release :: "string option"
  page_path :: "string option"
  page_normalizedPath :: "string option"
  ctx_user :: "jsobj option"
  ctx_extra :: "jsobj option"

datatype EventData =
    PageViewData "string option"
  | CustomData "jsval option"
  | ErrorData "string option" "string option" "string option" "string option"
  | OtherData jsobj

record RumEvent =
  ev_type :: RumEventType
  ev_ts :: int
  ev_sessionId :: string
  ev_deviceId :: string
  ev_seq :: int
  ev_context :: BaseContext
  ev_name :: "string option"
  ev_data :: EventData

text \<open>What a call of the \<^verbatim>\<open>beforeSend\<close> hook does: it throws, or it returns an event or
  \<^verbatim>\<open>null\<close>.\<close>
datatype HookResult = HookThrows | HookReturns "RumEvent option"

type_synonym hook = "RumEvent \<Rightarrow> HookResult"

text \<open>\<^verbatim>\<open>RumConfig\<close>: what the caller passes; every field is optional.
  (\<^verbatim>\<open>networkSampleRate\<close> is never read.)\<close>
record RumConfig =
  endpoint_opt :: "string option"
  apiKey_opt :: "string option"
  app_opt :: "string option"
  environment_opt :: "string option"
  release_opt :: "string option"
  userId_opt :: "string option"
  sampleRate_opt :: "rat option"
  batchMax_opt :: "int option"
  flushInterval_opt :: "int option"
  maxQueueBytes_opt :: "JsNumber option"
  captureErrors_opt :: "bool option"
  captureFetch_opt :: "bool option"
  captureXHR_opt :: "bool option"
  captureResources_opt :: "bool option"
  maxResourceCount_opt :: "int option"
  captureLongTasks_opt :: "bool option"
  enableWebVitals_opt :: "bool option"
  ignoreSelfResources_opt :: "bool option"
  sessionTtlMs_opt :: "int option"
  routeManifest_opt :: "string list option"
  getNormalizedPath_opt :: "normalizer option"
  autoTrackInitialView_opt :: "bool option"
  beforeSend_opt :: "hook option"

text \<open>\<^verbatim>\<open>RumConfigWithDefaults\<close>: the defaulted keys are required.\<close>
record RumConfigWithDefaults =
  endpoint :: "string option"
  apiKey :: "string option"
  app :: "string option"
  environment :: "string option"
  release :: "string option"
  userId :: "string option"
  sampleRate :: rat
  batchMax :: int
  flushInterval :: int
  maxQueueBytes :: JsNumber
  captureErrors :: bool
  captureFetch :: bool
  captureXHR :: bool
  captureResources :: bool
  maxResourceCount :: int
  captureLongTasks :: bool
  enableWebVitals :: bool
  ignoreSelfResources :: bool
  sessionTtlMs :: int
  routeManifest :: "string list option"
  getNormalizedPath :: "normalizer option"
  autoTrackInitialView :: bool
  beforeSend :: "hook option"

text \<open>The persisted session record \<^verbatim>\<open>{id, sampled, last}\<close>.\<close>
record Session =
  sess_id :: string
  sess_sampled :: bool
  sess_last :: int

text \<open>
  The value under the session key, by what \<^verbatim>\<open>JSON.parse\<close> does with it: it throws
  (\<open>Corrupt\<close>), or it yields an object of the shape the source asserts with
  \<^verbatim>\<open>as { id: string; sampled: boolean; last: number }\<close>. An absent key, and the empty
  string, which the source's \<^verbatim>\<open>if (raw)\<close> treats alike, are \<open>None\<close> in the store.
\<close>
datatype Stored = Corrupt | Persisted Session

text \<open>The out-of-scope collectors, by name; the model records which ones are attached.\<close>
datatype Collector =
  ErrorHandlers | FetchInstrumentation | XHRInstrumentation | ResourceObserver int
  | LongTaskObserver | WebVitals

text \<open>The window listeners that \<^verbatim>\<open>setupLifecycle\<close> registers.\<close>
datatype Handler = OnUnload | OnVisibilityChange | OnActivity

text \<open>A teardown callback pushed on \<^verbatim>\<open>unsubscribers\<close>.\<close>
datatype Unsubscriber = RemoveListener string Handler | StopCollector Collector

text \<open>The callbacks given to \<^verbatim>\<open>setInterval\<close> and \<^verbatim>\<open>setTimeout\<close>; the fallback timeout
  captures the identifier of the poll it clears.\<close>
datatype TimerTask = FlushTick int | InitialViewPoll | InitialViewFallback nat

record Payload =
  pl_sdk :: string
  pl_version :: string
  pl_sentAt :: int
  pl_apiKey :: "string option"
  pl_sessionId :: string
  pl_deviceId :: string
  pl_app :: "string option"
  pl_environment :: "string option"
  pl_release :: "string option"
  pl_events :: "RumEvent list"

text \<open>The effects the module has on the outside, in the order they happen.\<close>
datatype Effect =
    SetDeviceItem string
  | SetSessionItem Session
  | BeaconCall string Payload
  | BeaconFailed string Payload
  | FetchCall string Payload "(string \<times> string) list"

record InternalState =
  config :: RumConfigWithDefaults
  deviceId :: string
  sessionId :: string
  sampled :: bool
  seq :: int
  queue :: "RumEvent list"
  queueBytes :: int
  flushTimer :: "nat option"
  pageCtxExtra :: jsobj
  user :: "jsobj option"
  unsubscribers :: "Unsubscriber list"

record world =
  \<comment> \<open>module-level variables\<close>
  current :: "InternalState option"
  pendingRouteManifest :: "string list option"
  pendingPathNormalizer :: "normalizer option"
  hasSentInitialPV :: bool
  routeManifestReady :: bool
  \<comment> \<open>local storage\<close>
  getItem_throws :: bool
  setItem_throws :: bool
  device_item :: "string option"
  session_item :: "Stored option"
  \<comment> \<open>clock and sources of fresh values\<close>
  clock :: int
  uuid_gen :: "nat \<Rightarrow> string"
  uuid_count :: nat
  random_gen :: "nat \<Rightarrow> rat"
  random_count :: nat
  \<comment> \<open>the byte size of the JSON text of an event; \<open>None\<close> when \<^verbatim>\<open>JSON.stringify\<close> throws\<close>
  blob_size :: "RumEvent \<Rightarrow> nat option"
  \<comment> \<open>page\<close>
  pathname :: string
  visibility_hidden :: bool
  \<comment> \<open>transports\<close>
  has_sendBeacon :: bool
  sendBeacon_throws :: bool
  \<comment> \<open>timers, listeners, collectors\<close>
  timers :: "(nat \<times> TimerTask) list"
  next_timer :: nat
  listeners :: "(string \<times> Handler) list"
  collectors :: "Collector list"
  \<comment> \<open>log of effects\<close>
  trace :: "Effect list"

datatype exn = HookError | SerializeError

datatype result = Returns world | Throws exn world

fun world_of :: "result \<Rightarrow> world" where
  "world_of (Returns w) = w"
| "world_of (Throws e w) = w"

fun returns :: "result \<Rightarrow> bool" where
  "returns (Returns w) = True"
| "returns (Throws e w) = False"

text \<open>Sequencing: the rest of a function body runs only when the call returned.\<close>
fun and_then :: "result \<Rightarrow> (world \<Rightarrow> result) \<Rightarrow> result" where
  "and_then (Returns w) f = f w"
| "and_then (Throws e w) f = Throws e w"

subsection \<open>Constants and utilities\<close>

definition SDK_NAME :: string where "SDK_NAME = ''@watchlog/rum-react''"
definition SDK_VERSION :: string where "SDK_VERSION = ''0.2.6''"
definition DEFAULT_ENDPOINT :: string where "DEFAULT_ENDPOINT = ''https://api.watchlog.io/rum''"
definition DEFAULT_SAMPLE_RATE :: rat where "DEFAULT_SAMPLE_RATE = 1 / 10"
definition DEFAULT_BATCH_MAX :: int where "DEFAULT_BATCH_MAX = 50"
definition DEFAULT_FLUSH_INTERVAL :: int where "DEFAULT_FLUSH_INTERVAL = 5000"
definition DEFAULT_MAX_QUEUE_BYTES :: JsNumber where
  "DEFAULT_MAX_QUEUE_BYTES = Finite (250 * 1024)"
definition DEFAULT_SESSION_TTL :: int where "DEFAULT_SESSION_TTL = 30 * 60 * 1000"

text \<open>JavaScript truthiness of an optional string: defined and not empty.\<close>
fun truthy :: "string option \<Rightarrow> bool" where
  "truthy None = False"
| "truthy (Some s) = (s \<noteq> [])"

text \<open>\<^verbatim>\<open>a ?? b\<close>\<close>
fun nullish :: "'a option \<Rightarrow> 'a \<Rightarrow> 'a" where
  "nullish None d = d"
| "nullish (Some x) d = x"

text \<open>\<^verbatim>\<open>a ?? b\<close> where \<open>b\<close> may be undefined as well\<close>
fun nullish_opt :: "'a option \<Rightarrow> 'a option \<Rightarrow> 'a option" where
  "nullish_opt None d = d"
| "nullish_opt (Some x) d = Some x"

definition uuid :: "world \<Rightarrow> string \<times> world" where
  "uuid w = (uuid_gen w (uuid_count w), w\<lparr>uuid_count := Suc (uuid_count w)\<rparr>)"

definition math_random :: "world \<Rightarrow> rat \<times> world" where
  "math_random w = (random_gen w (random_count w), w\<lparr>random_count := Suc (random_count w)\<rparr>)"

definition now :: "world \<Rightarrow> int" where
  "now w = clock w"

definition log_effect :: "Effect \<Rightarrow> world \<Rightarrow> world" where
  "log_effect e w = w\<lparr>trace := trace w @ [e]\<rparr>"

text \<open>\<^verbatim>\<open>localStorage.setItem\<close> on the two keys, when it does not throw.\<close>
definition setItem_device :: "string \<Rightarrow> world \<Rightarrow> world" where
  "setItem_device v w = log_effect (SetDeviceItem v) (w\<lparr>device_item := Some v\<rparr>)"

definition setItem_session :: "Session \<Rightarrow> world \<Rightarrow> world" where
  "setItem_session v w = log_effect (SetSessionItem v) (w\<lparr>session_item := Some (Persisted v)\<rparr>)"

definition applyDefaults :: "RumConfig \<Rightarrow> world \<Rightarrow> RumConfigWithDefaults" where
  "applyDefaults cfg w = \<lparr>
     endpoint = Some (nullish (endpoint_opt cfg) DEFAULT_ENDPOINT),
     apiKey = apiKey_opt cfg,
     app = app_opt cfg,
     environment = environment_opt cfg,
     release = release_opt cfg,
     userId = userId_opt cfg,
     sampleRate = nullish (sampleRate_opt cfg) DEFAULT_SAMPLE_RATE,
     batchMax = nullish (batchMax_opt cfg) DEFAULT_BATCH_MAX,
     flushInterval = nullish (flushInterval_opt cfg) DEFAULT_FLUSH_INTERVAL,
     maxQueueBytes = nullish (maxQueueBytes_opt cfg) DEFAULT_MAX_QUEUE_BYTES,
     captureErrors = nullish (captureErrors_opt cfg) True,
     captureFetch = nullish (captureFetch_opt cfg) False,
     captureXHR = nullish (captureXHR_opt cfg) False,
     captureResources = nullish (captureResources_opt cfg) True,
     maxResourceCount = nullish (maxResourceCount_opt cfg) 50,
     captureLongTasks = nullish (captureLongTasks_opt cfg) False,
     enableWebVitals = nullish (enableWebVitals_opt cfg) True,
     ignoreSelfResources = nullish (ignoreSelfResources_opt cfg) True,
     sessionTtlMs = nullish (sessionTtlMs_opt cfg) DEFAULT_SESSION_TTL,
     routeManifest = nullish_opt (routeManifest_opt cfg) (pendingRouteManifest w),
     getNormalizedPath = nullish_opt (getNormalizedPath_opt cfg) (pendingPathNormalizer w),
     autoTrackInitialView = nullish (autoTrackInitialView_opt cfg) True,
     beforeSend = beforeSend_opt cfg \<rparr>"

subsection \<open>Session and device\<close>

definition getOrCreateDeviceId :: "world \<Rightarrow> string \<times> world" where
  "getOrCreateDeviceId w =
     (if getItem_throws w then uuid w
      else if truthy (device_item w) then (nullish (device_item w) [], w)
      else (let (i, w1) = uuid w in
            if setItem_throws w1 then uuid w1
            else (i, setItem_device i w1)))"

text \<open>The outer \<^verbatim>\<open>catch\<close> of \<^verbatim>\<open>loadOrCreateSession\<close>: a session that is not persisted.\<close>
definition unpersisted_session :: "rat \<Rightarrow> world \<Rightarrow> Session \<times> world" where
  "unpersisted_session rate w =
     (let (i, w1) = uuid w; (r, w2) = math_random w1
      in (\<lparr>sess_id = i, sess_sampled = (r < rate), sess_last = now w2\<rparr>, w2))"

text \<open>The lines after the \<^verbatim>\<open>if (raw)\<close> block: a new id, a new draw, persisted; when the
  write throws, the outer \<^verbatim>\<open>catch\<close> takes over.\<close>
definition create_session :: "rat \<Rightarrow> int \<Rightarrow> world \<Rightarrow> Session \<times> world" where
  "create_session rate nowMs w =
     (let (i, w1) = uuid w; (r, w2) = math_random w1;
          v = \<lparr>sess_id = i, sess_sampled = (r < rate), sess_last = nowMs\<rparr>
      in if setItem_throws w2 then unpersisted_session rate w2
         else (v, setItem_session v w2))"

definition loadOrCreateSession :: "rat \<Rightarrow> int \<Rightarrow> world \<Rightarrow> Session \<times> world" where
  "loadOrCreateSession rate ttlMs w =
     (if getItem_throws w then unpersisted_session rate w
      else let nowMs = now w in
        case session_item w of
          None \<Rightarrow> create_session rate nowMs w
        | Some Corrupt \<Rightarrow> create_session rate nowMs w
        | Some (Persisted v) \<Rightarrow>
            if nowMs - sess_last v < ttlMs then
              (if setItem_throws w then create_session rate nowMs w
               else let updated = v\<lparr>sess_last := nowMs\<rparr>
                    in (updated, setItem_session updated w))
            else create_session rate nowMs w)"

definition refreshSessionActivity :: "world \<Rightarrow> world" where
  "refreshSessionActivity w =
     (if getItem_throws w then w
      else case session_item w of
          None \<Rightarrow> w
        | Some Corrupt \<Rightarrow> w
        | Some (Persisted v) \<Rightarrow>
            if setItem_throws w then w
            else setItem_session (v\<lparr>sess_last := now w\<rparr>) w)"

subsection \<open>Context\<close>

definition computeNormalizedPath :: "string \<Rightarrow> world \<Rightarrow> string" where
  "computeNormalizedPath p w =
     (let literal = (if p = [] then ''/'' else p) in
      case current w of
        None \<Rightarrow> literal
      | Some s \<Rightarrow>
          (case getNormalizedPath (config s) of
             None \<Rightarrow> literal
           | Some f \<Rightarrow> (case f p of Some r \<Rightarrow> r | None \<Rightarrow> literal)))"

definition baseContext :: "world \<Rightarrow> BaseContext" where
  "baseContext w = \<lparr>
     ctx_app = Option.bind (current w) (\<lambda>s. app (config s)),
     ctx_environment = Option.bind (current w) (\<lambda>s. environment (config s)),
     ctx_release = Option.bind (current w) (\<lambda>s. release (config s)),
     page_path = Some (pathname w),
     page_normalizedPath =
       (if pathname w \<noteq> [] then Some (computeNormalizedPath (pathname w) w) else None),
     ctx_user = Option.bind (current w) user,
     ctx_extra = map_option pageCtxExtra (current w) \<rparr>"

subsection \<open>Queue and transport\<close>

definition nextSeq :: "world \<Rightarrow> int \<times> world" where
  "nextSeq w =
     (case current w of
        None \<Rightarrow> (0, w)
      | Some s \<Rightarrow> (seq s + 1, w\<lparr>current := Some (s\<lparr>seq := seq s + 1\<rparr>)\<rparr>))"

definition safeJsonSize :: "int \<Rightarrow> world \<Rightarrow> bool" where
  "safeJsonSize bytes w =
     at_most bytes (case current w of
                      None \<Rightarrow> DEFAULT_MAX_QUEUE_BYTES
                    | Some s \<Rightarrow> maxQueueBytes (config s))"

text \<open>
  \<^verbatim>\<open>flushQueue\<close>. \<^verbatim>\<open>JSON.stringify(payload)\<close> runs before the queue is reset and outside
  any \<^verbatim>\<open>try\<close>: it serialises the queued events as they are now, and when one of them
  does not serialise the exception leaves \<^verbatim>\<open>flushQueue\<close> with the queue as it was and
  nothing sent. A \<^verbatim>\<open>fetch\<close> that throws is caught and leaves nothing behind, so the call
  is logged and nothing more. A beacon call that throws is logged as \<open>BeaconFailed\<close>, and
  control reaches the \<^verbatim>\<open>fetch\<close> line.
\<close>
definition flushQueue :: "bool \<Rightarrow> world \<Rightarrow> result" where
  "flushQueue useBeacon w =
     (case current w of
        None \<Rightarrow> Returns w
      | Some s \<Rightarrow>
          if queue s = [] then Returns w
          else
            let payload = \<lparr>
                  pl_sdk = SDK_NAME, pl_version = SDK_VERSION, pl_sentAt = now w,
                  pl_apiKey = (if truthy (apiKey (config s)) then apiKey (config s) else None),
                  pl_sessionId = sessionId s, pl_deviceId = deviceId s,
                  pl_app = app (config s), pl_environment = environment (config s),
                  pl_release = release (config s),
                  pl_events = queue s \<rparr>
            in if list_ex (\<lambda>e. blob_size w e = None) (pl_events payload)
               then Throws SerializeError w
               else
                 let w1 = w\<lparr>current := Some (s\<lparr>queue := [], queueBytes := 0\<rparr>)\<rparr>;
                     headers = [(''Content-Type'', ''application/json'')] @
                       (if truthy (apiKey (config s))
                        then [(''X-Watchlog-Key'', nullish (apiKey (config s)) [])] else []);
                     url = (if truthy (endpoint (config s))
                            then nullish (endpoint (config s)) [] else DEFAULT_ENDPOINT)
                 in if useBeacon \<and> has_sendBeacon w1 then
                      (if sendBeacon_throws w1
                       then Returns (log_effect (FetchCall url payload headers)
                              (log_effect (BeaconFailed url payload) w1))
                       else Returns (log_effect (BeaconCall url payload) w1))
                    else Returns (log_effect (FetchCall url payload headers) w1))"

text \<open>\<^verbatim>\<open>enqueue\<close>. Both calls of \<^verbatim>\<open>flushQueue\<close> are outside any \<^verbatim>\<open>try\<close>; when the first one
  throws, the rest of the body does not run.\<close>
definition enqueue :: "RumEvent \<Rightarrow> world \<Rightarrow> result" where
  "enqueue event w =
     (case current w of
        None \<Rightarrow> Returns w
      | Some s \<Rightarrow>
          if \<not> sampled s then Returns w
          else
            (case blob_size w event of
               None \<Rightarrow> Throws SerializeError w
             | Some bytes \<Rightarrow>
                 and_then
                   (if \<not> safeJsonSize (queueBytes s + int bytes) w
                    then flushQueue False w else Returns w)
                   (\<lambda>w1.
                      (case current w1 of
                         None \<Rightarrow> Returns w1
                       | Some s1 \<Rightarrow>
                           if \<not> safeJsonSize (queueBytes s1 + int bytes) w1 then Returns w1
                           else
                             let s2 = s1\<lparr>queue := queue s1 @ [event],
                                         queueBytes := queueBytes s1 + int bytes\<rparr>;
                                 w2 = w1\<lparr>current := Some s2\<rparr>
                             in if batchMax (config s2) \<le> int (length (queue s2))
                                then flushQueue False w2
                                else Returns w2))))"

definition clearInterval :: "nat \<Rightarrow> world \<Rightarrow> world" where
  "clearInterval t w = w\<lparr>timers := filter (\<lambda>p. fst p \<noteq> t) (timers w)\<rparr>"

text \<open>\<^verbatim>\<open>setInterval\<close> and \<^verbatim>\<open>setTimeout\<close>: the identifier returned, and the world with
  the timer in it.\<close>
definition setTimer :: "TimerTask \<Rightarrow> world \<Rightarrow> nat \<times> world" where
  "setTimer task w =
     (next_timer w,
      w\<lparr>timers := timers w @ [(next_timer w, task)], next_timer := Suc (next_timer w)\<rparr>)"

definition scheduleFlush :: "world \<Rightarrow> world" where
  "scheduleFlush w =
     (case current w of
        None \<Rightarrow> w
      | Some s \<Rightarrow>
          let w1 = (case flushTimer s of
                      None \<Rightarrow> w
                    | Some t \<Rightarrow> if t \<noteq> 0 then clearInterval t w else w);
              (t, w2) = setTimer (FlushTick (flushInterval (config s))) w1
          in w2\<lparr>current := Some (s\<lparr>flushTimer := Some t\<rparr>)\<rparr>)"

subsection \<open>Lifecycle\<close>

definition addEventListener :: "string \<Rightarrow> Handler \<Rightarrow> world \<Rightarrow> world" where
  "addEventListener evt h w = w\<lparr>listeners := listeners w @ [(evt, h)]\<rparr>"

text \<open>\<^verbatim>\<open>current?.unsubscribers.push(u)\<close>\<close>
definition push_unsubscriber :: "Unsubscriber \<Rightarrow> world \<Rightarrow> world" where
  "push_unsubscriber u w =
     (case current w of
        None \<Rightarrow> w
      | Some s \<Rightarrow> w\<lparr>current := Some (s\<lparr>unsubscribers := unsubscribers s @ [u]\<rparr>)\<rparr>)"

definition activity_events :: "string list" where
  "activity_events =
     [''click'', ''keydown'', ''scroll'', ''pointerdown'', ''touchstart'', ''mousemove'', ''focus'']"

definition setupLifecycle :: "world \<Rightarrow> world" where
  "setupLifecycle w =
     (let w1 = addEventListener ''beforeunload'' OnUnload w;
          w2 = addEventListener ''visibilitychange'' OnVisibilityChange w1;
          w3 = foldl (\<lambda>v evt. push_unsubscriber (RemoveListener evt OnActivity)
                                (addEventListener evt OnActivity v)) w2 activity_events
      in push_unsubscriber (RemoveListener ''beforeunload'' OnUnload) w3)"

text \<open>The bodies of the three listeners.\<close>
fun run_handler :: "Handler \<Rightarrow> world \<Rightarrow> result" where
  "run_handler OnUnload w = flushQueue True (refreshSessionActivity w)"
| "run_handler OnVisibilityChange w =
     (if visibility_hidden w then flushQueue True w else Returns w)"
| "run_handler OnActivity w = Returns (refreshSessionActivity w)"

text \<open>The window delivers an event to the listeners registered for it, in the order of
  their registration. An exception that leaves a listener is reported by the browser and
  the next listener is called, in the state the exception left.\<close>
definition fire_event :: "string \<Rightarrow> world \<Rightarrow> world" where
  "fire_event evt w =
     foldl (\<lambda>v h. world_of (run_handler h v)) w
       (map snd (filter (\<lambda>p. fst p = evt) (listeners w)))"

text \<open>What \<^verbatim>\<open>setupLifecycle\<close> registers on the window, in order.\<close>
definition lifecycle_listeners :: "(string \<times> Handler) list" where
  "lifecycle_listeners =
     [(''beforeunload'', OnUnload), (''visibilitychange'', OnVisibilityChange),
      (''click'', OnActivity), (''keydown'', OnActivity), (''scroll'', OnActivity),
      (''pointerdown'', OnActivity), (''touchstart'', OnActivity), (''mousemove'', OnActivity),
      (''focus'', OnActivity)]"

text \<open>The two signals of page teardown.\<close>
definition page_unload :: "world \<Rightarrow> world" where
  "page_unload w = fire_event ''beforeunload'' w"

definition page_hide :: "world \<Rightarrow> world" where
  "page_hide w = fire_event ''visibilitychange'' (w\<lparr>visibility_hidden := True\<rparr>)"

text \<open>
  The collectors are outside this model (they only produce events and call
  \<^verbatim>\<open>dispatch\<close>); attaching one is recorded, with a teardown callback for those that
  register one.
\<close>
fun has_teardown :: "Collector \<Rightarrow> bool" where
  "has_teardown ErrorHandlers = True"
| "has_teardown (ResourceObserver n) = True"
| "has_teardown LongTaskObserver = True"
| "has_teardown c = False"

definition attach :: "Collector \<Rightarrow> world \<Rightarrow> world" where
  "attach c w =
     (let w1 = w\<lparr>collectors := collectors w @ [c]\<rparr>
      in if has_teardown c then push_unsubscriber (StopCollector c) w1 else w1)"

fun run_unsubscriber :: "Unsubscriber \<Rightarrow> world \<Rightarrow> world" where
  "run_unsubscriber (RemoveListener evt h) w = w\<lparr>listeners := remove1 (evt, h) (listeners w)\<rparr>"
| "run_unsubscriber (StopCollector c) w = w\<lparr>collectors := remove1 c (collectors w)\<rparr>"

subsection \<open>Public API\<close>

definition dispatch :: "RumEvent \<Rightarrow> world \<Rightarrow> result" where
  "dispatch ev w =
     (case current w of
        None \<Rightarrow> Returns w
      | Some s \<Rightarrow>
          (case beforeSend (config s) of
             None \<Rightarrow> enqueue ev w
           | Some h \<Rightarrow>
               (case h ev of
                  HookThrows \<Rightarrow> Throws HookError w
                | HookReturns None \<Rightarrow> Returns w
                | HookReturns (Some transformed) \<Rightarrow> enqueue transformed w)))"

definition trackPageView :: "jsobj option \<Rightarrow> string option \<Rightarrow> world \<Rightarrow> result" where
  "trackPageView extra navType w =
     (case current w of
        None \<Rightarrow> Returns w
      | Some s \<Rightarrow>
          if \<not> sampled s then Returns w
          else
            let ctx0 = baseContext w;
                ctx = (case extra of
                         None \<Rightarrow> ctx0
                       | Some x \<Rightarrow> ctx0\<lparr>ctx_extra := Some (nullish (ctx_extra ctx0) Map.empty ++ x)\<rparr>);
                t = now w;
                (n, w1) = nextSeq w;
                ev = \<lparr>ev_type = page_view, ev_ts = t, ev_sessionId = sessionId s,
                      ev_deviceId = deviceId s, ev_seq = n, ev_context = ctx,
                      ev_name = None, ev_data = PageViewData navType\<rparr>
            in and_then (dispatch ev w1) (\<lambda>w2. Returns (w2\<lparr>hasSentInitialPV := True\<rparr>)))"

definition trackEvent :: "string \<Rightarrow> jsval option \<Rightarrow> world \<Rightarrow> result" where
  "trackEvent name data w =
     (case current w of
        None \<Rightarrow> Returns w
      | Some s \<Rightarrow>
          if \<not> sampled s then Returns w
          else
            let t = now w;
                (n, w1) = nextSeq w;
                ev = \<lparr>ev_type = custom, ev_ts = t, ev_sessionId = sessionId s,
                      ev_deviceId = deviceId s, ev_seq = n, ev_context = baseContext w1,
                      ev_name = Some name, ev_data = CustomData data\<rparr>
            in dispatch ev w1)"

definition identify :: "string \<Rightarrow> jsobj option \<Rightarrow> world \<Rightarrow> world" where
  "identify uid traits w =
     (case current w of
        None \<Rightarrow> w
      | Some s \<Rightarrow>
          w\<lparr>current := Some (s\<lparr>user := Some ([''id'' \<mapsto> uid] ++ nullish traits Map.empty)\<rparr>)\<rparr>)"

definition setContext :: "jsobj \<Rightarrow> world \<Rightarrow> world" where
  "setContext extra w =
     (case current w of
        None \<Rightarrow> w
      | Some s \<Rightarrow> w\<lparr>current := Some (s\<lparr>pageCtxExtra := pageCtxExtra s ++ extra\<rparr>)\<rparr>)"

text \<open>The argument of \<^verbatim>\<open>trackError\<close>: a string, or an \<^verbatim>\<open>Error\<close> with its name, message
  and stack. (The stack of the \<^verbatim>\<open>Error\<close> made from a string is text of the platform and
  is left out.)\<close>
datatype ErrorArg = ErrString string | ErrObject "string option" "string option" "string option"

definition trackError :: "ErrorArg \<Rightarrow> string option \<Rightarrow> world \<Rightarrow> result" where
  "trackError err source w =
     (case current w of
        None \<Rightarrow> Returns w
      | Some s \<Rightarrow>
          if \<not> sampled s then Returns w
          else
            let d = (case err of
                       ErrString m \<Rightarrow> ErrorData (Some ''Error'') (Some m) None source
                     | ErrObject n m st \<Rightarrow> ErrorData n m st source);
                t = now w;
                (n, w1) = nextSeq w;
                ev = \<lparr>ev_type = error, ev_ts = t, ev_sessionId = sessionId s,
                      ev_deviceId = deviceId s, ev_seq = n, ev_context = baseContext w1,
                      ev_name = None, ev_data = d\<rparr>
            in dispatch ev w1)"

definition flush :: "world \<Rightarrow> result" where
  "flush w = flushQueue False w"

definition shutdown :: "world \<Rightarrow> world" where
  "shutdown w =
     (let w1 = (case current w of
                  None \<Rightarrow> w
                | Some s \<Rightarrow>
                    (case flushTimer s of
                       None \<Rightarrow> w
                     | Some t \<Rightarrow> if t \<noteq> 0 then clearInterval t w else w));
          w2 = (case current w1 of
                  None \<Rightarrow> w1
                | Some s \<Rightarrow> foldl (\<lambda>v u. run_unsubscriber u v) w1 (unsubscribers s))
      in w2\<lparr>current := None\<rparr>)"

definition getSessionInfo :: "world \<Rightarrow> (string \<times> string \<times> bool) option" where
  "getSessionInfo w =
     (case current w of
        None \<Rightarrow> None
      | Some s \<Rightarrow> Some (sessionId s, deviceId s, sampled s))"

subsection \<open>Init\<close>

definition attach_collectors :: "RumConfigWithDefaults \<Rightarrow> world \<Rightarrow> world" where
  "attach_collectors cfg w =
     (let w1 = (if captureErrors cfg then attach ErrorHandlers w else w);
          w2 = (if captureFetch cfg then attach FetchInstrumentation w1 else w1);
          w3 = (if captureXHR cfg then attach XHRInstrumentation w2 else w2);
          w4 = (if captureResources cfg then attach (ResourceObserver (maxResourceCount cfg)) w3
                else w3);
          w5 = (if captureLongTasks cfg then attach LongTaskObserver w4 else w4)
      in if enableWebVitals cfg then attach WebVitals w5 else w5)"

text \<open>\<^verbatim>\<open>startRum\<close>. The value it returns is the module constant \<^verbatim>\<open>publicAPI\<close> on every
  path, so the model returns the world alone.\<close>
definition startRum :: "RumConfig \<Rightarrow> world \<Rightarrow> result" where
  "startRum c w =
     (case current w of
        Some s \<Rightarrow> Returns w
      | None \<Rightarrow>
          let cfg = applyDefaults c w;
              (dev, w1) = getOrCreateDeviceId w;
              (sess, w2) = loadOrCreateSession (sampleRate cfg) (sessionTtlMs cfg) w1;
              st = \<lparr>config = cfg, deviceId = dev, sessionId = sess_id sess,
                    sampled = sess_sampled sess, seq = 0, queue = [], queueBytes = 0,
                    flushTimer = None, pageCtxExtra = Map.empty,
                    user = (if truthy (userId cfg)
                            then Some [''id'' \<mapsto> nullish (userId cfg) []] else None),
                    unsubscribers = []\<rparr>;
              w3 = w2\<lparr>current := Some st\<rparr>;
              w4 = (if sess_sampled sess then attach_collectors cfg (setupLifecycle w3) else w3);
              w5 = scheduleFlush w4
          in if sess_sampled sess \<and> autoTrackInitialView cfg then
               (if routeManifestReady w5 \<or> getNormalizedPath cfg \<noteq> None
                then trackPageView None None w5
                else let (poll, w6) = setTimer InitialViewPoll w5;
                         (fallback, w7) = setTimer (InitialViewFallback poll) w6
                     in Returns w7)
             else Returns w5)"

text \<open>What a timer does when it fires; a timeout is gone once it has fired.\<close>
definition run_timer :: "nat \<Rightarrow> world \<Rightarrow> result" where
  "run_timer t w =
     (case map_of (timers w) t of
        None \<Rightarrow> Returns w
      | Some (FlushTick ms) \<Rightarrow> flushQueue False w
      | Some InitialViewPoll \<Rightarrow>
          if routeManifestReady w \<and> \<not> hasSentInitialPV w
          then trackPageView None None (clearInterval t w)
          else Returns w
      | Some (InitialViewFallback poll) \<Rightarrow>
          let w1 = clearInterval t w
          in if \<not> hasSentInitialPV w1
             then trackPageView None None (clearInterval poll w1)
             else Returns w1)"

subsection \<open>Path normalization setters\<close>

definition setRouteManifest :: "string list \<Rightarrow> world \<Rightarrow> world" where
  "setRouteManifest routes w =
     (case current w of
        Some s \<Rightarrow>
          w\<lparr>current := Some (s\<lparr>config := (config s)\<lparr>routeManifest := Some routes\<rparr>\<rparr>),
            routeManifestReady := True\<rparr>
      | None \<Rightarrow> w\<lparr>pendingRouteManifest := Some routes, routeManifestReady := True\<rparr>)"

definition setPathNormalizer :: "normalizer \<Rightarrow> world \<Rightarrow> world" where
  "setPathNormalizer fn w =
     (case current w of
        Some s \<Rightarrow> w\<lparr>current := Some (s\<lparr>config := (config s)\<lparr>getNormalizedPath := Some fn\<rparr>\<rparr>)\<rparr>
      | None \<Rightarrow> w\<lparr>pendingPathNormalizer := Some fn\<rparr>)"

subsection \<open>Observations and call sequences\<close>

definition queued :: "world \<Rightarrow> RumEvent list" where
  "queued w = (case current w of None \<Rightarrow> [] | Some s \<Rightarrow> queue s)"

definition queued_bytes :: "world \<Rightarrow> int" where
  "queued_bytes w = (case current w of None \<Rightarrow> 0 | Some s \<Rightarrow> queueBytes s)"

text \<open>The byte cap in force, as \<^verbatim>\<open>safeJsonSize\<close> reads it.\<close>
definition byte_cap :: "world \<Rightarrow> JsNumber" where
  "byte_cap w =
     (case current w of None \<Rightarrow> DEFAULT_MAX_QUEUE_BYTES | Some s \<Rightarrow> maxQueueBytes (config s))"

text \<open>Every queued event serialises, as things are now.\<close>
definition serialises :: "world \<Rightarrow> bool" where
  "serialises w = list_all (\<lambda>e. blob_size w e \<noteq> None) (queued w)"

text \<open>The bytes the queued events serialise to, as things are now.\<close>
definition queue_size :: "world \<Rightarrow> int" where
  "queue_size w =
     sum_list (map (\<lambda>e. case blob_size w e of None \<Rightarrow> 0 | Some b \<Rightarrow> int b) (queued w))"

definition current_seq :: "world \<Rightarrow> int" where
  "current_seq w = (case current w of None \<Rightarrow> 0 | Some s \<Rightarrow> seq s)"

definition configured_hook :: "world \<Rightarrow> hook option" where
  "configured_hook w = Option.bind (current w) (\<lambda>s. beforeSend (config s))"

definition configured_normalizer :: "world \<Rightarrow> normalizer option" where
  "configured_normalizer w = Option.bind (current w) (\<lambda>s. getNormalizedPath (config s))"

definition is_sampled :: "world \<Rightarrow> bool" where
  "is_sampled w = (case current w of None \<Rightarrow> False | Some s \<Rightarrow> sampled s)"

definition running :: "world \<Rightarrow> bool" where
  "running w = (current w \<noteq> None)"

definition batch_max :: "world \<Rightarrow> int" where
  "batch_max w = (case current w of None \<Rightarrow> DEFAULT_BATCH_MAX | Some s \<Rightarrow> batchMax (config s))"

text \<open>The transport calls among the effects: every attempt, and those that took the
  payload (a beacon call that threw took nothing).\<close>
fun transport_attempts :: "Effect list \<Rightarrow> Effect list" where
  "transport_attempts [] = []"
| "transport_attempts (BeaconCall u p # es) = BeaconCall u p # transport_attempts es"
| "transport_attempts (BeaconFailed u p # es) = BeaconFailed u p # transport_attempts es"
| "transport_attempts (FetchCall u p h # es) = FetchCall u p h # transport_attempts es"
| "transport_attempts (e # es) = transport_attempts es"

text \<open>The sessions written to storage among the effects.\<close>
fun session_writes :: "Effect list \<Rightarrow> Session list" where
  "session_writes [] = []"
| "session_writes (SetSessionItem v # es) = v # session_writes es"
| "session_writes (e # es) = session_writes es"

fun sent_payloads :: "Effect list \<Rightarrow> Payload list" where
  "sent_payloads [] = []"
| "sent_payloads (BeaconCall u p # es) = p # sent_payloads es"
| "sent_payloads (FetchCall u p h # es) = p # sent_payloads es"
| "sent_payloads (e # es) = sent_payloads es"

text \<open>The effects since the trace had \<open>k\<close> entries, and the events transported since.\<close>
definition effects_since :: "nat \<Rightarrow> world \<Rightarrow> Effect list" where
  "effects_since k w = drop k (trace w)"

definition emitted_since :: "nat \<Rightarrow> world \<Rightarrow> RumEvent list" where
  "emitted_since k w = concat (map pl_events (sent_payloads (effects_since k w)))"

definition persisted_session :: "world \<Rightarrow> Session option" where
  "persisted_session w =
     (case session_item w of Some (Persisted v) \<Rightarrow> Some v | _ \<Rightarrow> None)"

text \<open>The persisted session can be renewed: storage reads and writes work, and the value
  under the session key parses to a session whose last activity is less than the
  time-to-live ago.\<close>
definition renewable :: "int \<Rightarrow> world \<Rightarrow> bool" where
  "renewable ttlMs w =
     (\<not> getItem_throws w \<and> \<not> setItem_throws w \<and>
      (case persisted_session w of None \<Rightarrow> False | Some v \<Rightarrow> now w - sess_last v < ttlMs))"

text \<open>The two statements of \<^verbatim>\<open>enqueue\<close> that append the event and count its bytes.\<close>
definition push_event :: "RumEvent \<Rightarrow> nat \<Rightarrow> world \<Rightarrow> world" where
  "push_event e b w =
     w\<lparr>current := map_option
          (\<lambda>s. s\<lparr>queue := queue s @ [e], queueBytes := queueBytes s + int b\<rparr>) (current w)\<rparr>"

text \<open>The lines of \<^verbatim>\<open>enqueue\<close> after its first flush, for an event that serialised to
  \<open>b\<close> bytes: the second check of the cap, the append, and the flush of a full batch.\<close>
definition enqueue_rest :: "RumEvent \<Rightarrow> nat \<Rightarrow> world \<Rightarrow> result" where
  "enqueue_rest e b v =
     (if \<not> at_most (queued_bytes v + int b) (byte_cap v) then Returns v
      else if batch_max v \<le> int (length (queued v)) + 1
           then flushQueue False (push_event e b v)
           else Returns (push_event e b v))"

text \<open>The events accepted since the trace had \<open>k\<close> entries: those transported, then those
  still in the queue.\<close>
definition stream :: "nat \<Rightarrow> world \<Rightarrow> RumEvent list" where
  "stream k w = emitted_since k w @ queued w"

text \<open>The byte counter is 0 while the queue is empty, and within the cap while it is not.\<close>
definition counter_capped :: "world \<Rightarrow> bool" where
  "counter_capped w =
     (if queued w = [] then queued_bytes w = 0
      else at_most (queued_bytes w) (byte_cap w))"

text \<open>The byte counter is exact: every queued event serialises, and the counter is the
  number of bytes the queued events serialise to.\<close>
definition counter_exact :: "world \<Rightarrow> bool" where
  "counter_exact w = (serialises w \<and> queued_bytes w = queue_size w)"

text \<open>The configured hook, if any, passes events on with their sequence number.\<close>
definition hook_keeps_seq :: "world \<Rightarrow> bool" where
  "hook_keeps_seq w =
     (case configured_hook w of
        None \<Rightarrow> True
      | Some h \<Rightarrow> \<forall>e t. h e = HookReturns (Some t) \<longrightarrow> ev_seq t = ev_seq e)"

text \<open>Nothing can drop an event: no hook is configured, the byte counter is exact, and
  every event serialises to no more than the cap.\<close>
definition never_drops :: "world \<Rightarrow> bool" where
  "never_drops w =
     (configured_hook w = None \<and> counter_exact w \<and>
      (\<forall>e. \<exists>b. blob_size w e = Some b \<and> at_most (int b) (byte_cap w)))"

text \<open>The accepted events carry strictly increasing sequence numbers, none above the
  counter.\<close>
definition seq_ordered :: "nat \<Rightarrow> world \<Rightarrow> bool" where
  "seq_ordered k w =
     (k \<le> length (trace w) \<and> sorted_wrt (<) (map ev_seq (stream k w)) \<and>
      (\<forall>e \<in> set (stream k w). ev_seq e \<le> current_seq w))"

text \<open>The accepted events carry exactly the sequence numbers from 1 to the counter.\<close>
definition gapless :: "nat \<Rightarrow> world \<Rightarrow> bool" where
  "gapless k w =
     (k \<le> length (trace w) \<and> 0 \<le> current_seq w \<and>
      map ev_seq (stream k w) = [1..current_seq w])"

text \<open>
  One step of the pipeline from \<open>w\<close> to \<open>w'\<close>: at most one event joins the stream, with
  the next sequence number; the counter moves by at most one, and by one when an event
  joined; when nothing can drop an event, the counter moves exactly when an event joins.
\<close>
definition advances :: "nat \<Rightarrow> world \<Rightarrow> world \<Rightarrow> bool" where
  "advances k w w' =
     (\<exists>es. length es \<le> 1 \<and> (\<forall>x \<in> set es. ev_seq x = current_seq w + 1) \<and>
        stream k w' = stream k w @ es \<and>
        current_seq w \<le> current_seq w' \<and>
        (es \<noteq> [] \<longrightarrow> current_seq w' = current_seq w + 1) \<and>
        (never_drops w \<longrightarrow> current_seq w' = current_seq w + int (length es)) \<and>
        length (trace w) \<le> length (trace w'))"

text \<open>A sequence of \<^verbatim>\<open>enqueue\<close> calls.\<close>
definition enqueue_all :: "RumEvent list \<Rightarrow> world \<Rightarrow> world" where
  "enqueue_all evs w = foldl (\<lambda>v e. world_of (enqueue e v)) w evs"

text \<open>
  What can happen to a running pipeline between its start and its shutdown: calls of
  the public API, the late-binding setters, window events, timers firing, the page being
  hidden or shown, time passing, and the world changing under it: the value under the
  session key (another tab writes it), storage reads and writes starting or ceasing to
  throw, the beacon being available or not, throwing or not, and the host changing the
  data that events refer to, so that they serialise differently or not at all. The host
  goes on after a call that threw.
\<close>
datatype Call =
    CallTrackPageView "jsobj option" "string option"
  | CallTrackEvent string "jsval option"
  | CallTrackError ErrorArg "string option"
  | CallIdentify string "jsobj option"
  | CallSetContext jsobj
  | CallFlush
  | CallSetRouteManifest "string list"
  | CallSetPathNormalizer normalizer
  | WindowEvent string
  | PageHidden
  | PageShown
  | TimerFires nat
  | TimePasses nat
  | StorageHolds "Stored option"
  | StorageFails bool bool
  | BeaconBehaves bool bool
  | DataChanges "RumEvent \<Rightarrow> nat option"

fun perform :: "Call \<Rightarrow> world \<Rightarrow> result" where
  "perform (CallTrackPageView extra navType) w = trackPageView extra navType w"
| "perform (CallTrackEvent name data) w = trackEvent name data w"
| "perform (CallTrackError err source) w = trackError err source w"
| "perform (CallIdentify uid traits) w = Returns (identify uid traits w)"
| "perform (CallSetContext extra) w = Returns (setContext extra w)"
| "perform CallFlush w = flush w"
| "perform (CallSetRouteManifest routes) w = Returns (setRouteManifest routes w)"
| "perform (CallSetPathNormalizer fn) w = Returns (setPathNormalizer fn w)"
| "perform (WindowEvent evt) w = Returns (fire_event evt w)"
| "perform PageHidden w = Returns (page_hide w)"
| "perform PageShown w = Returns (fire_event ''visibilitychange'' (w\<lparr>visibility_hidden := False\<rparr>))"
| "perform (TimerFires t) w = run_timer t w"
| "perform (TimePasses ms) w = Returns (w\<lparr>clock := clock w + int ms\<rparr>)"
| "perform (StorageHolds v) w = Returns (w\<lparr>session_item := v\<rparr>)"
| "perform (StorageFails r wr) w = Returns (w\<lparr>getItem_throws := r, setItem_throws := wr\<rparr>)"
| "perform (BeaconBehaves a t) w = Returns (w\<lparr>has_sendBeacon := a, sendBeacon_throws := t\<rparr>)"
| "perform (DataChanges f) w = Returns (w\<lparr>blob_size := f\<rparr>)"

text \<open>The calls in which the host changes the data that events refer to.\<close>
fun changes_data :: "Call \<Rightarrow> bool" where
  "changes_data (DataChanges f) = True"
| "changes_data c = False"

definition run :: "Call list \<Rightarrow> world \<Rightarrow> world" where
  "run calls w = foldl (\<lambda>v c. world_of (perform c v)) w calls"

subsection \<open>A freshly loaded page, and some configurations\<close>

text \<open>The module as loaded, in a browser with empty storage, where an event
  serialises to 100 bytes (300000 when it is named \<open>big\<close>) and the beacon is available.\<close>
definition fresh_page :: world where
  "fresh_page = \<lparr>
     current = None, pendingRouteManifest = None, pendingPathNormalizer = None,
     hasSentInitialPV = False, routeManifestReady = False,
     getItem_throws = False, setItem_throws = False,
     device_item = None, session_item = None,
     clock = 1000,
     uuid_gen = (\<lambda>n. replicate (Suc n) CHR ''u''), uuid_count = 0,
     random_gen = (\<lambda>n. 1 / 2), random_count = 0,
     blob_size = (\<lambda>e. Some (if ev_name e = Some ''big'' then 300000 else 100)),
     pathname = ''/'', visibility_hidden = False,
     has_sendBeacon = True, sendBeacon_throws = False,
     timers = [], next_timer = 1,
     listeners = [], collectors = [],
     trace = [] \<rparr>"

definition no_config :: RumConfig where
  "no_config = \<lparr>
     endpoint_opt = None, apiKey_opt = None, app_opt = None, environment_opt = None,
     release_opt = None, userId_opt = None, sampleRate_opt = None, batchMax_opt = None,
     flushInterval_opt = None, maxQueueBytes_opt = None, captureErrors_opt = None,
     captureFetch_opt = None, captureXHR_opt = None, captureResources_opt = None,
     maxResourceCount_opt = None, captureLongTasks_opt = None, enableWebVitals_opt = None,
     ignoreSelfResources_opt = None, sessionTtlMs_opt = None, routeManifest_opt = None,
     getNormalizedPath_opt = None, autoTrackInitialView_opt = None, beforeSend_opt = None \<rparr>"

text \<open>Every session sampled.\<close>
definition all_sampled :: RumConfig where
  "all_sampled = no_config\<lparr>sampleRate_opt := Some 1\<rparr>"

definition roomy :: RumConfig where
  "roomy = all_sampled\<lparr>maxQueueBytes_opt := Some (Finite 1000000)\<rparr>"

definition small_cap :: RumConfig where
  "small_cap = all_sampled\<lparr>maxQueueBytes_opt := Some (Finite 150)\<rparr>"

definition negative_cap :: RumConfig where
  "negative_cap = all_sampled\<lparr>maxQueueBytes_opt := Some (Finite (- 1))\<rparr>"

definition nan_cap :: RumConfig where
  "nan_cap = all_sampled\<lparr>maxQueueBytes_opt := Some NaN\<rparr>"

text \<open>The configuration of the batching example: every session sampled, batches of two.\<close>
definition batch_of_two :: RumConfig where
  "batch_of_two = all_sampled\<lparr>batchMax_opt := Some 2\<rparr>"

text \<open>The page after the host has set a route manifest, before any start.\<close>
definition routed_page :: world where
  "routed_page = setRouteManifest [''/''] fresh_page"

text \<open>A session persisted by an earlier visit, not sampled, with its last activity at 500.\<close>
definition old_session :: Session where
  "old_session = \<lparr>sess_id = ''old'', sess_sampled = False, sess_last = 500\<rparr>"

text \<open>One custom event is tracked; then another tab leaves the old session under the
  session key, storage works, and the beacon is available and does not throw.\<close>
definition before_teardown :: "Call list" where
  "before_teardown =
     [CallTrackEvent ''a'' None, StorageHolds (Some (Persisted old_session)),
      StorageFails False False, BeaconBehaves True False]"

text \<open>Three custom events, the second one a debug event, and a flush; and two custom
  events.\<close>
definition debug_calls :: "Call list" where
  "debug_calls =
     [CallTrackEvent ''a'' None, CallTrackEvent ''debug_x'' None, CallTrackEvent ''b'' None,
      CallFlush]"

definition two_events :: "Call list" where
  "two_events = [CallTrackEvent ''a'' None, CallTrackEvent ''b'' None]"

text \<open>A hook that throws on every event, and one that drops the events whose name starts
  with \<open>debug_\<close> (the example of the README).\<close>
definition throwing_hook :: RumConfig where
  "throwing_hook = all_sampled\<lparr>beforeSend_opt := Some (\<lambda>e. HookThrows)\<rparr>"

definition drop_debug :: hook where
  "drop_debug e =
     (if ev_type e = custom \<and> take 6 (nullish (ev_name e) []) = ''debug_''
      then HookReturns None else HookReturns (Some e))"

definition dropping_hook :: RumConfig where
  "dropping_hook = all_sampled\<lparr>beforeSend_opt := Some drop_debug\<rparr>"

text \<open>A normalizer that knows one route and throws on every other path.\<close>
definition user_route :: normalizer where
  "user_route p = (if p = ''/user/42'' then Some ''/user/:id'' else None)"

text \<open>A custom event as a collector could hand it to \<^verbatim>\<open>dispatch\<close>.\<close>
definition event_named :: "string \<Rightarrow> int \<Rightarrow> RumEvent" where
  "event_named n k = \<lparr>
     ev_type = custom, ev_ts = 1000, ev_sessionId = ''uu'', ev_deviceId = ''u'', ev_seq = k,
     ev_context = \<lparr>ctx_app = None, ctx_environment = None, ctx_release = None,
       page_path = Some ''/'', page_normalizedPath = Some ''/'', ctx_user = None,
       ctx_extra = Some Map.empty\<rparr>,
     ev_name = Some n, ev_data = CustomData None \<rparr>"

section \<open>Properties\<close>

subsection \<open>What the bookkeeping functions leave alone\<close>

lemmas obs_defs =
  serialises_def queue_size_def
  queued_def queued_bytes_def byte_cap_def batch_max_def current_seq_def configured_hook_def
  is_sampled_def running_def

lemma hasSentInitialPV_update_frame [simp]:
  "running (w\<lparr>hasSentInitialPV := x\<rparr>) = running w"
  "is_sampled (w\<lparr>hasSentInitialPV := x\<rparr>) = is_sampled w"
  "current_seq (w\<lparr>hasSentInitialPV := x\<rparr>) = current_seq w"
  "queued (w\<lparr>hasSentInitialPV := x\<rparr>) = queued w"
  "queued_bytes (w\<lparr>hasSentInitialPV := x\<rparr>) = queued_bytes w"
  "serialises (w\<lparr>hasSentInitialPV := x\<rparr>) = serialises w"
  "queue_size (w\<lparr>hasSentInitialPV := x\<rparr>) = queue_size w"
  "byte_cap (w\<lparr>hasSentInitialPV := x\<rparr>) = byte_cap w"
  "batch_max (w\<lparr>hasSentInitialPV := x\<rparr>) = batch_max w"
  "configured_hook (w\<lparr>hasSentInitialPV := x\<rparr>) = configured_hook w"
  by (simp_all add: obs_defs)

lemma clock_update_frame [simp]:
  "running (w\<lparr>clock := x\<rparr>) = running w"
  "is_sampled (w\<lparr>clock := x\<rparr>) = is_sampled w"
  "current_seq (w\<lparr>clock := x\<rparr>) = current_seq w"
  "queued (w\<lparr>clock := x\<rparr>) = queued w"
  "queued_bytes (w\<lparr>clock := x\<rparr>) = queued_bytes w"
  "serialises (w\<lparr>clock := x\<rparr>) = serialises w"
  "queue_size (w\<lparr>clock := x\<rparr>) = queue_size w"
  "byte_cap (w\<lparr>clock := x\<rparr>) = byte_cap w"
  "batch_max (w\<lparr>clock := x\<rparr>) = batch_max w"
  "configured_hook (w\<lparr>clock := x\<rparr>) = configured_hook w"
  by (simp_all add: obs_defs)

lemma visibility_hidden_update_frame [simp]:
  "running (w\<lparr>visibility_hidden := x\<rparr>) = running w"
  "is_sampled (w\<lparr>visibility_hidden := x\<rparr>) = is_sampled w"
  "current_seq (w\<lparr>visibility_hidden := x\<rparr>) = current_seq w"
  "queued (w\<lparr>visibility_hidden := x\<rparr>) = queued w"
  "queued_bytes (w\<lparr>visibility_hidden := x\<rparr>) = queued_bytes w"
  "serialises (w\<lparr>visibility_hidden := x\<rparr>) = serialises w"
  "queue_size (w\<lparr>visibility_hidden := x\<rparr>) = queue_size w"
  "byte_cap (w\<lparr>visibility_hidden := x\<rparr>) = byte_cap w"
  "batch_max (w\<lparr>visibility_hidden := x\<rparr>) = batch_max w"
  "configured_hook (w\<lparr>visibility_hidden := x\<rparr>) = configured_hook w"
  by (simp_all add: obs_defs)

lemma timers_update_frame [simp]:
  "running (w\<lparr>timers := x\<rparr>) = running w"
  "is_sampled (w\<lparr>timers := x\<rparr>) = is_sampled w"
  "current_seq (w\<lparr>timers := x\<rparr>) = current_seq w"
  "queued (w\<lparr>timers := x\<rparr>) = queued w"
  "queued_bytes (w\<lparr>timers := x\<rparr>) = queued_bytes w"
  "serialises (w\<lparr>timers := x\<rparr>) = serialises w"
  "queue_size (w\<lparr>timers := x\<rparr>) = queue_size w"
  "byte_cap (w\<lparr>timers := x\<rparr>) = byte_cap w"
  "batch_max (w\<lparr>timers := x\<rparr>) = batch_max w"
  "configured_hook (w\<lparr>timers := x\<rparr>) = configured_hook w"
  by (simp_all add: obs_defs)

lemma next_timer_update_frame [simp]:
  "running (w\<lparr>next_timer := x\<rparr>) = running w"
  "is_sampled (w\<lparr>next_timer := x\<rparr>) = is_sampled w"
  "current_seq (w\<lparr>next_timer := x\<rparr>) = current_seq w"
  "queued (w\<lparr>next_timer := x\<rparr>) = queued w"
  "queued_bytes (w\<lparr>next_timer := x\<rparr>) = queued_bytes w"
  "serialises (w\<lparr>next_timer := x\<rparr>) = serialises w"
  "queue_size (w\<lparr>next_timer := x\<rparr>) = queue_size w"
  "byte_cap (w\<lparr>next_timer := x\<rparr>) = byte_cap w"
  "batch_max (w\<lparr>next_timer := x\<rparr>) = batch_max w"
  "configured_hook (w\<lparr>next_timer := x\<rparr>) = configured_hook w"
  by (simp_all add: obs_defs)

lemma collectors_update_frame [simp]:
  "running (w\<lparr>collectors := x\<rparr>) = running w"
  "is_sampled (w\<lparr>collectors := x\<rparr>) = is_sampled w"
  "current_seq (w\<lparr>collectors := x\<rparr>) = current_seq w"
  "queued (w\<lparr>collectors := x\<rparr>) = queued w"
  "queued_bytes (w\<lparr>collectors := x\<rparr>) = queued_bytes w"
  "serialises (w\<lparr>collectors := x\<rparr>) = serialises w"
  "queue_size (w\<lparr>collectors := x\<rparr>) = queue_size w"
  "byte_cap (w\<lparr>collectors := x\<rparr>) = byte_cap w"
  "batch_max (w\<lparr>collectors := x\<rparr>) = batch_max w"
  "configured_hook (w\<lparr>collectors := x\<rparr>) = configured_hook w"
  by (simp_all add: obs_defs)

lemma uuid_count_update_frame [simp]:
  "running (w\<lparr>uuid_count := x\<rparr>) = running w"
  "is_sampled (w\<lparr>uuid_count := x\<rparr>) = is_sampled w"
  "current_seq (w\<lparr>uuid_count := x\<rparr>) = current_seq w"
  "queued (w\<lparr>uuid_count := x\<rparr>) = queued w"
  "queued_bytes (w\<lparr>uuid_count := x\<rparr>) = queued_bytes w"
  "serialises (w\<lparr>uuid_count := x\<rparr>) = serialises w"
  "queue_size (w\<lparr>uuid_count := x\<rparr>) = queue_size w"
  "byte_cap (w\<lparr>uuid_count := x\<rparr>) = byte_cap w"
  "batch_max (w\<lparr>uuid_count := x\<rparr>) = batch_max w"
  "configured_hook (w\<lparr>uuid_count := x\<rparr>) = configured_hook w"
  by (simp_all add: obs_defs)

lemma random_count_update_frame [simp]:
  "running (w\<lparr>random_count := x\<rparr>) = running w"
  "is_sampled (w\<lparr>random_count := x\<rparr>) = is_sampled w"
  "current_seq (w\<lparr>random_count := x\<rparr>) = current_seq w"
  "queued (w\<lparr>random_count := x\<rparr>) = queued w"
  "queued_bytes (w\<lparr>random_count := x\<rparr>) = queued_bytes w"
  "serialises (w\<lparr>random_count := x\<rparr>) = serialises w"
  "queue_size (w\<lparr>random_count := x\<rparr>) = queue_size w"
  "byte_cap (w\<lparr>random_count := x\<rparr>) = byte_cap w"
  "batch_max (w\<lparr>random_count := x\<rparr>) = batch_max w"
  "configured_hook (w\<lparr>random_count := x\<rparr>) = configured_hook w"
  by (simp_all add: obs_defs)

lemma device_item_update_frame [simp]:
  "running (w\<lparr>device_item := x\<rparr>) = running w"
  "is_sampled (w\<lparr>device_item := x\<rparr>) = is_sampled w"
  "current_seq (w\<lparr>device_item := x\<rparr>) = current_seq w"
  "queued (w\<lparr>device_item := x\<rparr>) = queued w"
  "queued_bytes (w\<lparr>device_item := x\<rparr>) = queued_bytes w"
  "serialises (w\<lparr>device_item := x\<rparr>) = serialises w"
  "queue_size (w\<lparr>device_item := x\<rparr>) = queue_size w"
  "byte_cap (w\<lparr>device_item := x\<rparr>) = byte_cap w"
  "batch_max (w\<lparr>device_item := x\<rparr>) = batch_max w"
  "configured_hook (w\<lparr>device_item := x\<rparr>) = configured_hook w"
  by (simp_all add: obs_defs)

lemma session_item_update_frame [simp]:
  "running (w\<lparr>session_item := x\<rparr>) = running w"
  "is_sampled (w\<lparr>session_item := x\<rparr>) = is_sampled w"
  "current_seq (w\<lparr>session_item := x\<rparr>) = current_seq w"
  "queued (w\<lparr>session_item := x\<rparr>) = queued w"
  "queued_bytes (w\<lparr>session_item := x\<rparr>) = queued_bytes w"
  "serialises (w\<lparr>session_item := x\<rparr>) = serialises w"
  "queue_size (w\<lparr>session_item := x\<rparr>) = queue_size w"
  "byte_cap (w\<lparr>session_item := x\<rparr>) = byte_cap w"
  "batch_max (w\<lparr>session_item := x\<rparr>) = batch_max w"
  "configured_hook (w\<lparr>session_item := x\<rparr>) = configured_hook w"
  by (simp_all add: obs_defs)

lemma trace_update_frame [simp]:
  "running (w\<lparr>trace := x\<rparr>) = running w"
  "is_sampled (w\<lparr>trace := x\<rparr>) = is_sampled w"
  "current_seq (w\<lparr>trace := x\<rparr>) = current_seq w"
  "queued (w\<lparr>trace := x\<rparr>) = queued w"
  "queued_bytes (w\<lparr>trace := x\<rparr>) = queued_bytes w"
  "serialises (w\<lparr>trace := x\<rparr>) = serialises w"
  "queue_size (w\<lparr>trace := x\<rparr>) = queue_size w"
  "byte_cap (w\<lparr>trace := x\<rparr>) = byte_cap w"
  "batch_max (w\<lparr>trace := x\<rparr>) = batch_max w"
  "configured_hook (w\<lparr>trace := x\<rparr>) = configured_hook w"
  by (simp_all add: obs_defs)

lemma listeners_update_frame [simp]:
  "running (w\<lparr>listeners := x\<rparr>) = running w"
  "is_sampled (w\<lparr>listeners := x\<rparr>) = is_sampled w"
  "current_seq (w\<lparr>listeners := x\<rparr>) = current_seq w"
  "queued (w\<lparr>listeners := x\<rparr>) = queued w"
  "queued_bytes (w\<lparr>listeners := x\<rparr>) = queued_bytes w"
  "serialises (w\<lparr>listeners := x\<rparr>) = serialises w"
  "queue_size (w\<lparr>listeners := x\<rparr>) = queue_size w"
  "byte_cap (w\<lparr>listeners := x\<rparr>) = byte_cap w"
  "batch_max (w\<lparr>listeners := x\<rparr>) = batch_max w"
  "configured_hook (w\<lparr>listeners := x\<rparr>) = configured_hook w"
  by (simp_all add: obs_defs)

lemma routeManifestReady_update_frame [simp]:
  "running (w\<lparr>routeManifestReady := x\<rparr>) = running w"
  "is_sampled (w\<lparr>routeManifestReady := x\<rparr>) = is_sampled w"
  "current_seq (w\<lparr>routeManifestReady := x\<rparr>) = current_seq w"
  "queued (w\<lparr>routeManifestReady := x\<rparr>) = queued w"
  "queued_bytes (w\<lparr>routeManifestReady := x\<rparr>) = queued_bytes w"
  "serialises (w\<lparr>routeManifestReady := x\<rparr>) = serialises w"
  "queue_size (w\<lparr>routeManifestReady := x\<rparr>) = queue_size w"
  "byte_cap (w\<lparr>routeManifestReady := x\<rparr>) = byte_cap w"
  "batch_max (w\<lparr>routeManifestReady := x\<rparr>) = batch_max w"
  "configured_hook (w\<lparr>routeManifestReady := x\<rparr>) = configured_hook w"
  by (simp_all add: obs_defs)

lemma has_sendBeacon_update_frame [simp]:
  "running (w\<lparr>has_sendBeacon := x\<rparr>) = running w"
  "is_sampled (w\<lparr>has_sendBeacon := x\<rparr>) = is_sampled w"
  "current_seq (w\<lparr>has_sendBeacon := x\<rparr>) = current_seq w"
  "queued (w\<lparr>has_sendBeacon := x\<rparr>) = queued w"
  "queued_bytes (w\<lparr>has_sendBeacon := x\<rparr>) = queued_bytes w"
  "serialises (w\<lparr>has_sendBeacon := x\<rparr>) = serialises w"
  "queue_size (w\<lparr>has_sendBeacon := x\<rparr>) = queue_size w"
  "byte_cap (w\<lparr>has_sendBeacon := x\<rparr>) = byte_cap w"
  "batch_max (w\<lparr>has_sendBeacon := x\<rparr>) = batch_max w"
  "configured_hook (w\<lparr>has_sendBeacon := x\<rparr>) = configured_hook w"
  by (simp_all add: obs_defs)

lemma sendBeacon_throws_update_frame [simp]:
  "running (w\<lparr>sendBeacon_throws := x\<rparr>) = running w"
  "is_sampled (w\<lparr>sendBeacon_throws := x\<rparr>) = is_sampled w"
  "current_seq (w\<lparr>sendBeacon_throws := x\<rparr>) = current_seq w"
  "queued (w\<lparr>sendBeacon_throws := x\<rparr>) = queued w"
  "queued_bytes (w\<lparr>sendBeacon_throws := x\<rparr>) = queued_bytes w"
  "serialises (w\<lparr>sendBeacon_throws := x\<rparr>) = serialises w"
  "queue_size (w\<lparr>sendBeacon_throws := x\<rparr>) = queue_size w"
  "byte_cap (w\<lparr>sendBeacon_throws := x\<rparr>) = byte_cap w"
  "batch_max (w\<lparr>sendBeacon_throws := x\<rparr>) = batch_max w"
  "configured_hook (w\<lparr>sendBeacon_throws := x\<rparr>) = configured_hook w"
  by (simp_all add: obs_defs)

lemma getItem_throws_update_frame [simp]:
  "running (w\<lparr>getItem_throws := x\<rparr>) = running w"
  "is_sampled (w\<lparr>getItem_throws := x\<rparr>) = is_sampled w"
  "current_seq (w\<lparr>getItem_throws := x\<rparr>) = current_seq w"
  "queued (w\<lparr>getItem_throws := x\<rparr>) = queued w"
  "queued_bytes (w\<lparr>getItem_throws := x\<rparr>) = queued_bytes w"
  "serialises (w\<lparr>getItem_throws := x\<rparr>) = serialises w"
  "queue_size (w\<lparr>getItem_throws := x\<rparr>) = queue_size w"
  "byte_cap (w\<lparr>getItem_throws := x\<rparr>) = byte_cap w"
  "batch_max (w\<lparr>getItem_throws := x\<rparr>) = batch_max w"
  "configured_hook (w\<lparr>getItem_throws := x\<rparr>) = configured_hook w"
  by (simp_all add: obs_defs)

lemma setItem_throws_update_frame [simp]:
  "running (w\<lparr>setItem_throws := x\<rparr>) = running w"
  "is_sampled (w\<lparr>setItem_throws := x\<rparr>) = is_sampled w"
  "current_seq (w\<lparr>setItem_throws := x\<rparr>) = current_seq w"
  "queued (w\<lparr>setItem_throws := x\<rparr>) = queued w"
  "queued_bytes (w\<lparr>setItem_throws := x\<rparr>) = queued_bytes w"
  "serialises (w\<lparr>setItem_throws := x\<rparr>) = serialises w"
  "queue_size (w\<lparr>setItem_throws := x\<rparr>) = queue_size w"
  "byte_cap (w\<lparr>setItem_throws := x\<rparr>) = byte_cap w"
  "batch_max (w\<lparr>setItem_throws := x\<rparr>) = batch_max w"
  "configured_hook (w\<lparr>setItem_throws := x\<rparr>) = configured_hook w"
  by (simp_all add: obs_defs)

lemma log_effect_frame [simp]:
  "running (log_effect e w) = running w"
  "is_sampled (log_effect e w) = is_sampled w"
  "current_seq (log_effect e w) = current_seq w"
  "queued (log_effect e w) = queued w"
  "queued_bytes (log_effect e w) = queued_bytes w"
  "serialises (log_effect e w) = serialises w"
  "queue_size (log_effect e w) = queue_size w"
  "byte_cap (log_effect e w) = byte_cap w"
  "batch_max (log_effect e w) = batch_max w"
  "configured_hook (log_effect e w) = configured_hook w"
  "blob_size (log_effect e w) = blob_size w"
  "listeners (log_effect e w) = listeners w"
  "routeManifestReady (log_effect e w) = routeManifestReady w"
  by (simp_all add: log_effect_def obs_defs split: option.splits)

lemma push_unsubscriber_frame [simp]:
  "running (push_unsubscriber u w) = running w"
  "is_sampled (push_unsubscriber u w) = is_sampled w"
  "current_seq (push_unsubscriber u w) = current_seq w"
  "queued (push_unsubscriber u w) = queued w"
  "queued_bytes (push_unsubscriber u w) = queued_bytes w"
  "serialises (push_unsubscriber u w) = serialises w"
  "queue_size (push_unsubscriber u w) = queue_size w"
  "byte_cap (push_unsubscriber u w) = byte_cap w"
  "batch_max (push_unsubscriber u w) = batch_max w"
  "configured_hook (push_unsubscriber u w) = configured_hook w"
  "trace (push_unsubscriber u w) = trace w"
  "blob_size (push_unsubscriber u w) = blob_size w"
  "listeners (push_unsubscriber u w) = listeners w"
  "routeManifestReady (push_unsubscriber u w) = routeManifestReady w"
  by (simp_all add: push_unsubscriber_def obs_defs split: option.splits)

lemma addEventListener_frame [simp]:
  "running (addEventListener evt h w) = running w"
  "is_sampled (addEventListener evt h w) = is_sampled w"
  "current_seq (addEventListener evt h w) = current_seq w"
  "queued (addEventListener evt h w) = queued w"
  "queued_bytes (addEventListener evt h w) = queued_bytes w"
  "serialises (addEventListener evt h w) = serialises w"
  "queue_size (addEventListener evt h w) = queue_size w"
  "byte_cap (addEventListener evt h w) = byte_cap w"
  "batch_max (addEventListener evt h w) = batch_max w"
  "configured_hook (addEventListener evt h w) = configured_hook w"
  "trace (addEventListener evt h w) = trace w"
  "blob_size (addEventListener evt h w) = blob_size w"
  "routeManifestReady (addEventListener evt h w) = routeManifestReady w"
  by (simp_all add: addEventListener_def obs_defs split: option.splits)

lemma clearInterval_frame [simp]:
  "running (clearInterval t w) = running w"
  "is_sampled (clearInterval t w) = is_sampled w"
  "current_seq (clearInterval t w) = current_seq w"
  "queued (clearInterval t w) = queued w"
  "queued_bytes (clearInterval t w) = queued_bytes w"
  "serialises (clearInterval t w) = serialises w"
  "queue_size (clearInterval t w) = queue_size w"
  "byte_cap (clearInterval t w) = byte_cap w"
  "batch_max (clearInterval t w) = batch_max w"
  "configured_hook (clearInterval t w) = configured_hook w"
  "trace (clearInterval t w) = trace w"
  "blob_size (clearInterval t w) = blob_size w"
  "listeners (clearInterval t w) = listeners w"
  "routeManifestReady (clearInterval t w) = routeManifestReady w"
  by (simp_all add: clearInterval_def obs_defs split: option.splits)

lemma setTimer_frame [simp]:
  "running (snd (setTimer task w)) = running w"
  "is_sampled (snd (setTimer task w)) = is_sampled w"
  "current_seq (snd (setTimer task w)) = current_seq w"
  "queued (snd (setTimer task w)) = queued w"
  "queued_bytes (snd (setTimer task w)) = queued_bytes w"
  "serialises (snd (setTimer task w)) = serialises w"
  "queue_size (snd (setTimer task w)) = queue_size w"
  "byte_cap (snd (setTimer task w)) = byte_cap w"
  "batch_max (snd (setTimer task w)) = batch_max w"
  "configured_hook (snd (setTimer task w)) = configured_hook w"
  "trace (snd (setTimer task w)) = trace w"
  "blob_size (snd (setTimer task w)) = blob_size w"
  "listeners (snd (setTimer task w)) = listeners w"
  "routeManifestReady (snd (setTimer task w)) = routeManifestReady w"
  by (simp_all add: setTimer_def obs_defs split: option.splits)

lemma attach_frame [simp]:
  "running (attach c w) = running w"
  "is_sampled (attach c w) = is_sampled w"
  "current_seq (attach c w) = current_seq w"
  "queued (attach c w) = queued w"
  "queued_bytes (attach c w) = queued_bytes w"
  "serialises (attach c w) = serialises w"
  "queue_size (attach c w) = queue_size w"
  "byte_cap (attach c w) = byte_cap w"
  "batch_max (attach c w) = batch_max w"
  "configured_hook (attach c w) = configured_hook w"
  "trace (attach c w) = trace w"
  "blob_size (attach c w) = blob_size w"
  "listeners (attach c w) = listeners w"
  "routeManifestReady (attach c w) = routeManifestReady w"
  by (simp_all add: attach_def Let_def split: option.splits)

lemma attach_collectors_frame [simp]:
  "running (attach_collectors cfg w) = running w"
  "is_sampled (attach_collectors cfg w) = is_sampled w"
  "current_seq (attach_collectors cfg w) = current_seq w"
  "queued (attach_collectors cfg w) = queued w"
  "queued_bytes (attach_collectors cfg w) = queued_bytes w"
  "serialises (attach_collectors cfg w) = serialises w"
  "queue_size (attach_collectors cfg w) = queue_size w"
  "byte_cap (attach_collectors cfg w) = byte_cap w"
  "batch_max (attach_collectors cfg w) = batch_max w"
  "configured_hook (attach_collectors cfg w) = configured_hook w"
  "trace (attach_collectors cfg w) = trace w"
  "blob_size (attach_collectors cfg w) = blob_size w"
  "listeners (attach_collectors cfg w) = listeners w"
  "routeManifestReady (attach_collectors cfg w) = routeManifestReady w"
  by (simp_all add: attach_collectors_def Let_def split: option.splits)

lemma setupLifecycle_frame [simp]:
  "running (setupLifecycle w) = running w"
  "is_sampled (setupLifecycle w) = is_sampled w"
  "current_seq (setupLifecycle w) = current_seq w"
  "queued (setupLifecycle w) = queued w"
  "queued_bytes (setupLifecycle w) = queued_bytes w"
  "serialises (setupLifecycle w) = serialises w"
  "queue_size (setupLifecycle w) = queue_size w"
  "byte_cap (setupLifecycle w) = byte_cap w"
  "batch_max (setupLifecycle w) = batch_max w"
  "configured_hook (setupLifecycle w) = configured_hook w"
  "trace (setupLifecycle w) = trace w"
  "blob_size (setupLifecycle w) = blob_size w"
  "routeManifestReady (setupLifecycle w) = routeManifestReady w"
  by (simp_all add: setupLifecycle_def activity_events_def Let_def split: option.splits)

lemma scheduleFlush_frame [simp]:
  "running (scheduleFlush w) = running w"
  "is_sampled (scheduleFlush w) = is_sampled w"
  "current_seq (scheduleFlush w) = current_seq w"
  "queued (scheduleFlush w) = queued w"
  "queued_bytes (scheduleFlush w) = queued_bytes w"
  "serialises (scheduleFlush w) = serialises w"
  "queue_size (scheduleFlush w) = queue_size w"
  "byte_cap (scheduleFlush w) = byte_cap w"
  "batch_max (scheduleFlush w) = batch_max w"
  "configured_hook (scheduleFlush w) = configured_hook w"
  "trace (scheduleFlush w) = trace w"
  "blob_size (scheduleFlush w) = blob_size w"
  "listeners (scheduleFlush w) = listeners w"
  "routeManifestReady (scheduleFlush w) = routeManifestReady w"
  by (simp_all add: scheduleFlush_def setTimer_def clearInterval_def Let_def obs_defs split: option.splits)

lemma setItem_session_frame [simp]:
  "running (setItem_session v w) = running w"
  "is_sampled (setItem_session v w) = is_sampled w"
  "current_seq (setItem_session v w) = current_seq w"
  "queued (setItem_session v w) = queued w"
  "queued_bytes (setItem_session v w) = queued_bytes w"
  "serialises (setItem_session v w) = serialises w"
  "queue_size (setItem_session v w) = queue_size w"
  "byte_cap (setItem_session v w) = byte_cap w"
  "batch_max (setItem_session v w) = batch_max w"
  "configured_hook (setItem_session v w) = configured_hook w"
  "blob_size (setItem_session v w) = blob_size w"
  "listeners (setItem_session v w) = listeners w"
  "routeManifestReady (setItem_session v w) = routeManifestReady w"
  by (simp_all add: setItem_session_def split: option.splits)

lemma setItem_device_frame [simp]:
  "running (setItem_device v w) = running w"
  "is_sampled (setItem_device v w) = is_sampled w"
  "current_seq (setItem_device v w) = current_seq w"
  "queued (setItem_device v w) = queued w"
  "queued_bytes (setItem_device v w) = queued_bytes w"
  "serialises (setItem_device v w) = serialises w"
  "queue_size (setItem_device v w) = queue_size w"
  "byte_cap (setItem_device v w) = byte_cap w"
  "batch_max (setItem_device v w) = batch_max w"
  "configured_hook (setItem_device v w) = configured_hook w"
  "blob_size (setItem_device v w) = blob_size w"
  "listeners (setItem_device v w) = listeners w"
  "routeManifestReady (setItem_device v w) = routeManifestReady w"
  by (simp_all add: setItem_device_def split: option.splits)

lemma refreshSessionActivity_frame [simp]:
  "running (refreshSessionActivity w) = running w"
  "is_sampled (refreshSessionActivity w) = is_sampled w"
  "current_seq (refreshSessionActivity w) = current_seq w"
  "queued (refreshSessionActivity w) = queued w"
  "queued_bytes (refreshSessionActivity w) = queued_bytes w"
  "serialises (refreshSessionActivity w) = serialises w"
  "queue_size (refreshSessionActivity w) = queue_size w"
  "byte_cap (refreshSessionActivity w) = byte_cap w"
  "batch_max (refreshSessionActivity w) = batch_max w"
  "configured_hook (refreshSessionActivity w) = configured_hook w"
  "blob_size (refreshSessionActivity w) = blob_size w"
  "listeners (refreshSessionActivity w) = listeners w"
  "routeManifestReady (refreshSessionActivity w) = routeManifestReady w"
  by (simp_all add: refreshSessionActivity_def split: option.splits Stored.splits)

lemma identify_frame [simp]:
  "running (identify uid traits w) = running w"
  "is_sampled (identify uid traits w) = is_sampled w"
  "current_seq (identify uid traits w) = current_seq w"
  "queued (identify uid traits w) = queued w"
  "queued_bytes (identify uid traits w) = queued_bytes w"
  "serialises (identify uid traits w) = serialises w"
  "queue_size (identify uid traits w) = queue_size w"
  "byte_cap (identify uid traits w) = byte_cap w"
  "batch_max (identify uid traits w) = batch_max w"
  "configured_hook (identify uid traits w) = configured_hook w"
  "trace (identify uid traits w) = trace w"
  "blob_size (identify uid traits w) = blob_size w"
  "listeners (identify uid traits w) = listeners w"
  "routeManifestReady (identify uid traits w) = routeManifestReady w"
  by (simp_all add: identify_def obs_defs split: option.splits)

lemma setContext_frame [simp]:
  "running (setContext extra w) = running w"
  "is_sampled (setContext extra w) = is_sampled w"
  "current_seq (setContext extra w) = current_seq w"
  "queued (setContext extra w) = queued w"
  "queued_bytes (setContext extra w) = queued_bytes w"
  "serialises (setContext extra w) = serialises w"
  "queue_size (setContext extra w) = queue_size w"
  "byte_cap (setContext extra w) = byte_cap w"
  "batch_max (setContext extra w) = batch_max w"
  "configured_hook (setContext extra w) = configured_hook w"
  "trace (setContext extra w) = trace w"
  "blob_size (setContext extra w) = blob_size w"
  "listeners (setContext extra w) = listeners w"
  "routeManifestReady (setContext extra w) = routeManifestReady w"
  by (simp_all add: setContext_def obs_defs split: option.splits)

lemma setRouteManifest_frame [simp]:
  "running (setRouteManifest routes w) = running w"
  "is_sampled (setRouteManifest routes w) = is_sampled w"
  "current_seq (setRouteManifest routes w) = current_seq w"
  "queued (setRouteManifest routes w) = queued w"
  "queued_bytes (setRouteManifest routes w) = queued_bytes w"
  "serialises (setRouteManifest routes w) = serialises w"
  "queue_size (setRouteManifest routes w) = queue_size w"
  "byte_cap (setRouteManifest routes w) = byte_cap w"
  "batch_max (setRouteManifest routes w) = batch_max w"
  "configured_hook (setRouteManifest routes w) = configured_hook w"
  "trace (setRouteManifest routes w) = trace w"
  "blob_size (setRouteManifest routes w) = blob_size w"
  "listeners (setRouteManifest routes w) = listeners w"
  by (simp_all add: setRouteManifest_def obs_defs split: option.splits)

lemma setPathNormalizer_frame [simp]:
  "running (setPathNormalizer fn w) = running w"
  "is_sampled (setPathNormalizer fn w) = is_sampled w"
  "current_seq (setPathNormalizer fn w) = current_seq w"
  "queued (setPathNormalizer fn w) = queued w"
  "queued_bytes (setPathNormalizer fn w) = queued_bytes w"
  "serialises (setPathNormalizer fn w) = serialises w"
  "queue_size (setPathNormalizer fn w) = queue_size w"
  "byte_cap (setPathNormalizer fn w) = byte_cap w"
  "batch_max (setPathNormalizer fn w) = batch_max w"
  "configured_hook (setPathNormalizer fn w) = configured_hook w"
  "trace (setPathNormalizer fn w) = trace w"
  "blob_size (setPathNormalizer fn w) = blob_size w"
  "listeners (setPathNormalizer fn w) = listeners w"
  "routeManifestReady (setPathNormalizer fn w) = routeManifestReady w"
  by (simp_all add: setPathNormalizer_def obs_defs split: option.splits)

lemma uuid_frame [simp]:
  "running (snd (uuid w)) = running w"
  "is_sampled (snd (uuid w)) = is_sampled w"
  "current_seq (snd (uuid w)) = current_seq w"
  "queued (snd (uuid w)) = queued w"
  "queued_bytes (snd (uuid w)) = queued_bytes w"
  "serialises (snd (uuid w)) = serialises w"
  "queue_size (snd (uuid w)) = queue_size w"
  "byte_cap (snd (uuid w)) = byte_cap w"
  "batch_max (snd (uuid w)) = batch_max w"
  "configured_hook (snd (uuid w)) = configured_hook w"
  "trace (snd (uuid w)) = trace w"
  "blob_size (snd (uuid w)) = blob_size w"
  "listeners (snd (uuid w)) = listeners w"
  "routeManifestReady (snd (uuid w)) = routeManifestReady w"
  by (simp_all add: uuid_def split: option.splits)

lemma math_random_frame [simp]:
  "running (snd (math_random w)) = running w"
  "is_sampled (snd (math_random w)) = is_sampled w"
  "current_seq (snd (math_random w)) = current_seq w"
  "queued (snd (math_random w)) = queued w"
  "queued_bytes (snd (math_random w)) = queued_bytes w"
  "serialises (snd (math_random w)) = serialises w"
  "queue_size (snd (math_random w)) = queue_size w"
  "byte_cap (snd (math_random w)) = byte_cap w"
  "batch_max (snd (math_random w)) = batch_max w"
  "configured_hook (snd (math_random w)) = configured_hook w"
  "trace (snd (math_random w)) = trace w"
  "blob_size (snd (math_random w)) = blob_size w"
  "listeners (snd (math_random w)) = listeners w"
  "routeManifestReady (snd (math_random w)) = routeManifestReady w"
  by (simp_all add: math_random_def split: option.splits)

subsection \<open>Queue and transport\<close>


lemma sent_payloads_append [simp]: "sent_payloads (xs @ ys) = sent_payloads xs @ sent_payloads ys"
  by (induction xs rule: sent_payloads.induct) simp_all

lemma transport_attempts_append [simp]:
  "transport_attempts (xs @ ys) = transport_attempts xs @ transport_attempts ys"
  by (induction xs rule: transport_attempts.induct) simp_all

lemma at_most_mono: "at_most y c \<Longrightarrow> x \<le> y \<Longrightarrow> at_most x c"
  by (cases c) (simp_all add: order_trans[OF of_int_le_iff[THEN iffD2]])

lemma safeJsonSize_cap: "safeJsonSize x w = at_most x (byte_cap w)"
  by (simp add: safeJsonSize_def byte_cap_def)

lemma serialises_empty: "queued w = [] \<Longrightarrow> serialises w"
  by (simp add: serialises_def)

lemma queue_size_empty: "queued w = [] \<Longrightarrow> queue_size w = 0"
  by (simp add: queue_size_def)

lemma queue_size_nonneg: "0 \<le> queue_size w"
  unfolding queue_size_def by (rule sum_list_nonneg) (auto split: option.splits)

lemma nextSeq_frame [simp]:
  "running (snd (nextSeq w)) = running w"
  "is_sampled (snd (nextSeq w)) = is_sampled w"
  "queued (snd (nextSeq w)) = queued w"
  "queued_bytes (snd (nextSeq w)) = queued_bytes w"
  "serialises (snd (nextSeq w)) = serialises w"
  "queue_size (snd (nextSeq w)) = queue_size w"
  "byte_cap (snd (nextSeq w)) = byte_cap w"
  "batch_max (snd (nextSeq w)) = batch_max w"
  "configured_hook (snd (nextSeq w)) = configured_hook w"
  "trace (snd (nextSeq w)) = trace w"
  "blob_size (snd (nextSeq w)) = blob_size w"
  "listeners (snd (nextSeq w)) = listeners w"
  "routeManifestReady (snd (nextSeq w)) = routeManifestReady w"
  by (simp_all add: nextSeq_def obs_defs split: option.splits)

lemma nextSeq_seq:
  "current_seq (snd (nextSeq w)) = (if running w then current_seq w + 1 else 0)"
  "fst (nextSeq w) = current_seq (snd (nextSeq w))"
  by (simp_all add: nextSeq_def obs_defs split: option.splits)

text \<open>\<^verbatim>\<open>flushQueue\<close> returns exactly when every queued event serialises; otherwise the
  exception leaves it with nothing changed.\<close>

lemma flushQueue_idle: "queued w = [] \<Longrightarrow> flushQueue b w = Returns w"
  by (cases "current w") (simp_all add: flushQueue_def queued_def)

lemma flushQueue_throws: "\<not> serialises w \<Longrightarrow> flushQueue b w = Throws SerializeError w"
  by (cases "current w")
     (auto simp: flushQueue_def serialises_def queued_def list_ex_iff list_all_iff)

lemma flushQueue_returns: "returns (flushQueue b w) = serialises w"
  by (cases "current w")
     (auto simp: flushQueue_def serialises_def queued_def list_ex_iff list_all_iff Let_def)

lemma flushQueue_frame [simp]:
  "running (world_of (flushQueue b w)) = running w"
  "is_sampled (world_of (flushQueue b w)) = is_sampled w"
  "current_seq (world_of (flushQueue b w)) = current_seq w"
  "byte_cap (world_of (flushQueue b w)) = byte_cap w"
  "batch_max (world_of (flushQueue b w)) = batch_max w"
  "configured_hook (world_of (flushQueue b w)) = configured_hook w"
  "blob_size (world_of (flushQueue b w)) = blob_size w"
  "listeners (world_of (flushQueue b w)) = listeners w"
  "routeManifestReady (world_of (flushQueue b w)) = routeManifestReady w"
  by (simp_all add: flushQueue_def queued_def queued_bytes_def byte_cap_def batch_max_def
      current_seq_def configured_hook_def is_sampled_def running_def log_effect_def Let_def
      split: option.splits)

lemma flushQueue_queued:
  "queued (world_of (flushQueue b w)) = (if serialises w then [] else queued w)"
  by (cases "current w")
     (auto simp: flushQueue_def serialises_def queued_def log_effect_def list_ex_iff
        list_all_iff Let_def)

lemma flushQueue_queued_bytes:
  "queued_bytes (world_of (flushQueue b w)) =
     (if serialises w \<and> queued w \<noteq> [] then 0 else queued_bytes w)"
  by (cases "current w")
     (auto simp: flushQueue_def serialises_def queued_def queued_bytes_def log_effect_def
        list_ex_iff list_all_iff Let_def)

lemma flushQueue_trace:
  "\<exists>es. trace (world_of (flushQueue b w)) = trace w @ es \<and>
        concat (map pl_events (sent_payloads es)) = (if serialises w then queued w else [])"
  by (cases "current w")
     (auto simp: flushQueue_def serialises_def queued_def log_effect_def list_ex_iff
        list_all_iff Let_def)

lemma flushQueue_exact: "counter_exact w \<Longrightarrow> counter_exact (world_of (flushQueue b w))"
  by (simp add: counter_exact_def flushQueue_queued flushQueue_queued_bytes serialises_empty
      queue_size_empty)

lemma flushQueue_capped: "counter_capped w \<Longrightarrow> counter_capped (world_of (flushQueue b w))"
  by (simp add: counter_capped_def flushQueue_queued flushQueue_queued_bytes)

lemma push_event_frame [simp]:
  "running (push_event e b w) = running w"
  "is_sampled (push_event e b w) = is_sampled w"
  "current_seq (push_event e b w) = current_seq w"
  "byte_cap (push_event e b w) = byte_cap w"
  "batch_max (push_event e b w) = batch_max w"
  "configured_hook (push_event e b w) = configured_hook w"
  "trace (push_event e b w) = trace w"
  "blob_size (push_event e b w) = blob_size w"
  "listeners (push_event e b w) = listeners w"
  "routeManifestReady (push_event e b w) = routeManifestReady w"
  by (cases "current w";
      simp add: push_event_def queued_def queued_bytes_def byte_cap_def batch_max_def
        current_seq_def configured_hook_def is_sampled_def running_def)+

lemma push_event_queued:
  "running w \<Longrightarrow> queued (push_event e b w) = queued w @ [e]"
  "running w \<Longrightarrow> queued_bytes (push_event e b w) = queued_bytes w + int b"
  by (auto simp: push_event_def queued_def queued_bytes_def running_def split: option.splits)

lemma push_event_sizes:
  assumes "running w" "blob_size w e = Some b"
  shows "serialises (push_event e b w) = serialises w"
    and "queue_size (push_event e b w) = queue_size w + int b"
  using assms by (simp_all add: serialises_def queue_size_def push_event_queued)

lemma is_sampled_running: "is_sampled w \<Longrightarrow> running w"
  by (simp add: is_sampled_def running_def split: option.splits)

lemma enqueue_idle: "\<not> is_sampled w \<Longrightarrow> enqueue e w = Returns w"
  by (cases "current w") (simp_all add: enqueue_def is_sampled_def)

lemma enqueue_unserialisable:
  "is_sampled w \<Longrightarrow> blob_size w e = None \<Longrightarrow> enqueue e w = Throws SerializeError w"
  by (cases "current w") (simp_all add: enqueue_def is_sampled_def)

lemma enqueue_rest_eq:
  assumes "running v"
  shows "(case current v of
            None \<Rightarrow> Returns v
          | Some s1 \<Rightarrow>
              if \<not> safeJsonSize (queueBytes s1 + int b) v then Returns v
              else
                let s2 = s1\<lparr>queue := queue s1 @ [e], queueBytes := queueBytes s1 + int b\<rparr>;
                    w2 = v\<lparr>current := Some s2\<rparr>
                in if batchMax (config s2) \<le> int (length (queue s2))
                   then flushQueue False w2
                   else Returns w2) = enqueue_rest e b v"
proof -
  obtain s where s: "current v = Some s" using assms by (auto simp: running_def)
  show ?thesis
    by (simp add: s enqueue_rest_def safeJsonSize_cap push_event_def queued_def
        queued_bytes_def byte_cap_def batch_max_def Let_def)
qed

lemma and_then_cong_running:
  assumes "\<And>v. r = Returns v \<Longrightarrow> f v = g v"
  shows "and_then r f = and_then r g"
  using assms by (cases r) simp_all

lemma enqueue_unfold:
  assumes "is_sampled w" "blob_size w e = Some b"
  shows "enqueue e w =
    and_then (if at_most (queued_bytes w + int b) (byte_cap w)
              then Returns w else flushQueue False w)
      (enqueue_rest e b)"
proof -
  obtain s where s: "current w = Some s" "sampled s"
    using assms(1) by (auto simp: is_sampled_def split: option.splits)
  have run: "running w" using s by (simp add: running_def)
  let ?first = "if at_most (queued_bytes w + int b) (byte_cap w)
                then Returns w else flushQueue False w"
  have r: "running v" if "?first = Returns v" for v
  proof -
    have "running (world_of ?first)" using run by (simp split: if_splits)
    then show ?thesis using that by simp
  qed
  have q: "queueBytes s = queued_bytes w" using s by (simp add: queued_bytes_def)
  have "enqueue e w =
      and_then ?first
        (\<lambda>w1. case current w1 of
            None \<Rightarrow> Returns w1
          | Some s1 \<Rightarrow>
              if \<not> safeJsonSize (queueBytes s1 + int b) w1 then Returns w1
              else
                let s2 = s1\<lparr>queue := queue s1 @ [e], queueBytes := queueBytes s1 + int b\<rparr>;
                    w2 = w1\<lparr>current := Some s2\<rparr>
                in if batchMax (config s2) \<le> int (length (queue s2))
                   then flushQueue False w2
                   else Returns w2)"
    using s assms(2) by (simp add: enqueue_def safeJsonSize_cap q)
  also have "\<dots> = and_then ?first (enqueue_rest e b)"
    by (rule and_then_cong_running) (simp add: enqueue_rest_eq[OF r])
  finally show ?thesis .
qed

text \<open>The cases of an \<^verbatim>\<open>enqueue\<close> of a serialisable event in a sampled pipeline.\<close>

lemma enqueue_over_stuck:
  assumes "is_sampled w" "blob_size w e = Some b"
    and "\<not> at_most (queued_bytes w + int b) (byte_cap w)" and "\<not> serialises w"
  shows "enqueue e w = Throws SerializeError w"
  using assms(3,4) by (simp add: enqueue_unfold[OF assms(1,2)] flushQueue_throws)

lemma enqueue_over:
  assumes "is_sampled w" "blob_size w e = Some b"
    and "\<not> at_most (queued_bytes w + int b) (byte_cap w)" and "serialises w"
  shows "enqueue e w = enqueue_rest e b (world_of (flushQueue False w))"
proof -
  have "returns (flushQueue False w)" using assms(4) by (simp add: flushQueue_returns)
  then obtain v where v: "flushQueue False w = Returns v" by (cases "flushQueue False w") auto
  show ?thesis using assms(3) by (simp add: enqueue_unfold[OF assms(1,2)] v)
qed

lemma enqueue_rest_frame [simp]:
  "running (world_of (enqueue_rest e b w)) = running w"
  "is_sampled (world_of (enqueue_rest e b w)) = is_sampled w"
  "current_seq (world_of (enqueue_rest e b w)) = current_seq w"
  "byte_cap (world_of (enqueue_rest e b w)) = byte_cap w"
  "batch_max (world_of (enqueue_rest e b w)) = batch_max w"
  "configured_hook (world_of (enqueue_rest e b w)) = configured_hook w"
  "blob_size (world_of (enqueue_rest e b w)) = blob_size w"
  "listeners (world_of (enqueue_rest e b w)) = listeners w"
  "routeManifestReady (world_of (enqueue_rest e b w)) = routeManifestReady w"
  by (simp_all add: enqueue_rest_def)

lemma enqueue_cases:
  obtains (idle) "\<not> is_sampled w" "enqueue e w = Returns w"
  | (unserialisable) "is_sampled w" "blob_size w e = None" "enqueue e w = Throws SerializeError w"
  | (fits) b where "is_sampled w" "blob_size w e = Some b"
      "at_most (queued_bytes w + int b) (byte_cap w)" "enqueue e w = enqueue_rest e b w"
  | (stuck) b where "is_sampled w" "blob_size w e = Some b"
      "\<not> at_most (queued_bytes w + int b) (byte_cap w)" "\<not> serialises w"
      "enqueue e w = Throws SerializeError w"
  | (over) b where "is_sampled w" "blob_size w e = Some b"
      "\<not> at_most (queued_bytes w + int b) (byte_cap w)" "serialises w"
      "enqueue e w = enqueue_rest e b (world_of (flushQueue False w))"
proof (cases "is_sampled w")
  case False
  then show ?thesis using idle by (simp add: enqueue_idle)
next
  case True
  show ?thesis
  proof (cases "blob_size w e")
    case None
    then show ?thesis using unserialisable True by (simp add: enqueue_unserialisable)
  next
    case (Some b)
    show ?thesis
    proof (cases "at_most (queued_bytes w + int b) (byte_cap w)")
      case fit: True
      have "enqueue e w = enqueue_rest e b w"
        using fit by (simp add: enqueue_unfold[OF True Some])
      then show ?thesis using fits True Some fit by blast
    next
      case nofit: False
      show ?thesis
      proof (cases "serialises w")
        case ok: True
        show ?thesis using over True Some nofit ok enqueue_over[OF True Some nofit ok] by blast
      next
        case bad: False
        show ?thesis
          using stuck True Some nofit bad enqueue_over_stuck[OF True Some nofit bad] by blast
      qed
    qed
  qed
qed

lemma enqueue_frame [simp]:
  "running (world_of (enqueue e w)) = running w"
  "is_sampled (world_of (enqueue e w)) = is_sampled w"
  "current_seq (world_of (enqueue e w)) = current_seq w"
  "byte_cap (world_of (enqueue e w)) = byte_cap w"
  "batch_max (world_of (enqueue e w)) = batch_max w"
  "configured_hook (world_of (enqueue e w)) = configured_hook w"
  "blob_size (world_of (enqueue e w)) = blob_size w"
  "listeners (world_of (enqueue e w)) = listeners w"
  "routeManifestReady (world_of (enqueue e w)) = routeManifestReady w"
  by (rule enqueue_cases[of w e]; simp)+

text \<open>The lines after the first flush keep the counter within the cap; they keep it
  exact when the event serialises to the size that is counted.\<close>
lemma enqueue_rest_capped:
  assumes "counter_capped w" "running w"
  shows "counter_capped (world_of (enqueue_rest e b w))"
proof (cases "at_most (queued_bytes w + int b) (byte_cap w)")
  case False
  then show ?thesis using assms(1) by (simp add: enqueue_rest_def)
next
  case True
  have "counter_capped (push_event e b w)"
    using assms(2) True by (simp add: counter_capped_def push_event_queued)
  then show ?thesis using True by (simp add: enqueue_rest_def flushQueue_capped)
qed

lemma enqueue_capped: "counter_capped w \<Longrightarrow> counter_capped (world_of (enqueue e w))"
proof (rule enqueue_cases[of w e])
  fix b
  assume wc: "counter_capped w" and s: "is_sampled w"
    and e: "enqueue e w = enqueue_rest e b w"
  show "counter_capped (world_of (enqueue e w))"
    unfolding e by (rule enqueue_rest_capped[OF wc is_sampled_running[OF s]])
next
  fix b
  assume wc: "counter_capped w" and s: "is_sampled w"
    and e: "enqueue e w = enqueue_rest e b (world_of (flushQueue False w))"
  have "counter_capped (world_of (flushQueue False w))" using wc by (rule flushQueue_capped)
  moreover have "running (world_of (flushQueue False w))"
    using is_sampled_running[OF s] by simp
  ultimately show "counter_capped (world_of (enqueue e w))"
    unfolding e by (rule enqueue_rest_capped)
qed simp_all

lemma enqueue_rest_exact:
  assumes "counter_exact w" "running w" "blob_size w e = Some b"
  shows "counter_exact (world_of (enqueue_rest e b w))"
proof (cases "at_most (queued_bytes w + int b) (byte_cap w)")
  case False
  then show ?thesis using assms(1) by (simp add: enqueue_rest_def)
next
  case True
  let ?p = "push_event e b w"
  have p: "counter_exact ?p"
    using assms True
    by (simp add: counter_exact_def push_event_queued push_event_sizes)
  show ?thesis using True p by (simp add: enqueue_rest_def flushQueue_exact)
qed

lemma enqueue_exact: "counter_exact w \<Longrightarrow> counter_exact (world_of (enqueue e w))"
proof (rule enqueue_cases[of w e])
  fix b
  assume wc: "counter_exact w" and s: "is_sampled w" and b: "blob_size w e = Some b"
    and e: "enqueue e w = enqueue_rest e b w"
  show "counter_exact (world_of (enqueue e w))"
    unfolding e by (rule enqueue_rest_exact[OF wc is_sampled_running[OF s] b])
next
  fix b
  assume wc: "counter_exact w" and s: "is_sampled w" and b: "blob_size w e = Some b"
    and e: "enqueue e w = enqueue_rest e b (world_of (flushQueue False w))"
  have "counter_exact (world_of (flushQueue False w))" using wc by (rule flushQueue_exact)
  moreover have "running (world_of (flushQueue False w))"
    using is_sampled_running[OF s] by simp
  moreover have "blob_size (world_of (flushQueue False w)) e = Some b" using b by simp
  ultimately show "counter_exact (world_of (enqueue e w))"
    unfolding e by (rule enqueue_rest_exact)
qed simp_all

subsection \<open>Dispatch and the tracking calls\<close>


lemma world_of_mark:
  "world_of (and_then r (\<lambda>v. Returns (g v))) = (if returns r then g (world_of r) else world_of r)"
  by (cases r) simp_all

lemma returns_mark: "returns (and_then r (\<lambda>v. Returns (g v))) = returns r"
  by (cases r) simp_all

lemma dispatch_idle: "\<not> running w \<Longrightarrow> dispatch e w = Returns w"
  by (simp add: dispatch_def running_def)

lemma dispatch_unfold:
  "running w \<Longrightarrow> dispatch e w =
     (case configured_hook w of
        None \<Rightarrow> enqueue e w
      | Some h \<Rightarrow>
          (case h e of
             HookThrows \<Rightarrow> Throws HookError w
           | HookReturns None \<Rightarrow> Returns w
           | HookReturns (Some t) \<Rightarrow> enqueue t w))"
  by (cases "current w") (simp_all add: dispatch_def running_def configured_hook_def)

lemma dispatch_frame [simp]:
  "running (world_of (dispatch e w)) = running w"
  "is_sampled (world_of (dispatch e w)) = is_sampled w"
  "current_seq (world_of (dispatch e w)) = current_seq w"
  "byte_cap (world_of (dispatch e w)) = byte_cap w"
  "batch_max (world_of (dispatch e w)) = batch_max w"
  "configured_hook (world_of (dispatch e w)) = configured_hook w"
  "blob_size (world_of (dispatch e w)) = blob_size w"
  "listeners (world_of (dispatch e w)) = listeners w"
  "routeManifestReady (world_of (dispatch e w)) = routeManifestReady w"
  by (cases "running w";
      simp add: dispatch_idle dispatch_unfold split: option.splits HookResult.splits)+

lemma dispatch_exact: "counter_exact w \<Longrightarrow> counter_exact (world_of (dispatch e w))"
  by (cases "running w")
     (simp_all add: dispatch_idle dispatch_unfold enqueue_exact
        split: option.splits HookResult.splits)

lemma dispatch_capped: "counter_capped w \<Longrightarrow> counter_capped (world_of (dispatch e w))"
  by (cases "running w")
     (simp_all add: dispatch_idle dispatch_unfold enqueue_capped
        split: option.splits HookResult.splits)

text \<open>The three tracking calls: idle without a sampled pipeline; otherwise they take the
  next sequence number and dispatch one event that carries it.\<close>

lemma trackEvent_idle: "\<not> is_sampled w \<Longrightarrow> trackEvent n d w = Returns w"
  by (cases "current w") (simp_all add: trackEvent_def is_sampled_def)

lemma trackError_idle: "\<not> is_sampled w \<Longrightarrow> trackError err src w = Returns w"
  by (cases "current w") (simp_all add: trackError_def is_sampled_def)

lemma trackPageView_idle: "\<not> is_sampled w \<Longrightarrow> trackPageView x nav w = Returns w"
  by (cases "current w") (simp_all add: trackPageView_def is_sampled_def)

lemma trackEvent_unfold:
  "is_sampled w \<Longrightarrow> \<exists>e. trackEvent n d w = dispatch e (snd (nextSeq w)) \<and>
       ev_seq e = current_seq w + 1 \<and> ev_name e = Some n \<and>
       ev_type e = custom \<and> ev_data e = CustomData d"
  apply (cases "current w")
   apply (simp_all add: trackEvent_def is_sampled_def nextSeq_def current_seq_def Let_def)
  apply (rule exI, rule conjI, rule refl)
  apply simp
  done

lemma trackError_unfold:
  "is_sampled w \<Longrightarrow> \<exists>e. trackError err src w = dispatch e (snd (nextSeq w)) \<and>
       ev_seq e = current_seq w + 1 \<and> ev_type e = error"
  apply (cases "current w")
   apply (simp_all add: trackError_def is_sampled_def nextSeq_def current_seq_def Let_def)
  apply (rule exI, rule conjI, rule refl)
  apply simp
  done

lemma trackPageView_unfold:
  "is_sampled w \<Longrightarrow> \<exists>e. trackPageView x nav w =
         and_then (dispatch e (snd (nextSeq w))) (\<lambda>v. Returns (v\<lparr>hasSentInitialPV := True\<rparr>)) \<and>
       ev_seq e = current_seq w + 1 \<and> ev_type e = page_view \<and> ev_name e = None"
  apply (cases "current w")
   apply (simp_all add: trackPageView_def is_sampled_def nextSeq_def current_seq_def Let_def)
  apply (rule exI, rule conjI, rule refl)
  apply simp
  done

lemma trackEvent_cases:
  obtains (idle) "\<not> is_sampled w" "trackEvent n d w = Returns w"
  | (sent) e where "is_sampled w" "trackEvent n d w = dispatch e (snd (nextSeq w))"
      "ev_seq e = current_seq w + 1" "ev_name e = Some n"
  using trackEvent_unfold[of w n d] trackEvent_idle[of w n d] by blast

lemma trackError_cases:
  obtains (idle) "\<not> is_sampled w" "trackError err src w = Returns w"
  | (sent) e where "is_sampled w" "trackError err src w = dispatch e (snd (nextSeq w))"
      "ev_seq e = current_seq w + 1"
  using trackError_unfold[of w err src] trackError_idle[of w err src] by blast

lemma trackPageView_cases:
  obtains (idle) "\<not> is_sampled w" "trackPageView x nav w = Returns w"
  | (sent) e where "is_sampled w"
      "trackPageView x nav w =
         and_then (dispatch e (snd (nextSeq w))) (\<lambda>v. Returns (v\<lparr>hasSentInitialPV := True\<rparr>))"
      "ev_seq e = current_seq w + 1"
  using trackPageView_unfold[of w x nav] trackPageView_idle[of w x nav] by blast

lemma trackEvent_frame [simp]:
  "running (world_of (trackEvent n d w)) = running w"
  "is_sampled (world_of (trackEvent n d w)) = is_sampled w"
  "byte_cap (world_of (trackEvent n d w)) = byte_cap w"
  "batch_max (world_of (trackEvent n d w)) = batch_max w"
  "configured_hook (world_of (trackEvent n d w)) = configured_hook w"
  "blob_size (world_of (trackEvent n d w)) = blob_size w"
  "listeners (world_of (trackEvent n d w)) = listeners w"
  "routeManifestReady (world_of (trackEvent n d w)) = routeManifestReady w"
  by (rule trackEvent_cases[of w n d]; simp)+

lemma trackError_frame [simp]:
  "running (world_of (trackError err src w)) = running w"
  "is_sampled (world_of (trackError err src w)) = is_sampled w"
  "byte_cap (world_of (trackError err src w)) = byte_cap w"
  "batch_max (world_of (trackError err src w)) = batch_max w"
  "configured_hook (world_of (trackError err src w)) = configured_hook w"
  "blob_size (world_of (trackError err src w)) = blob_size w"
  "listeners (world_of (trackError err src w)) = listeners w"
  "routeManifestReady (world_of (trackError err src w)) = routeManifestReady w"
  by (rule trackError_cases[of w err src]; simp)+

lemma trackPageView_frame [simp]:
  "running (world_of (trackPageView x nav w)) = running w"
  "is_sampled (world_of (trackPageView x nav w)) = is_sampled w"
  "byte_cap (world_of (trackPageView x nav w)) = byte_cap w"
  "batch_max (world_of (trackPageView x nav w)) = batch_max w"
  "configured_hook (world_of (trackPageView x nav w)) = configured_hook w"
  "blob_size (world_of (trackPageView x nav w)) = blob_size w"
  "listeners (world_of (trackPageView x nav w)) = listeners w"
  "routeManifestReady (world_of (trackPageView x nav w)) = routeManifestReady w"
  by (rule trackPageView_cases[of w x nav]; simp add: world_of_mark)+

lemma counter_exact_update [simp]:
  "counter_exact (w\<lparr>hasSentInitialPV := x\<rparr>) = counter_exact w"
  "counter_exact (w\<lparr>clock := c\<rparr>) = counter_exact w"
  "counter_exact (w\<lparr>visibility_hidden := h\<rparr>) = counter_exact w"
  by (simp_all add: counter_exact_def)

lemma counter_capped_update [simp]:
  "counter_capped (w\<lparr>hasSentInitialPV := x\<rparr>) = counter_capped w"
  "counter_capped (w\<lparr>clock := c\<rparr>) = counter_capped w"
  "counter_capped (w\<lparr>visibility_hidden := h\<rparr>) = counter_capped w"
  by (simp_all add: counter_capped_def)

lemma nextSeq_exact [simp]: "counter_exact (snd (nextSeq w)) = counter_exact w"
  by (simp add: counter_exact_def)

lemma nextSeq_capped [simp]: "counter_capped (snd (nextSeq w)) = counter_capped w"
  by (simp add: counter_capped_def)

lemma trackEvent_exact: "counter_exact w \<Longrightarrow> counter_exact (world_of (trackEvent n d w))"
  by (rule trackEvent_cases[of w n d]; simp add: dispatch_exact)

lemma trackEvent_capped: "counter_capped w \<Longrightarrow> counter_capped (world_of (trackEvent n d w))"
  by (rule trackEvent_cases[of w n d]; simp add: dispatch_capped)

lemma trackError_exact: "counter_exact w \<Longrightarrow> counter_exact (world_of (trackError err src w))"
  by (rule trackError_cases[of w err src]; simp add: dispatch_exact)

lemma trackError_capped: "counter_capped w \<Longrightarrow> counter_capped (world_of (trackError err src w))"
  by (rule trackError_cases[of w err src]; simp add: dispatch_capped)

lemma trackPageView_exact: "counter_exact w \<Longrightarrow> counter_exact (world_of (trackPageView x nav w))"
  by (rule trackPageView_cases[of w x nav]; simp add: dispatch_exact world_of_mark)


lemma trackPageView_capped: "counter_capped w \<Longrightarrow> counter_capped (world_of (trackPageView x nav w))"
  by (rule trackPageView_cases[of w x nav]; simp add: dispatch_capped world_of_mark)


subsection \<open>Startup, listeners, timers and call sequences\<close>


lemma current_update_obs [simp]:
  "running (w\<lparr>current := Some s\<rparr>)"
  "serialises (w\<lparr>current := Some s\<rparr>) = list_all (\<lambda>e. blob_size w e \<noteq> None) (queue s)"
  "queue_size (w\<lparr>current := Some s\<rparr>) =
     sum_list (map (\<lambda>e. case blob_size w e of None \<Rightarrow> 0 | Some b \<Rightarrow> int b) (queue s))"
  "is_sampled (w\<lparr>current := Some s\<rparr>) = sampled s"
  "current_seq (w\<lparr>current := Some s\<rparr>) = seq s"
  "queued (w\<lparr>current := Some s\<rparr>) = queue s"
  "queued_bytes (w\<lparr>current := Some s\<rparr>) = queueBytes s"
  "byte_cap (w\<lparr>current := Some s\<rparr>) = maxQueueBytes (config s)"
  "batch_max (w\<lparr>current := Some s\<rparr>) = batchMax (config s)"
  "configured_hook (w\<lparr>current := Some s\<rparr>) = beforeSend (config s)"
  by (simp_all add: obs_defs)

lemma getOrCreateDeviceId_frame [simp]:
  "current (snd (getOrCreateDeviceId w)) = current w"
  "blob_size (snd (getOrCreateDeviceId w)) = blob_size w"
  "listeners (snd (getOrCreateDeviceId w)) = listeners w"
  "routeManifestReady (snd (getOrCreateDeviceId w)) = routeManifestReady w"
  by (simp_all add: getOrCreateDeviceId_def uuid_def setItem_device_def log_effect_def
      Let_def split_def)

lemma loadOrCreateSession_frame [simp]:
  "current (snd (loadOrCreateSession r t w)) = current w"
  "blob_size (snd (loadOrCreateSession r t w)) = blob_size w"
  "listeners (snd (loadOrCreateSession r t w)) = listeners w"
  "routeManifestReady (snd (loadOrCreateSession r t w)) = routeManifestReady w"
  by (simp_all add: loadOrCreateSession_def create_session_def unpersisted_session_def
      uuid_def math_random_def setItem_session_def log_effect_def Let_def split_def
      split: option.splits Stored.splits)

lemma startRum_again: "running w \<Longrightarrow> startRum c w = Returns w"
  by (cases "current w") (simp_all add: startRum_def running_def)

lemma startRum_obs:
  assumes "\<not> running w"
  shows "running (world_of (startRum c w))"
    and "byte_cap (world_of (startRum c w)) = maxQueueBytes (applyDefaults c w)"
    and "batch_max (world_of (startRum c w)) = batchMax (applyDefaults c w)"
    and "configured_hook (world_of (startRum c w)) = beforeSend_opt c"
    and "is_sampled (world_of (startRum c w)) =
           sess_sampled (fst (loadOrCreateSession (sampleRate (applyDefaults c w))
             (sessionTtlMs (applyDefaults c w)) (snd (getOrCreateDeviceId w))))"
    and "blob_size (world_of (startRum c w)) = blob_size w"
    and "routeManifestReady (world_of (startRum c w)) = routeManifestReady w"
proof -
  have n: "current w = None" using assms by (simp add: running_def)
  have b: "beforeSend (applyDefaults c w) = beforeSend_opt c" by (simp add: applyDefaults_def)
  show "running (world_of (startRum c w))"
    by (simp add: startRum_def n Let_def split_def)
  show "byte_cap (world_of (startRum c w)) = maxQueueBytes (applyDefaults c w)"
    by (simp add: startRum_def n Let_def split_def)
  show "batch_max (world_of (startRum c w)) = batchMax (applyDefaults c w)"
    by (simp add: startRum_def n Let_def split_def)
  show "configured_hook (world_of (startRum c w)) = beforeSend_opt c"
    by (simp add: startRum_def n Let_def split_def b)
  show "is_sampled (world_of (startRum c w)) =
           sess_sampled (fst (loadOrCreateSession (sampleRate (applyDefaults c w))
             (sessionTtlMs (applyDefaults c w)) (snd (getOrCreateDeviceId w))))"
    by (simp add: startRum_def n Let_def split_def)
  show "blob_size (world_of (startRum c w)) = blob_size w"
    by (simp add: startRum_def n Let_def split_def)
  show "routeManifestReady (world_of (startRum c w)) = routeManifestReady w"
    by (simp add: startRum_def n Let_def split_def)
qed

lemma startRum_running: "running (world_of (startRum c w))"
  by (cases "running w") (simp_all add: startRum_again startRum_obs)

lemma counter_exact_frame [simp]:
  "counter_exact (push_unsubscriber u w) = counter_exact w"
  "counter_exact (addEventListener evt h w) = counter_exact w"
  "counter_exact (clearInterval t w) = counter_exact w"
  "counter_exact (snd (setTimer task w)) = counter_exact w"
  "counter_exact (attach c w) = counter_exact w"
  "counter_exact (attach_collectors cfg w) = counter_exact w"
  "counter_exact (setupLifecycle w) = counter_exact w"
  "counter_exact (scheduleFlush w) = counter_exact w"
  "counter_exact (refreshSessionActivity w) = counter_exact w"
  "counter_exact (identify uid traits w) = counter_exact w"
  "counter_exact (setContext extra w) = counter_exact w"
  "counter_exact (setRouteManifest routes w) = counter_exact w"
  "counter_exact (setPathNormalizer fn w) = counter_exact w"
  "counter_exact (w\<lparr>routeManifestReady := x\<rparr>) = counter_exact w"
  "counter_exact (w\<lparr>session_item := si\<rparr>) = counter_exact w"
  "counter_exact (w\<lparr>getItem_throws := g\<rparr>) = counter_exact w"
  "counter_exact (w\<lparr>setItem_throws := g\<rparr>) = counter_exact w"
  "counter_exact (w\<lparr>has_sendBeacon := g\<rparr>) = counter_exact w"
  "counter_exact (w\<lparr>sendBeacon_throws := g\<rparr>) = counter_exact w"
  by (simp_all add: counter_exact_def)

lemma counter_capped_frame [simp]:
  "counter_capped (push_unsubscriber u w) = counter_capped w"
  "counter_capped (addEventListener evt h w) = counter_capped w"
  "counter_capped (clearInterval t w) = counter_capped w"
  "counter_capped (snd (setTimer task w)) = counter_capped w"
  "counter_capped (attach c w) = counter_capped w"
  "counter_capped (attach_collectors cfg w) = counter_capped w"
  "counter_capped (setupLifecycle w) = counter_capped w"
  "counter_capped (scheduleFlush w) = counter_capped w"
  "counter_capped (refreshSessionActivity w) = counter_capped w"
  "counter_capped (identify uid traits w) = counter_capped w"
  "counter_capped (setContext extra w) = counter_capped w"
  "counter_capped (setRouteManifest routes w) = counter_capped w"
  "counter_capped (setPathNormalizer fn w) = counter_capped w"
  "counter_capped (w\<lparr>routeManifestReady := x\<rparr>) = counter_capped w"
  "counter_capped (w\<lparr>session_item := si\<rparr>) = counter_capped w"
  "counter_capped (w\<lparr>getItem_throws := g\<rparr>) = counter_capped w"
  "counter_capped (w\<lparr>setItem_throws := g\<rparr>) = counter_capped w"
  "counter_capped (w\<lparr>has_sendBeacon := g\<rparr>) = counter_capped w"
  "counter_capped (w\<lparr>sendBeacon_throws := g\<rparr>) = counter_capped w"
  by (simp_all add: counter_capped_def)

lemma counter_exact_fresh_instance [simp]:
  "queue s = [] \<Longrightarrow> queueBytes s = 0 \<Longrightarrow> counter_exact (w\<lparr>current := Some s\<rparr>)"
  by (simp add: counter_exact_def)

lemma counter_capped_fresh_instance [simp]:
  "queue s = [] \<Longrightarrow> queueBytes s = 0 \<Longrightarrow> counter_capped (w\<lparr>current := Some s\<rparr>)"
  by (simp add: counter_capped_def)

text \<open>The byte counter is exact and within the cap after a start, whatever the
  configuration, also when the initial page view threw.\<close>
lemma startRum_exact:
  assumes "\<not> running w"
  shows "counter_exact (world_of (startRum c w))"
proof -
  have n: "current w = None" using assms(1) by (simp add: running_def)
  show ?thesis
    by (simp add: startRum_def n Let_def split_def trackPageView_exact)
qed

lemma startRum_capped:
  assumes "\<not> running w"
  shows "counter_capped (world_of (startRum c w))"
proof -
  have n: "current w = None" using assms(1) by (simp add: running_def)
  show ?thesis
    by (simp add: startRum_def n Let_def split_def trackPageView_capped)
qed

lemma run_handler_frame [simp]:
  "running (world_of (run_handler h w)) = running w"
  "is_sampled (world_of (run_handler h w)) = is_sampled w"
  "current_seq (world_of (run_handler h w)) = current_seq w"
  "byte_cap (world_of (run_handler h w)) = byte_cap w"
  "batch_max (world_of (run_handler h w)) = batch_max w"
  "configured_hook (world_of (run_handler h w)) = configured_hook w"
  "blob_size (world_of (run_handler h w)) = blob_size w"
  "listeners (world_of (run_handler h w)) = listeners w"
  by (cases h; simp)+

lemma run_handler_exact: "counter_exact w \<Longrightarrow> counter_exact (world_of (run_handler h w))"
  by (cases h) (simp_all add: flushQueue_exact)

lemma run_handler_capped: "counter_capped w \<Longrightarrow> counter_capped (world_of (run_handler h w))"
  by (cases h) (simp_all add: flushQueue_capped)

lemma handlers_frame [simp]:
  "running (foldl (\<lambda>v h. world_of (run_handler h v)) w hs) = running w"
  "is_sampled (foldl (\<lambda>v h. world_of (run_handler h v)) w hs) = is_sampled w"
  "current_seq (foldl (\<lambda>v h. world_of (run_handler h v)) w hs) = current_seq w"
  "byte_cap (foldl (\<lambda>v h. world_of (run_handler h v)) w hs) = byte_cap w"
  "batch_max (foldl (\<lambda>v h. world_of (run_handler h v)) w hs) = batch_max w"
  "configured_hook (foldl (\<lambda>v h. world_of (run_handler h v)) w hs) = configured_hook w"
  "blob_size (foldl (\<lambda>v h. world_of (run_handler h v)) w hs) = blob_size w"
  "listeners (foldl (\<lambda>v h. world_of (run_handler h v)) w hs) = listeners w"
  by (induction hs arbitrary: w; simp)+

lemma handlers_exact:
  "counter_exact w \<Longrightarrow> counter_exact (foldl (\<lambda>v h. world_of (run_handler h v)) w hs)"
  by (induction hs arbitrary: w) (simp_all add: run_handler_exact)

lemma handlers_capped:
  "counter_capped w \<Longrightarrow> counter_capped (foldl (\<lambda>v h. world_of (run_handler h v)) w hs)"
  by (induction hs arbitrary: w) (simp_all add: run_handler_capped)

lemma fire_event_frame [simp]:
  "running (fire_event evt w) = running w"
  "is_sampled (fire_event evt w) = is_sampled w"
  "current_seq (fire_event evt w) = current_seq w"
  "byte_cap (fire_event evt w) = byte_cap w"
  "batch_max (fire_event evt w) = batch_max w"
  "configured_hook (fire_event evt w) = configured_hook w"
  "blob_size (fire_event evt w) = blob_size w"
  "listeners (fire_event evt w) = listeners w"
  by (simp_all add: fire_event_def)

lemma fire_event_exact: "counter_exact w \<Longrightarrow> counter_exact (fire_event evt w)"
  by (simp add: fire_event_def handlers_exact)

lemma fire_event_capped: "counter_capped w \<Longrightarrow> counter_capped (fire_event evt w)"
  by (simp add: fire_event_def handlers_capped)

lemma run_timer_frame [simp]:
  "running (world_of (run_timer t w)) = running w"
  "is_sampled (world_of (run_timer t w)) = is_sampled w"
  "byte_cap (world_of (run_timer t w)) = byte_cap w"
  "batch_max (world_of (run_timer t w)) = batch_max w"
  "configured_hook (world_of (run_timer t w)) = configured_hook w"
  "blob_size (world_of (run_timer t w)) = blob_size w"
  "listeners (world_of (run_timer t w)) = listeners w"
  by (simp_all add: run_timer_def Let_def split: option.splits TimerTask.splits)

lemma run_timer_exact: "counter_exact w \<Longrightarrow> counter_exact (world_of (run_timer t w))"
  by (simp add: run_timer_def Let_def trackPageView_exact flushQueue_exact
      split: option.splits TimerTask.splits)

lemma run_timer_capped: "counter_capped w \<Longrightarrow> counter_capped (world_of (run_timer t w))"
  by (simp add: run_timer_def Let_def trackPageView_capped flushQueue_capped
      split: option.splits TimerTask.splits)

lemma blob_size_update_frame [simp]:
  "running (w\<lparr>blob_size := f\<rparr>) = running w"
  "is_sampled (w\<lparr>blob_size := f\<rparr>) = is_sampled w"
  "current_seq (w\<lparr>blob_size := f\<rparr>) = current_seq w"
  "queued (w\<lparr>blob_size := f\<rparr>) = queued w"
  "queued_bytes (w\<lparr>blob_size := f\<rparr>) = queued_bytes w"
  "byte_cap (w\<lparr>blob_size := f\<rparr>) = byte_cap w"
  "batch_max (w\<lparr>blob_size := f\<rparr>) = batch_max w"
  "configured_hook (w\<lparr>blob_size := f\<rparr>) = configured_hook w"
  by (simp_all add: queued_def queued_bytes_def byte_cap_def batch_max_def current_seq_def
      configured_hook_def is_sampled_def running_def)

lemma counter_capped_data [simp]:
  "counter_capped (w\<lparr>blob_size := f\<rparr>) = counter_capped w"
  by (simp add: counter_capped_def)

lemma perform_frame [simp]:
  "running (world_of (perform c w)) = running w"
  "is_sampled (world_of (perform c w)) = is_sampled w"
  "byte_cap (world_of (perform c w)) = byte_cap w"
  "batch_max (world_of (perform c w)) = batch_max w"
  "configured_hook (world_of (perform c w)) = configured_hook w"
  "listeners (world_of (perform c w)) = listeners w"
  by (cases c; simp add: page_hide_def flush_def)+

text \<open>Every call but a change of the data keeps the serialisations and the byte counter
  exact; every call keeps the counter within the cap.\<close>
lemma perform_blob_size:
  "\<not> changes_data c \<Longrightarrow> blob_size (world_of (perform c w)) = blob_size w"
  by (cases c) (simp_all add: page_hide_def flush_def)

lemma perform_exact:
  "\<not> changes_data c \<Longrightarrow> counter_exact w \<Longrightarrow> counter_exact (world_of (perform c w))"
  by (cases c)
     (simp_all add: page_hide_def flush_def trackPageView_exact trackEvent_exact
        trackError_exact flushQueue_exact fire_event_exact run_timer_exact)

lemma perform_capped:
  "counter_capped w \<Longrightarrow> counter_capped (world_of (perform c w))"
  by (cases c)
     (simp_all add: page_hide_def flush_def trackPageView_capped trackEvent_capped
        trackError_capped flushQueue_capped fire_event_capped run_timer_capped)

lemma run_Nil [simp]: "run [] w = w"
  by (simp add: run_def)

lemma run_Cons [simp]: "run (c # cs) w = run cs (world_of (perform c w))"
  by (simp add: run_def)

lemma run_frame [simp]:
  "running (run cs w) = running w"
  "is_sampled (run cs w) = is_sampled w"
  "byte_cap (run cs w) = byte_cap w"
  "batch_max (run cs w) = batch_max w"
  "configured_hook (run cs w) = configured_hook w"
  "listeners (run cs w) = listeners w"
  by (induction cs arbitrary: w; simp)+

lemma run_exact:
  "counter_exact w \<Longrightarrow> \<forall>c \<in> set cs. \<not> changes_data c \<Longrightarrow> counter_exact (run cs w)"
  by (induction cs arbitrary: w) (simp_all add: perform_exact)

lemma run_capped:
  "counter_capped w \<Longrightarrow> counter_capped (run cs w)"
  by (induction cs arbitrary: w) (simp_all add: perform_capped)

lemma enqueue_all_Nil [simp]: "enqueue_all [] w = w"
  by (simp add: enqueue_all_def)

lemma enqueue_all_Cons [simp]: "enqueue_all (e # es) w = enqueue_all es (world_of (enqueue e w))"
  by (simp add: enqueue_all_def)

lemma enqueue_all_frame [simp]:
  "running (enqueue_all es w) = running w"
  "is_sampled (enqueue_all es w) = is_sampled w"
  "byte_cap (enqueue_all es w) = byte_cap w"
  "batch_max (enqueue_all es w) = batch_max w"
  "configured_hook (enqueue_all es w) = configured_hook w"
  "blob_size (enqueue_all es w) = blob_size w"
  "listeners (enqueue_all es w) = listeners w"
  by (induction es arbitrary: w; simp)+

lemma enqueue_all_exact: "counter_exact w \<Longrightarrow> counter_exact (enqueue_all es w)"
  by (induction es arbitrary: w) (simp_all add: enqueue_exact)


lemma enqueue_all_capped: "counter_capped w \<Longrightarrow> counter_capped (enqueue_all es w)"
  by (induction es arbitrary: w) (simp_all add: enqueue_capped)


subsection \<open>The example page\<close>


lemma fresh_page_idle: "\<not> running fresh_page"
  by (simp add: running_def fresh_page_def)

lemma fresh_page_session:
  "loadOrCreateSession 1 t (snd (getOrCreateDeviceId fresh_page)) =
     (\<lparr>sess_id = ''uu'', sess_sampled = True, sess_last = 1000\<rparr>,
      setItem_session \<lparr>sess_id = ''uu'', sess_sampled = True, sess_last = 1000\<rparr>
        ((setItem_device ''u'' (fresh_page\<lparr>uuid_count := 1\<rparr>))\<lparr>uuid_count := 2, random_count := 1\<rparr>))"
  by (simp add: getOrCreateDeviceId_def loadOrCreateSession_def create_session_def uuid_def
      math_random_def now_def setItem_device_def setItem_session_def log_effect_def
      fresh_page_def Let_def)

lemma config_values:
  "sampleRate (applyDefaults all_sampled w) = 1"
  "sampleRate (applyDefaults small_cap w) = 1"
  "sampleRate (applyDefaults negative_cap w) = 1"
  "maxQueueBytes (applyDefaults all_sampled w) = Finite 256000"
  "maxQueueBytes (applyDefaults small_cap w) = Finite 150"
  "maxQueueBytes (applyDefaults negative_cap w) = Finite (- 1)"
  "batchMax (applyDefaults all_sampled w) = 50"
  "batchMax (applyDefaults small_cap w) = 50"
  "batchMax (applyDefaults negative_cap w) = 50"
  by (simp_all add: applyDefaults_def all_sampled_def small_cap_def negative_cap_def no_config_def
      DEFAULT_MAX_QUEUE_BYTES_def DEFAULT_BATCH_MAX_def)

lemma startRum_deferred:
  assumes "\<not> running w" "\<not> routeManifestReady w"
    "getNormalizedPath (applyDefaults c w) = None"
  shows "returns (startRum c w)"
    and "queued (world_of (startRum c w)) = []"
    and "queued_bytes (world_of (startRum c w)) = 0"
    and "current_seq (world_of (startRum c w)) = 0"
proof -
  have n: "current w = None" using assms(1) by (simp add: running_def)
  show "returns (startRum c w)" using assms(2,3)
    by (simp add: startRum_def n Let_def split_def)
  show "queued (world_of (startRum c w)) = []" using assms(2,3)
    by (simp add: startRum_def n Let_def split_def)
  show "queued_bytes (world_of (startRum c w)) = 0" using assms(2,3)
    by (simp add: startRum_def n Let_def split_def)
  show "current_seq (world_of (startRum c w)) = 0" using assms(2,3)
    by (simp add: startRum_def n Let_def split_def)
qed


lemma fresh_start:
  assumes "sampleRate_opt c = Some 1" "getNormalizedPath_opt c = None"
  shows "is_sampled (world_of (startRum c fresh_page))"
    and "returns (startRum c fresh_page)"
    and "queued (world_of (startRum c fresh_page)) = []"
    and "queued_bytes (world_of (startRum c fresh_page)) = 0"
    and "current_seq (world_of (startRum c fresh_page)) = 0"
    and "blob_size (world_of (startRum c fresh_page)) = blob_size fresh_page"
proof -
  have r: "sampleRate (applyDefaults c fresh_page) = 1"
    using assms(1) by (simp add: applyDefaults_def)
  have g: "getNormalizedPath (applyDefaults c fresh_page) = None"
    using assms(2) by (simp add: applyDefaults_def fresh_page_def)
  have m: "\<not> routeManifestReady fresh_page" by (simp add: fresh_page_def)
  show "is_sampled (world_of (startRum c fresh_page))"
    by (simp add: startRum_obs(5)[OF fresh_page_idle] r fresh_page_session)
  show "returns (startRum c fresh_page)"
    by (rule startRum_deferred(1)[OF fresh_page_idle m g])
  show "queued (world_of (startRum c fresh_page)) = []"
    by (rule startRum_deferred(2)[OF fresh_page_idle m g])
  show "queued_bytes (world_of (startRum c fresh_page)) = 0"
    by (rule startRum_deferred(3)[OF fresh_page_idle m g])
  show "current_seq (world_of (startRum c fresh_page)) = 0"
    by (rule startRum_deferred(4)[OF fresh_page_idle m g])
  show "blob_size (world_of (startRum c fresh_page)) = blob_size fresh_page"
    by (rule startRum_obs(6)[OF fresh_page_idle])
qed

lemma example_configs:
  "sampleRate_opt all_sampled = Some 1" "getNormalizedPath_opt all_sampled = None"
  "sampleRate_opt small_cap = Some 1" "getNormalizedPath_opt small_cap = None"
  "sampleRate_opt negative_cap = Some 1" "getNormalizedPath_opt negative_cap = None"
  by (simp_all add: all_sampled_def small_cap_def negative_cap_def no_config_def)

lemma fresh_page_sizes:
  "blob_size fresh_page (event_named ''big'' k) = Some 300000"
  "blob_size fresh_page (event_named ''a'' k) = Some 100"
  "blob_size fresh_page (event_named ''b'' k) = Some 100"
  by (simp_all add: fresh_page_def event_named_def)

subsection \<open>C3: the byte cap\<close>

lemma emitted_since_append:
  "trace v = trace w @ es \<Longrightarrow>
     emitted_since (length (trace w)) v = concat (map pl_events (sent_payloads es))"
  by (simp add: emitted_since_def effects_since_def)

text \<open>A flush of a queue that serialises returns, empties the queue and its counter, and
  transports exactly the queue.\<close>
lemma flushQueue_empties:
  assumes "counter_capped w" "serialises w"
  shows "\<exists>v. flushQueue b w = Returns v \<and> queued v = [] \<and> queued_bytes v = 0 \<and>
           emitted_since (length (trace w)) v = queued w"
proof -
  have "returns (flushQueue b w)" using assms(2) by (simp add: flushQueue_returns)
  then obtain v where v: "flushQueue b w = Returns v" by (cases "flushQueue b w") auto
  then have wv: "world_of (flushQueue b w) = v" by simp
  have q: "queued v = []" using flushQueue_queued[of b w] assms(2) by (simp add: wv)
  have "queued w = [] \<Longrightarrow> queued_bytes w = 0"
    using assms(1) by (simp add: counter_capped_def)
  then have qb: "queued_bytes v = 0"
    using flushQueue_queued_bytes[of b w] assms(2) by (auto simp: wv)
  from flushQueue_trace[of b w] obtain es where
    "trace v = trace w @ es" "concat (map pl_events (sent_payloads es)) = queued w"
    using assms(2) by (auto simp: wv)
  then have "emitted_since (length (trace w)) v = queued w"
    by (simp add: emitted_since_append)
  then show ?thesis using v q qb by blast
qed

lemma enqueue_rest_emptied:
  assumes "queued v = []" "queued_bytes v = 0"
  shows "enqueue_rest e b v =
     (if \<not> at_most (int b) (byte_cap v) then Returns v
      else if batch_max v \<le> 1 then flushQueue False (push_event e b v)
           else Returns (push_event e b v))"
  using assms by (simp add: enqueue_rest_def)

text \<open>
  Claim C3. Take a start from a state with no running instance, then any calls, signals,
  timers and changes of the world, then any sequence of \<^verbatim>\<open>enqueue\<close> calls, whatever
  number the configured \<^verbatim>\<open>maxQueueBytes\<close> is. The byte counter is at most the cap while
  anything is queued, and it is 0 while the queue is empty (under a cap that is below 0
  or \<^verbatim>\<open>NaN\<close> nothing is ever queued). As long as the host has not changed the data of
  events, every queued event serialises and the counter is exactly the number of bytes
  the queued events serialise to. An \<^verbatim>\<open>enqueue\<close> of a serialisable event that would
  exceed the cap flushes first. When some queued event no longer serialises, that flush
  throws and the exception leaves \<^verbatim>\<open>enqueue\<close>, with the queue as it was. Otherwise the
  flush returns with the queue and the counter emptied and the whole queue transported;
  then, when the event alone exceeds the cap, it is dropped (the call returns the
  flushed state), and otherwise it is appended to the emptied queue (and flushed at once
  when the batch threshold is 1 or less).
\<close>
theorem byte_cap_respected:
  assumes "\<not> running w0"
    and "w = enqueue_all evs (run calls (world_of (startRum c w0)))"
  shows "byte_cap w = nullish (maxQueueBytes_opt c) DEFAULT_MAX_QUEUE_BYTES \<and>
     (if queued w = [] then queued_bytes w = 0
      else at_most (queued_bytes w) (byte_cap w)) \<and>
     ((\<forall>x \<in> set calls. \<not> changes_data x) \<longrightarrow>
        serialises w \<and> queued_bytes w = queue_size w) \<and>
     (is_sampled w \<and> blob_size w e = Some b \<and>
      \<not> at_most (queued_bytes w + int b) (byte_cap w) \<longrightarrow>
        (\<not> serialises w \<longrightarrow> enqueue e w = Throws SerializeError w) \<and>
        (serialises w \<longrightarrow>
           (\<exists>v. flushQueue False w = Returns v \<and> queued v = [] \<and> queued_bytes v = 0 \<and>
              emitted_since (length (trace w)) v = queued w \<and>
              (\<not> at_most (int b) (byte_cap w) \<longrightarrow> enqueue e w = Returns v) \<and>
              (at_most (int b) (byte_cap w) \<longrightarrow>
                 enqueue e w =
                   (if batch_max w \<le> 1 then flushQueue False (push_event e b v)
                    else Returns (push_event e b v))))))"
proof -
  have cap: "maxQueueBytes (applyDefaults c w0) =
      nullish (maxQueueBytes_opt c) DEFAULT_MAX_QUEUE_BYTES"
    by (simp add: applyDefaults_def)
  have "counter_capped (world_of (startRum c w0))"
    using assms(1) by (rule startRum_capped)
  then have "counter_capped (run calls (world_of (startRum c w0)))"
    by (rule run_capped)
  then have cc: "counter_capped w"
    unfolding assms(2) by (rule enqueue_all_capped)
  have bc: "byte_cap w = nullish (maxQueueBytes_opt c) DEFAULT_MAX_QUEUE_BYTES"
    unfolding assms(2) by (simp add: startRum_obs(2)[OF assms(1)] cap)
  have le: "if queued w = [] then queued_bytes w = 0
      else at_most (queued_bytes w) (byte_cap w)"
    using cc by (simp add: counter_capped_def)
  have ex: "serialises w \<and> queued_bytes w = queue_size w"
    if nc: "\<forall>x \<in> set calls. \<not> changes_data x"
  proof -
    have "counter_exact (world_of (startRum c w0))"
      using assms(1) by (rule startRum_exact)
    then have "counter_exact (run calls (world_of (startRum c w0)))"
      using nc by (rule run_exact)
    then have "counter_exact w"
      unfolding assms(2) by (rule enqueue_all_exact)
    then show ?thesis by (simp add: counter_exact_def)
  qed
  have over: "(\<not> serialises w \<longrightarrow> enqueue e w = Throws SerializeError w) \<and>
        (serialises w \<longrightarrow>
           (\<exists>v. flushQueue False w = Returns v \<and> queued v = [] \<and> queued_bytes v = 0 \<and>
              emitted_since (length (trace w)) v = queued w \<and>
              (\<not> at_most (int b) (byte_cap w) \<longrightarrow> enqueue e w = Returns v) \<and>
              (at_most (int b) (byte_cap w) \<longrightarrow>
                 enqueue e w =
                   (if batch_max w \<le> 1 then flushQueue False (push_event e b v)
                    else Returns (push_event e b v)))))"
    if h: "is_sampled w" "blob_size w e = Some b"
      "\<not> at_most (queued_bytes w + int b) (byte_cap w)"
  proof (intro conjI impI)
    assume "\<not> serialises w"
    then show "enqueue e w = Throws SerializeError w" by (rule enqueue_over_stuck[OF h])
  next
    assume s: "serialises w"
    from flushQueue_empties[OF cc s, of False] obtain v where
      v: "flushQueue False w = Returns v" "queued v = []" "queued_bytes v = 0"
         "emitted_since (length (trace w)) v = queued w"
      by blast
    have wv: "world_of (flushQueue False w) = v" using v(1) by simp
    have fr: "byte_cap v = byte_cap w" "batch_max v = batch_max w"
      using flushQueue_frame(4,5)[of False w] by (simp_all add: wv)
    have "enqueue e w = enqueue_rest e b v"
      using enqueue_over[OF h s] by (simp add: wv)
    then have e: "enqueue e w =
       (if \<not> at_most (int b) (byte_cap w) then Returns v
        else if batch_max w \<le> 1 then flushQueue False (push_event e b v)
             else Returns (push_event e b v))"
      by (simp add: enqueue_rest_emptied[OF v(2,3)] fr)
    show "\<exists>v. flushQueue False w = Returns v \<and> queued v = [] \<and> queued_bytes v = 0 \<and>
              emitted_since (length (trace w)) v = queued w \<and>
              (\<not> at_most (int b) (byte_cap w) \<longrightarrow> enqueue e w = Returns v) \<and>
              (at_most (int b) (byte_cap w) \<longrightarrow>
                 enqueue e w =
                   (if batch_max w \<le> 1 then flushQueue False (push_event e b v)
                    else Returns (push_event e b v)))"
      using v e by auto
  qed
  show ?thesis using bc le ex over by blast
qed

lemma small_cap_after_one:
  "is_sampled (enqueue_all [event_named ''a'' 1]
     (run [TimePasses 5] (world_of (startRum small_cap fresh_page))))"
  "byte_cap (enqueue_all [event_named ''a'' 1]
     (run [TimePasses 5] (world_of (startRum small_cap fresh_page)))) = Finite 150"
  "batch_max (enqueue_all [event_named ''a'' 1]
     (run [TimePasses 5] (world_of (startRum small_cap fresh_page)))) = 50"
  "blob_size (enqueue_all [event_named ''a'' 1]
     (run [TimePasses 5] (world_of (startRum small_cap fresh_page)))) = blob_size fresh_page"
  "queued_bytes (enqueue_all [event_named ''a'' 1]
     (run [TimePasses 5] (world_of (startRum small_cap fresh_page)))) = 100"
  "queued (enqueue_all [event_named ''a'' 1]
     (run [TimePasses 5] (world_of (startRum small_cap fresh_page)))) = [event_named ''a'' 1]"
proof -
  let ?W = "world_of (startRum small_cap fresh_page)"
  let ?V = "?W\<lparr>clock := clock ?W + 5\<rparr>"
  note fs = fresh_start[OF example_configs(3,4)]
  have v: "run [TimePasses 5] ?W = ?V" by simp
  have s: "is_sampled ?V" by (simp add: fs(1))
  have bs: "blob_size ?V = blob_size fresh_page" by (simp add: fs(6))
  have b: "blob_size ?V (event_named ''a'' 1) = Some 100"
    by (simp add: fs(6) fresh_page_sizes)
  have c0: "byte_cap ?W = Finite 150"
    by (simp add: startRum_obs(2)[OF fresh_page_idle] config_values)
  have m0: "batch_max ?W = 50"
    by (simp add: startRum_obs(3)[OF fresh_page_idle] config_values)
  have c: "byte_cap ?V = Finite 150" and m: "batch_max ?V = 50"
    and q: "queued ?V = []" "queued_bytes ?V = 0"
    by (simp_all add: c0 m0 fs(3,4))
  have e: "enqueue (event_named ''a'' 1) ?V = Returns (push_event (event_named ''a'' 1) 100 ?V)"
    by (simp add: enqueue_unfold[OF s b] enqueue_rest_def c0 m0 fs(3,4))
  have r: "running ?V" using s by (rule is_sampled_running)
  have a: "enqueue_all [event_named ''a'' 1] (run [TimePasses 5] ?W) =
      push_event (event_named ''a'' 1) 100 ?V"
    unfolding v by (simp add: e)
  show "is_sampled (enqueue_all [event_named ''a'' 1] (run [TimePasses 5] ?W))"
    unfolding a using s by simp
  show "byte_cap (enqueue_all [event_named ''a'' 1] (run [TimePasses 5] ?W)) = Finite 150"
    unfolding a using c by simp
  show "batch_max (enqueue_all [event_named ''a'' 1] (run [TimePasses 5] ?W)) = 50"
    unfolding a using m by simp
  show "blob_size (enqueue_all [event_named ''a'' 1] (run [TimePasses 5] ?W))
      = blob_size fresh_page"
    unfolding a using bs by simp
  show "queued_bytes (enqueue_all [event_named ''a'' 1] (run [TimePasses 5] ?W)) = 100"
    unfolding a by (simp add: push_event_queued(2)[OF r] fs(4))
  show "queued (enqueue_all [event_named ''a'' 1] (run [TimePasses 5] ?W))
      = [event_named ''a'' 1]"
    unfolding a by (simp add: push_event_queued(1)[OF r] fs(3))
qed

lemma nan_cap_config:
  "nullish (maxQueueBytes_opt nan_cap) DEFAULT_MAX_QUEUE_BYTES = NaN"
  "nullish (maxQueueBytes_opt negative_cap) DEFAULT_MAX_QUEUE_BYTES = Finite (- 1)"
  by (simp_all add: nan_cap_def negative_cap_def)

text \<open>
  Witness for C3: on a fresh page with a cap of 150 bytes, some time after the start,
  after one event of 100 bytes the counter is 100, the size of the queue; a second event
  of 100 bytes is appended after a flush, and one of 300000 bytes is dropped after a
  flush. With a cap of \<^verbatim>\<open>NaN\<close>, and with a cap of -1, the queue is empty after the same
  first event.
\<close>
theorem byte_cap_respected_witness:
  "\<not> running fresh_page \<and>
   byte_cap (enqueue_all [event_named ''a'' 1]
     (run [TimePasses 5] (world_of (startRum small_cap fresh_page)))) = Finite 150 \<and>
   queued_bytes (enqueue_all [event_named ''a'' 1]
     (run [TimePasses 5] (world_of (startRum small_cap fresh_page)))) = 100 \<and>
   queue_size (enqueue_all [event_named ''a'' 1]
     (run [TimePasses 5] (world_of (startRum small_cap fresh_page)))) = 100 \<and>
   enqueue (event_named ''big'' 3)
      (enqueue_all [event_named ''a'' 1] (run [TimePasses 5] (world_of (startRum small_cap fresh_page)))) =
     flushQueue False
      (enqueue_all [event_named ''a'' 1] (run [TimePasses 5] (world_of (startRum small_cap fresh_page)))) \<and>
   enqueue (event_named ''b'' 2)
      (enqueue_all [event_named ''a'' 1] (run [TimePasses 5] (world_of (startRum small_cap fresh_page)))) =
     Returns (push_event (event_named ''b'' 2) 100 (world_of (flushQueue False
      (enqueue_all [event_named ''a'' 1]
        (run [TimePasses 5] (world_of (startRum small_cap fresh_page))))))) \<and>
   queued (enqueue_all [event_named ''a'' 1]
     (run [TimePasses 5] (world_of (startRum nan_cap fresh_page)))) = [] \<and>
   queued (enqueue_all [event_named ''a'' 1]
     (run [TimePasses 5] (world_of (startRum negative_cap fresh_page)))) = []"
proof -
  let ?W = "enqueue_all [event_named ''a'' 1] (run [TimePasses 5] (world_of (startRum small_cap fresh_page)))"
  let ?N = "enqueue_all [event_named ''a'' 1] (run [TimePasses 5] (world_of (startRum nan_cap fresh_page)))"
  let ?M = "enqueue_all [event_named ''a'' 1]
     (run [TimePasses 5] (world_of (startRum negative_cap fresh_page)))"
  note sc = small_cap_after_one
  have nc: "\<forall>x \<in> set [TimePasses 5]. \<not> changes_data x" by simp
  have big: "blob_size ?W (event_named ''big'' 3) = Some 300000"
    by (simp only: sc(4) fresh_page_sizes)
  have b: "blob_size ?W (event_named ''b'' 2) = Some 100"
    by (simp only: sc(4) fresh_page_sizes)
  note t = byte_cap_respected[OF fresh_page_idle refl, where calls = "[TimePasses 5]"
      and evs = "[event_named ''a'' 1]" and c = small_cap]
  have ex: "serialises ?W" "queued_bytes ?W = queue_size ?W"
    using t[of "event_named ''b'' 2" 100] nc by blast+
  have qs: "queue_size ?W = 100" using ex(2) by (simp only: sc(5))
  have o1: "\<not> at_most (queued_bytes ?W + int 300000) (byte_cap ?W)"
    by (simp only: sc(2,5)) simp
  have n1: "\<not> at_most (int 300000) (byte_cap ?W)" by (simp only: sc(2)) simp
  have o2: "\<not> at_most (queued_bytes ?W + int 100) (byte_cap ?W)"
    by (simp only: sc(2,5)) simp
  have n2: "at_most (int 100) (byte_cap ?W)" by (simp only: sc(2)) simp
  have m: "\<not> batch_max ?W \<le> 1" by (simp only: sc(3))
  from t[of "event_named ''big'' 3" 300000] sc(1) big o1 n1 ex(1)
  have 1: "enqueue (event_named ''big'' 3) ?W = flushQueue False ?W" by auto
  from t[of "event_named ''b'' 2" 100] sc(1) b o2 n2 m ex(1)
  obtain v where v: "flushQueue False ?W = Returns v"
    "enqueue (event_named ''b'' 2) ?W = Returns (push_event (event_named ''b'' 2) 100 v)"
    by auto
  have 2: "enqueue (event_named ''b'' 2) ?W =
      Returns (push_event (event_named ''b'' 2) 100 (world_of (flushQueue False ?W)))"
    using v by simp
  from byte_cap_respected[OF fresh_page_idle refl, where calls = "[TimePasses 5]"
      and evs = "[event_named ''a'' 1]" and c = nan_cap, of "event_named ''b'' 2" 100]
  have "byte_cap ?N = NaN"
    "if queued ?N = [] then queued_bytes ?N = 0 else at_most (queued_bytes ?N) (byte_cap ?N)"
    unfolding nan_cap_config by blast+
  then have 3: "queued ?N = []" by (cases "queued ?N = []") simp_all
  from byte_cap_respected[OF fresh_page_idle refl, where calls = "[TimePasses 5]"
      and evs = "[event_named ''a'' 1]" and c = negative_cap, of "event_named ''b'' 2" 100] nc
  have neg: "byte_cap ?M = Finite (- 1)" "queued_bytes ?M = queue_size ?M"
    "if queued ?M = [] then queued_bytes ?M = 0 else at_most (queued_bytes ?M) (byte_cap ?M)"
    unfolding nan_cap_config by blast+
  have "0 \<le> queue_size ?M" by (rule queue_size_nonneg)
  then have "\<not> at_most (queued_bytes ?M) (byte_cap ?M)" unfolding neg(1,2) by simp
  then have 4: "queued ?M = []" using neg(3) by (cases "queued ?M = []") simp_all
  show ?thesis using fresh_page_idle sc(2,5) qs 1 2 3 4 by blast
qed

subsection \<open>C8: a second start\<close>

text \<open>
  Claim C8. \<^verbatim>\<open>startRum\<close> on a running pipeline returns at once and leaves the whole state
  as it was: the timers, the persisted session, the counts of identifiers and random
  draws taken, the effects and the pipeline instance. (The value returned is the module
  constant \<^verbatim>\<open>publicAPI\<close> on every path.)
\<close>
theorem startRum_idempotent:
  "running w \<Longrightarrow>
     startRum c w = Returns w \<and>
     timers (world_of (startRum c w)) = timers w \<and>
     session_item (world_of (startRum c w)) = session_item w \<and>
     random_count (world_of (startRum c w)) = random_count w \<and>
     uuid_count (world_of (startRum c w)) = uuid_count w \<and>
     trace (world_of (startRum c w)) = trace w \<and>
     current (world_of (startRum c w)) = current w"
  by (simp add: startRum_again)

text \<open>Witness for C8: a second start, with another configuration, after a first one on a
  fresh page.\<close>
theorem startRum_idempotent_witness:
  "running (world_of (startRum all_sampled fresh_page)) \<and>
   startRum small_cap (world_of (startRum all_sampled fresh_page)) =
     Returns (world_of (startRum all_sampled fresh_page))"
  using startRum_idempotent[of "world_of (startRum all_sampled fresh_page)" small_cap]
    startRum_running[of all_sampled fresh_page]
  by blast

subsection \<open>C10: the public API without an instance\<close>

lemma not_running_shutdown: "\<not> running (shutdown v)"
  by (simp add: shutdown_def running_def Let_def)

text \<open>
  Claim C10. With no current instance (before a start, or after \<^verbatim>\<open>shutdown\<close>, which always
  leaves none), every operation of the public API returns without throwing and leaves the
  state as it was, and \<^verbatim>\<open>getSessionInfo\<close> returns \<^verbatim>\<open>null\<close>.
\<close>
theorem api_idle_without_instance:
  "\<not> running w \<Longrightarrow>
     trackPageView x nav w = Returns w \<and>
     trackEvent n d w = Returns w \<and>
     identify uid traits w = w \<and>
     setContext extra w = w \<and>
     trackError err src w = Returns w \<and>
     flush w = Returns w \<and>
     shutdown w = w \<and>
     getSessionInfo w = None \<and>
     \<not> running (shutdown v)"
  by (cases w)
     (simp add: running_def trackPageView_def trackEvent_def identify_def setContext_def
        trackError_def flush_def flushQueue_def shutdown_def getSessionInfo_def Let_def)

text \<open>Witness for C10: the page as loaded, and a page after start and shutdown.\<close>
theorem api_idle_without_instance_witness:
  "\<not> running fresh_page \<and>
   trackEvent ''a'' None fresh_page = Returns fresh_page \<and>
   getSessionInfo fresh_page = None \<and>
   \<not> running (shutdown (world_of (startRum all_sampled fresh_page))) \<and>
   trackEvent ''a'' None (shutdown (world_of (startRum all_sampled fresh_page))) =
     Returns (shutdown (world_of (startRum all_sampled fresh_page))) \<and>
   flush (shutdown (world_of (startRum all_sampled fresh_page))) =
     Returns (shutdown (world_of (startRum all_sampled fresh_page)))"
  using api_idle_without_instance[OF fresh_page_idle, where n = "''a''" and d = None]
    api_idle_without_instance[OF not_running_shutdown, where n = "''a''" and d = None]
    fresh_page_idle not_running_shutdown
  by blast

subsection \<open>C9: the normalized path\<close>

lemma setPathNormalizer_running:
  "running w \<Longrightarrow> configured_normalizer (setPathNormalizer f w) = Some f"
  by (cases "current w") (simp_all add: running_def configured_normalizer_def setPathNormalizer_def)

text \<open>
  Claim C9. \<^verbatim>\<open>computeNormalizedPath\<close> is a total function to strings: when a normalizer is
  configured and returns, its result is the value; when none is configured, or the
  configured one throws, the value is the literal path, and \<open>/\<close> for the empty path.
\<close>
theorem normalized_path_fallback:
  "(configured_normalizer w = Some f \<and> f p = Some r \<longrightarrow> computeNormalizedPath p w = r) \<and>
   (configured_normalizer w = Some f \<and> f p = None \<longrightarrow>
      computeNormalizedPath p w = (if p = [] then ''/'' else p)) \<and>
   (configured_normalizer w = None \<longrightarrow>
      computeNormalizedPath p w = (if p = [] then ''/'' else p))"
  by (cases "current w")
     (auto simp: computeNormalizedPath_def configured_normalizer_def Let_def
        split: option.splits)

text \<open>Witness for C9: a normalizer set after the start that knows one route and throws on
  the others, and the page as loaded, with none.\<close>
theorem normalized_path_fallback_witness:
  "configured_normalizer (setPathNormalizer user_route (world_of (startRum all_sampled fresh_page)))
     = Some user_route \<and>
   computeNormalizedPath ''/user/42''
     (setPathNormalizer user_route (world_of (startRum all_sampled fresh_page))) = ''/user/:id'' \<and>
   computeNormalizedPath ''/cart''
     (setPathNormalizer user_route (world_of (startRum all_sampled fresh_page))) = ''/cart'' \<and>
   configured_normalizer fresh_page = None \<and>
   computeNormalizedPath [] fresh_page = ''/''"
proof -
  let ?W = "setPathNormalizer user_route (world_of (startRum all_sampled fresh_page))"
  have c: "configured_normalizer ?W = Some user_route"
    by (rule setPathNormalizer_running[OF startRum_running])
  have n: "configured_normalizer fresh_page = None"
    by (simp add: configured_normalizer_def fresh_page_def)
  have r1: "user_route ''/user/42'' = Some ''/user/:id''" by (simp add: user_route_def)
  have r2: "user_route ''/cart'' = None" by (simp add: user_route_def)
  from normalized_path_fallback[of ?W user_route "''/user/42''" "''/user/:id''"] c r1
  have 1: "computeNormalizedPath ''/user/42'' ?W = ''/user/:id''" by blast
  from normalized_path_fallback[of ?W user_route "''/cart''"] c r2
  have 2: "computeNormalizedPath ''/cart'' ?W = ''/cart''" by simp
  from normalized_path_fallback[of fresh_page _ "[]"] n
  have 3: "computeNormalizedPath [] fresh_page = ''/''" by simp
  show ?thesis using c n 1 2 3 by blast
qed


subsection \<open>C1: a hook that throws\<close>

lemma nextSeq_sampled: "is_sampled (snd (nextSeq w)) = is_sampled w"
  by simp

text \<open>
  Claim C1 fails on the code: \<^verbatim>\<open>dispatch\<close> calls the hook outside any \<^verbatim>\<open>try\<close>. What the code
  does: when the hook throws, the event is not enqueued, and the exception leaves
  \<^verbatim>\<open>dispatch\<close> and the tracking call that made it, after the sequence number was taken.
\<close>
theorem hook_exception_escapes:
  assumes "is_sampled w" and "configured_hook w = Some h" and "\<forall>e. h e = HookThrows"
  shows "dispatch e w = Throws HookError w \<and>
     trackEvent n d w = Throws HookError (snd (nextSeq w)) \<and>
     trackError err src w = Throws HookError (snd (nextSeq w)) \<and>
     trackPageView x nav w = Throws HookError (snd (nextSeq w)) \<and>
     queued (snd (nextSeq w)) = queued w"
proof -
  have r: "running w" using assms(1) by (rule is_sampled_running)
  have d: "dispatch e' v = Throws HookError v"
    if "running v" "configured_hook v = Some h" for e' v
    using that assms(3) by (simp add: dispatch_unfold)
  have r1: "running (snd (nextSeq w))" using r by simp
  have h1: "configured_hook (snd (nextSeq w)) = Some h" using assms(2) by simp
  have 1: "dispatch e w = Throws HookError w" using r assms(2) by (rule d)
  have 2: "trackEvent n d w = Throws HookError (snd (nextSeq w))"
    using trackEvent_unfold[OF assms(1), of n d] d[OF r1 h1] by auto
  have 3: "trackError err src w = Throws HookError (snd (nextSeq w))"
    using trackError_unfold[OF assms(1), of err src] d[OF r1 h1] by auto
  have 4: "trackPageView x nav w = Throws HookError (snd (nextSeq w))"
    using trackPageView_unfold[OF assms(1), of x nav] d[OF r1 h1] by auto
  show ?thesis using 1 2 3 4 by simp
qed

lemma example_configs_hooks:
  "sampleRate_opt throwing_hook = Some 1" "getNormalizedPath_opt throwing_hook = None"
  "beforeSend_opt throwing_hook = Some (\<lambda>e. HookThrows)"
  "sampleRate_opt dropping_hook = Some 1" "getNormalizedPath_opt dropping_hook = None"
  "beforeSend_opt dropping_hook = Some drop_debug"
  by (simp_all add: throwing_hook_def dropping_hook_def all_sampled_def no_config_def)

text \<open>The failing input of C1: a start with a hook that throws, then \<^verbatim>\<open>trackEvent("a")\<close>.\<close>
theorem hook_exception_escapes_witness:
  "is_sampled (world_of (startRum throwing_hook fresh_page)) \<and>
   configured_hook (world_of (startRum throwing_hook fresh_page)) = Some (\<lambda>e. HookThrows) \<and>
   trackEvent ''a'' None (world_of (startRum throwing_hook fresh_page)) =
     Throws HookError (snd (nextSeq (world_of (startRum throwing_hook fresh_page)))) \<and>
   \<not> returns (trackEvent ''a'' None (world_of (startRum throwing_hook fresh_page)))"
proof -
  let ?W = "world_of (startRum throwing_hook fresh_page)"
  have s: "is_sampled ?W" by (rule fresh_start(1)[OF example_configs_hooks(1,2)])
  have h: "configured_hook ?W = Some (\<lambda>e. HookThrows)"
    by (simp add: startRum_obs(4)[OF fresh_page_idle] example_configs_hooks)
  have a: "\<forall>e. (\<lambda>e. HookThrows) e = HookThrows" by simp
  from hook_exception_escapes[OF s h a, of _ "''a''" None]
  have t: "trackEvent ''a'' None ?W = Throws HookError (snd (nextSeq ?W))" by blast
  then have "\<not> returns (trackEvent ''a'' None ?W)" by simp
  then show ?thesis using s h t by blast
qed


subsection \<open>C5: loading or creating the session\<close>

text \<open>
  Claim C5. \<^verbatim>\<open>loadOrCreateSession\<close> always returns a session (both \<^verbatim>\<open>catch\<close> blocks are
  branches of the function). When the persisted session can be renewed, the result is
  that session with only its last activity set to now, persisted again, and no random
  draw is taken. In every other case (the key is absent, the value does not parse, the
  session has expired, or a storage read or write throws) the result has a new identifier
  and a new sampling draw against the rate; after a failed write it is the second
  identifier and the second draw, the first ones being lost with the write.
\<close>
theorem session_renewed_or_fresh:
  "(renewable ttl w \<and> persisted_session w = Some v \<longrightarrow>
      loadOrCreateSession rate ttl w =
        (v\<lparr>sess_last := now w\<rparr>, setItem_session (v\<lparr>sess_last := now w\<rparr>) w) \<and>
      sess_id (fst (loadOrCreateSession rate ttl w)) = sess_id v \<and>
      sess_sampled (fst (loadOrCreateSession rate ttl w)) = sess_sampled v \<and>
      random_count (snd (loadOrCreateSession rate ttl w)) = random_count w) \<and>
   (\<not> renewable ttl w \<and> k = (if \<not> getItem_throws w \<and> setItem_throws w then 1 else 0) \<longrightarrow>
      fst (loadOrCreateSession rate ttl w) =
        \<lparr>sess_id = uuid_gen w (uuid_count w + k),
         sess_sampled = (random_gen w (random_count w + k) < rate),
         sess_last = now w\<rparr> \<and>
      uuid_count (snd (loadOrCreateSession rate ttl w)) = uuid_count w + k + 1 \<and>
      random_count (snd (loadOrCreateSession rate ttl w)) = random_count w + k + 1)"
  by (auto simp: renewable_def persisted_session_def loadOrCreateSession_def create_session_def
      unpersisted_session_def uuid_def math_random_def setItem_session_def log_effect_def
      now_def Let_def split: option.splits Stored.splits)


text \<open>
  Witness for C5, at rate 1 and a time-to-live of 1000 ms, with the clock at 1000: an unsampled
  session last active at 500 is renewed and stays unsampled; the same session last active
  at -1000 has expired and is replaced (the example of the specification); a value that
  does not parse is replaced; and when the write throws, the session is replaced although
  it had not expired.
\<close>
theorem session_renewed_or_fresh_witness:
  "renewable 1000 (fresh_page\<lparr>session_item := Some (Persisted old_session)\<rparr>) \<and>
   fst (loadOrCreateSession 1 1000 (fresh_page\<lparr>session_item := Some (Persisted old_session)\<rparr>))
     = \<lparr>sess_id = ''old'', sess_sampled = False, sess_last = 1000\<rparr> \<and>
   \<not> renewable 1000
     (fresh_page\<lparr>session_item := Some (Persisted (old_session\<lparr>sess_last := - 1000\<rparr>))\<rparr>) \<and>
   fst (loadOrCreateSession 1 1000
     (fresh_page\<lparr>session_item := Some (Persisted (old_session\<lparr>sess_last := - 1000\<rparr>))\<rparr>))
     = \<lparr>sess_id = ''u'', sess_sampled = True, sess_last = 1000\<rparr> \<and>
   fst (loadOrCreateSession 1 1000 (fresh_page\<lparr>session_item := Some Corrupt\<rparr>))
     = \<lparr>sess_id = ''u'', sess_sampled = True, sess_last = 1000\<rparr> \<and>
   fst (loadOrCreateSession 1 1000
     (fresh_page\<lparr>session_item := Some (Persisted old_session), setItem_throws := True\<rparr>))
     = \<lparr>sess_id = ''uu'', sess_sampled = True, sess_last = 1000\<rparr>"
proof -
  let ?R = "fresh_page\<lparr>session_item := Some (Persisted old_session)\<rparr>"
  let ?E = "fresh_page\<lparr>session_item := Some (Persisted (old_session\<lparr>sess_last := - 1000\<rparr>))\<rparr>"
  let ?C = "fresh_page\<lparr>session_item := Some Corrupt\<rparr>"
  let ?F = "fresh_page\<lparr>session_item := Some (Persisted old_session), setItem_throws := True\<rparr>"
  have r: "renewable 1000 ?R" "persisted_session ?R = Some old_session"
    by (simp_all add: renewable_def persisted_session_def fresh_page_def old_session_def now_def)
  have e: "\<not> renewable 1000 ?E"
    by (simp add: renewable_def persisted_session_def fresh_page_def old_session_def now_def)
  have c: "\<not> renewable 1000 ?C"
    by (simp add: renewable_def persisted_session_def fresh_page_def)
  have f: "\<not> renewable 1000 ?F"
    by (simp add: renewable_def persisted_session_def fresh_page_def)
  have g: "\<not> getItem_throws ?E" "\<not> setItem_throws ?E" "\<not> getItem_throws ?C"
    "\<not> setItem_throws ?C" "\<not> getItem_throws ?F" "setItem_throws ?F"
    by (simp_all add: fresh_page_def)
  have v: "uuid_gen ?E (uuid_count ?E + 0) = ''u''" "random_gen ?E (random_count ?E + 0) < 1"
    "uuid_gen ?C (uuid_count ?C + 0) = ''u''" "random_gen ?C (random_count ?C + 0) < 1"
    "uuid_gen ?F (uuid_count ?F + 1) = ''uu''" "random_gen ?F (random_count ?F + 1) < 1"
    "now ?R = 1000" "now ?E = 1000" "now ?C = 1000" "now ?F = 1000"
    by (simp_all add: fresh_page_def now_def)
  from session_renewed_or_fresh[where ttl = 1000 and w = ?R and v = old_session and rate = 1] r
  have "fst (loadOrCreateSession 1 1000 ?R) = old_session\<lparr>sess_last := now ?R\<rparr>"
    by simp
  then have 1: "fst (loadOrCreateSession 1 1000 ?R) =
      \<lparr>sess_id = ''old'', sess_sampled = False, sess_last = 1000\<rparr>"
    by (simp only: v) (simp add: old_session_def)
  from session_renewed_or_fresh[where ttl = 1000 and w = ?E and rate = 1 and k = 0] e g(1,2)
  have "fst (loadOrCreateSession 1 1000 ?E) =
      \<lparr>sess_id = uuid_gen ?E (uuid_count ?E + 0),
       sess_sampled = (random_gen ?E (random_count ?E + 0) < 1), sess_last = now ?E\<rparr>"
    by (simp del: add_0_right add.right_neutral)
  then have 2: "fst (loadOrCreateSession 1 1000 ?E) =
      \<lparr>sess_id = ''u'', sess_sampled = True, sess_last = 1000\<rparr>"
    by (simp only: v)
  from session_renewed_or_fresh[where ttl = 1000 and w = ?C and rate = 1 and k = 0] c g(3,4)
  have "fst (loadOrCreateSession 1 1000 ?C) =
      \<lparr>sess_id = uuid_gen ?C (uuid_count ?C + 0),
       sess_sampled = (random_gen ?C (random_count ?C + 0) < 1), sess_last = now ?C\<rparr>"
    by (simp del: add_0_right add.right_neutral)
  then have 3: "fst (loadOrCreateSession 1 1000 ?C) =
      \<lparr>sess_id = ''u'', sess_sampled = True, sess_last = 1000\<rparr>"
    by (simp only: v)
  from session_renewed_or_fresh[where ttl = 1000 and w = ?F and rate = 1 and k = 1] f g(5,6)
  have "fst (loadOrCreateSession 1 1000 ?F) =
      \<lparr>sess_id = uuid_gen ?F (uuid_count ?F + 1),
       sess_sampled = (random_gen ?F (random_count ?F + 1) < 1), sess_last = now ?F\<rparr>"
    by simp
  then have 4: "fst (loadOrCreateSession 1 1000 ?F) =
      \<lparr>sess_id = ''uu'', sess_sampled = True, sess_last = 1000\<rparr>"
    by (simp only: v)
  show ?thesis using r(1) e 1 2 3 4 by blast
qed

subsection \<open>C2: the beacon flush\<close>

lemma effects_since_append:
  "trace w' = trace w @ es \<Longrightarrow> effects_since (length (trace w)) w' = es"
  by (simp add: effects_since_def)

text \<open>What a flush of a non-empty queue that serialises does, in each transport mode.\<close>
lemma flushQueue_sends:
  assumes "running w" "queued w \<noteq> []" "serialises w"
  shows "\<exists>v u p hs. flushQueue b w = Returns v \<and> queued v = [] \<and> queued_bytes v = 0 \<and>
     pl_events p = queued w \<and>
     trace v = trace w @
       (if b \<and> has_sendBeacon w
        then (if sendBeacon_throws w then [BeaconFailed u p, FetchCall u p hs]
              else [BeaconCall u p])
        else [FetchCall u p hs])"
proof -
  obtain s where s: "current w = Some s" using assms(1) by (auto simp: running_def)
  have q: "queue s \<noteq> []" using assms(2) s by (simp add: queued_def)
  have l: "\<not> list_ex (\<lambda>e. blob_size w e = None) (queue s)"
    using assms(3) s by (simp add: serialises_def queued_def list_ex_iff list_all_iff)
  show ?thesis using s q l
    by (simp add: flushQueue_def log_effect_def queued_def queued_bytes_def Let_def)
qed

text \<open>
  Claim C2, as amended. A flush in beacon mode of a non-empty queue, with the beacon
  available. When some queued event does not serialise, the exception of
  \<^verbatim>\<open>JSON.stringify\<close> leaves \<^verbatim>\<open>flushQueue\<close>: nothing is sent and the queue is kept. When
  every queued event serialises, the flush returns with the queue and its byte counter
  emptied; when the beacon call returns, it is the only transport call, carrying the
  whole queue; when the beacon call throws, the keep-alive fetch is called next, with the
  same URL and the same payload: two channels are tried for the batch.
\<close>
theorem beacon_flush_transports:
  assumes "running w" and "queued w \<noteq> []" and "has_sendBeacon w"
  shows "(\<not> serialises w \<longrightarrow> flushQueue True w = Throws SerializeError w) \<and>
     (serialises w \<longrightarrow>
        (\<exists>v u p hs. flushQueue True w = Returns v \<and>
           queued v = [] \<and> queued_bytes v = 0 \<and> pl_events p = queued w \<and>
           (\<not> sendBeacon_throws w \<longrightarrow>
              effects_since (length (trace w)) v = [BeaconCall u p]) \<and>
           (sendBeacon_throws w \<longrightarrow>
              effects_since (length (trace w)) v = [BeaconFailed u p, FetchCall u p hs])))"
proof (intro conjI impI)
  assume "\<not> serialises w"
  then show "flushQueue True w = Throws SerializeError w" by (rule flushQueue_throws)
next
  assume s: "serialises w"
  from flushQueue_sends[OF assms(1,2) s, of True] obtain v u p hs where
    v: "flushQueue True w = Returns v" "queued v = []" "queued_bytes v = 0"
       "pl_events p = queued w"
       "trace v = trace w @
          (if sendBeacon_throws w then [BeaconFailed u p, FetchCall u p hs]
           else [BeaconCall u p])"
    using assms(3) by auto
  have "effects_since (length (trace w)) v =
      (if sendBeacon_throws w then [BeaconFailed u p, FetchCall u p hs] else [BeaconCall u p])"
    using v(5) by (rule effects_since_append)
  then show "\<exists>v u p hs. flushQueue True w = Returns v \<and>
           queued v = [] \<and> queued_bytes v = 0 \<and> pl_events p = queued w \<and>
           (\<not> sendBeacon_throws w \<longrightarrow>
              effects_since (length (trace w)) v = [BeaconCall u p]) \<and>
           (sendBeacon_throws w \<longrightarrow>
              effects_since (length (trace w)) v = [BeaconFailed u p, FetchCall u p hs])"
    using v(1-4) by auto
qed

lemma fresh_first_event:
  assumes "sampleRate_opt c = Some 1" "getNormalizedPath_opt c = None"
    and "at_most 100 (maxQueueBytes (applyDefaults c fresh_page))"
    and "1 < batchMax (applyDefaults c fresh_page)"
    and "blob_size fresh_page e = Some 100"
  shows "enqueue e (world_of (startRum c fresh_page)) =
           Returns (push_event e 100 (world_of (startRum c fresh_page)))"
    and "queued (enqueue_all [e] (world_of (startRum c fresh_page))) = [e]"
    and "queued_bytes (enqueue_all [e] (world_of (startRum c fresh_page))) = 100"
    and "serialises (enqueue_all [e] (world_of (startRum c fresh_page)))"
proof -
  let ?W = "world_of (startRum c fresh_page)"
  note fs = fresh_start[OF assms(1,2)]
  have b: "blob_size ?W e = Some 100" by (simp add: fs(6) assms(5))
  have c: "byte_cap ?W = maxQueueBytes (applyDefaults c fresh_page)"
    by (rule startRum_obs(2)[OF fresh_page_idle])
  have m: "batch_max ?W = batchMax (applyDefaults c fresh_page)"
    by (rule startRum_obs(3)[OF fresh_page_idle])
  show e: "enqueue e ?W = Returns (push_event e 100 ?W)"
    using assms(3,4) by (simp add: enqueue_unfold[OF fs(1) b] enqueue_rest_def c m fs(3,4))
  show "queued (enqueue_all [e] ?W) = [e]"
    by (simp add: e push_event_queued is_sampled_running[OF fs(1)] fs(3))
  show "queued_bytes (enqueue_all [e] ?W) = 100"
    by (simp add: e push_event_queued is_sampled_running[OF fs(1)] fs(4))
  have "counter_exact (enqueue_all [e] ?W)"
    by (rule enqueue_all_exact[OF startRum_exact[OF fresh_page_idle]])
  then show "serialises (enqueue_all [e] ?W)" by (simp add: counter_exact_def)
qed

lemma one_queued:
  "queued (enqueue_all [event_named ''a'' 1] (world_of (startRum all_sampled fresh_page)))
     = [event_named ''a'' 1]"
  "serialises (enqueue_all [event_named ''a'' 1] (world_of (startRum all_sampled fresh_page)))"
  by (rule fresh_first_event(2,4)[OF example_configs(1,2)];
      simp add: config_values fresh_page_sizes)+

lemma one_queued_beacon:
  "running ((enqueue_all [event_named ''a'' 1] (world_of (startRum all_sampled fresh_page)))
      \<lparr>has_sendBeacon := True, sendBeacon_throws := t\<rparr>)"
  "queued ((enqueue_all [event_named ''a'' 1] (world_of (startRum all_sampled fresh_page)))
      \<lparr>has_sendBeacon := True, sendBeacon_throws := t\<rparr>) = [event_named ''a'' 1]"
  "serialises ((enqueue_all [event_named ''a'' 1] (world_of (startRum all_sampled fresh_page)))
      \<lparr>has_sendBeacon := True, sendBeacon_throws := t\<rparr>)"
proof -
  let ?V = "enqueue_all [event_named ''a'' 1] (world_of (startRum all_sampled fresh_page))"
  let ?T = "?V\<lparr>has_sendBeacon := True, sendBeacon_throws := t\<rparr>"
  show "running ?T" by (simp add: startRum_running)
  have q0: "queued ?T = queued ?V" by simp
  show "queued ?T = [event_named ''a'' 1]" unfolding q0 by (rule one_queued(1))
  have s0: "serialises ?T = serialises ?V" by simp
  show "serialises ?T" unfolding s0 by (rule one_queued(2))
qed

text \<open>
  Counterexample to C2 as stated: one event is queued, the beacon is available and its
  call throws; the flush in beacon mode makes two transport calls, the beacon and then
  the fetch.
\<close>
theorem beacon_failure_falls_back_to_fetch:
  "\<not> length (transport_attempts (effects_since
        (length (trace ((enqueue_all [event_named ''a'' 1]
           (world_of (startRum all_sampled fresh_page)))
           \<lparr>has_sendBeacon := True, sendBeacon_throws := True\<rparr>)))
        (world_of (flushQueue True ((enqueue_all [event_named ''a'' 1]
           (world_of (startRum all_sampled fresh_page)))
           \<lparr>has_sendBeacon := True, sendBeacon_throws := True\<rparr>))))) \<le> 1"
proof -
  let ?W = "(enqueue_all [event_named ''a'' 1] (world_of (startRum all_sampled fresh_page)))
           \<lparr>has_sendBeacon := True, sendBeacon_throws := True\<rparr>"
  note ex = one_queued_beacon[where t = True]
  have q: "queued ?W \<noteq> []" unfolding ex(2) by simp
  from flushQueue_sends[OF ex(1) q ex(3), of True] obtain v u p hs where
    "flushQueue True ?W = Returns v"
    "trace v = trace ?W @ [BeaconFailed u p, FetchCall u p hs]"
    by auto
  then have "effects_since (length (trace ?W)) (world_of (flushQueue True ?W)) =
      [BeaconFailed u p, FetchCall u p hs]"
    by (simp add: effects_since_append)
  then show ?thesis by simp
qed

text \<open>Witness for C2: the same page, with a beacon call that throws and with one that
  returns; and the same page after the host has made the queued event unserialisable.\<close>
theorem beacon_flush_transports_witness:
  "running ((enqueue_all [event_named ''a'' 1] (world_of (startRum all_sampled fresh_page)))
           \<lparr>has_sendBeacon := True, sendBeacon_throws := True\<rparr>) \<and>
   queued ((enqueue_all [event_named ''a'' 1] (world_of (startRum all_sampled fresh_page)))
           \<lparr>has_sendBeacon := True, sendBeacon_throws := True\<rparr>) = [event_named ''a'' 1] \<and>
   returns (flushQueue True ((enqueue_all [event_named ''a'' 1]
           (world_of (startRum all_sampled fresh_page)))
           \<lparr>has_sendBeacon := True, sendBeacon_throws := True\<rparr>)) \<and>
   queued (world_of (flushQueue True ((enqueue_all [event_named ''a'' 1]
           (world_of (startRum all_sampled fresh_page)))
           \<lparr>has_sendBeacon := True, sendBeacon_throws := True\<rparr>))) = [] \<and>
   length (effects_since
        (length (trace ((enqueue_all [event_named ''a'' 1]
           (world_of (startRum all_sampled fresh_page)))
           \<lparr>has_sendBeacon := True, sendBeacon_throws := True\<rparr>)))
        (world_of (flushQueue True ((enqueue_all [event_named ''a'' 1]
           (world_of (startRum all_sampled fresh_page)))
           \<lparr>has_sendBeacon := True, sendBeacon_throws := True\<rparr>)))) = 2 \<and>
   length (effects_since
        (length (trace ((enqueue_all [event_named ''a'' 1]
           (world_of (startRum all_sampled fresh_page)))
           \<lparr>has_sendBeacon := True, sendBeacon_throws := False\<rparr>)))
        (world_of (flushQueue True ((enqueue_all [event_named ''a'' 1]
           (world_of (startRum all_sampled fresh_page)))
           \<lparr>has_sendBeacon := True, sendBeacon_throws := False\<rparr>)))) = 1 \<and>
   flushQueue True ((enqueue_all [event_named ''a'' 1]
           (world_of (startRum all_sampled fresh_page)))
           \<lparr>has_sendBeacon := True, blob_size := (\<lambda>e. None)\<rparr>) =
     Throws SerializeError ((enqueue_all [event_named ''a'' 1]
           (world_of (startRum all_sampled fresh_page)))
           \<lparr>has_sendBeacon := True, blob_size := (\<lambda>e. None)\<rparr>)"
proof -
  let ?V = "enqueue_all [event_named ''a'' 1] (world_of (startRum all_sampled fresh_page))"
  let ?T = "?V\<lparr>has_sendBeacon := True, sendBeacon_throws := True\<rparr>"
  let ?N = "?V\<lparr>has_sendBeacon := True, sendBeacon_throws := False\<rparr>"
  let ?U = "?V\<lparr>has_sendBeacon := True, blob_size := (\<lambda>e. None)\<rparr>"
  note exT = one_queued_beacon[where t = True]
  note exN = one_queued_beacon[where t = False]
  have qT': "queued ?T \<noteq> []" and qN': "queued ?N \<noteq> []" unfolding exT(2) exN(2) by simp_all
  have bT: "has_sendBeacon ?T" and bN: "has_sendBeacon ?N" and bU: "has_sendBeacon ?U"
    by simp_all
  have tT: "sendBeacon_throws ?T" and tN: "\<not> sendBeacon_throws ?N" by simp_all
  have rU: "running ?U" by (simp add: startRum_running)
  have q0: "queued ?U = queued ?V" by simp
  have qU: "queued ?U = [event_named ''a'' 1]" unfolding q0 by (rule one_queued(1))
  have qU': "queued ?U \<noteq> []" unfolding qU by simp
  have sU: "\<not> serialises ?U" unfolding serialises_def qU by simp
  from beacon_flush_transports[OF exT(1) qT' bT] exT(3) tT
  obtain v u p hs where v: "flushQueue True ?T = Returns v" "queued v = []"
    "effects_since (length (trace ?T)) v = [BeaconFailed u p, FetchCall u p hs]"
    by auto
  have 1: "returns (flushQueue True ?T)" "queued (world_of (flushQueue True ?T)) = []"
    "length (effects_since (length (trace ?T)) (world_of (flushQueue True ?T))) = 2"
    using v by simp_all
  from beacon_flush_transports[OF exN(1) qN' bN] exN(3) tN
  obtain v' u' p' where v': "flushQueue True ?N = Returns v'"
    "effects_since (length (trace ?N)) v' = [BeaconCall u' p']"
    by auto
  have 2: "length (effects_since (length (trace ?N)) (world_of (flushQueue True ?N))) = 1"
    using v' by simp
  from beacon_flush_transports[OF rU qU' bU] sU
  have 3: "flushQueue True ?U = Throws SerializeError ?U" by blast
  show ?thesis using exT(1,2) 1 2 3 by blast
qed


subsection \<open>Listeners, storage and single tracking calls\<close>

lemma setupLifecycle_listeners:
  "listeners (setupLifecycle w) = listeners w @ lifecycle_listeners"
  by (simp add: setupLifecycle_def activity_events_def lifecycle_listeners_def Let_def
      addEventListener_def)

lemma startRum_listeners:
  assumes "\<not> running w"
  shows "listeners (world_of (startRum c w)) =
     listeners w @ (if is_sampled (world_of (startRum c w)) then lifecycle_listeners else [])"
proof -
  have n: "current w = None" using assms by (simp add: running_def)
  show ?thesis
    unfolding startRum_obs(5)[OF assms]
    by (simp add: startRum_def n Let_def split_def setupLifecycle_listeners)
qed

lemma teardown_handlers:
  assumes "listeners w = lifecycle_listeners"
  shows "page_unload w = world_of (flushQueue True (refreshSessionActivity w))"
    and "page_hide w = world_of (flushQueue True (w\<lparr>visibility_hidden := True\<rparr>))"
  using assms
  by (simp_all add: page_unload_def page_hide_def fire_event_def lifecycle_listeners_def)

lemma no_handlers:
  assumes "listeners w = []"
  shows "page_unload w = w" and "page_hide w = w\<lparr>visibility_hidden := True\<rparr>"
  using assms by (simp_all add: page_unload_def page_hide_def fire_event_def)

lemma flushQueue_storage [simp]:
  "session_item (world_of (flushQueue b w)) = session_item w"
  "persisted_session (world_of (flushQueue b w)) = persisted_session w"
  by (simp_all add: flushQueue_def persisted_session_def log_effect_def Let_def
      split: option.splits)

lemma flushQueue_session_writes:
  "session_writes (effects_since (length (trace w)) (world_of (flushQueue b w))) = []"
  by (simp add: flushQueue_def effects_since_def log_effect_def Let_def split: option.splits)

lemma refreshSessionActivity_effect:
  assumes "\<not> getItem_throws w" "\<not> setItem_throws w" "persisted_session w = Some v"
  shows "refreshSessionActivity w = setItem_session (v\<lparr>sess_last := now w\<rparr>) w"
    and "trace (refreshSessionActivity w) = trace w @ [SetSessionItem (v\<lparr>sess_last := now w\<rparr>)]"
    and "persisted_session (refreshSessionActivity w) = Some (v\<lparr>sess_last := now w\<rparr>)"
  using assms
  by (auto simp: refreshSessionActivity_def persisted_session_def setItem_session_def
      log_effect_def split: option.splits Stored.splits)

lemma flushQueue_beacon_trace:
  assumes "running w" "queued w \<noteq> []" "serialises w" "has_sendBeacon w" "\<not> sendBeacon_throws w"
  shows "\<exists>u p. pl_events p = queued w \<and>
     trace (world_of (flushQueue True w)) = trace w @ [BeaconCall u p]"
proof -
  from flushQueue_sends[OF assms(1-3), of True] obtain v u p where
    "flushQueue True w = Returns v" "pl_events p = queued w"
    "trace v = trace w @ [BeaconCall u p]"
    using assms(4,5) by auto
  then show ?thesis by auto
qed

lemma trackEvent_appends:
  assumes "is_sampled w" and "configured_hook w = None"
    and "\<And>e. ev_name e = Some n \<Longrightarrow>
           \<exists>b. blob_size w e = Some b \<and> at_most (queued_bytes w + int b) (byte_cap w)"
    and "int (length (queued w)) + 1 < batch_max w"
  shows "\<exists>e b. ev_name e = Some n \<and> ev_seq e = current_seq w + 1 \<and> blob_size w e = Some b \<and>
     trackEvent n d w = Returns (push_event e b (snd (nextSeq w)))"
proof (rule trackEvent_cases[of w n d])
  assume "\<not> is_sampled w"
  then show ?thesis using assms(1) by simp
next
  fix e
  assume e: "trackEvent n d w = dispatch e (snd (nextSeq w))"
    "ev_seq e = current_seq w + 1" "ev_name e = Some n"
  let ?v = "snd (nextSeq w)"
  obtain b where b: "blob_size w e = Some b" "at_most (queued_bytes w + int b) (byte_cap w)"
    using assms(3)[OF e(3)] by blast
  have s: "is_sampled ?v" using assms(1) by simp
  have r: "running ?v" using s by (rule is_sampled_running)
  have h: "configured_hook ?v = None" using assms(2) by simp
  have bv: "blob_size ?v e = Some b" using b(1) by simp
  have "dispatch e ?v = enqueue e ?v" by (simp add: dispatch_unfold[OF r] assms(2))
  also have "\<dots> = Returns (push_event e b ?v)"
    using b(2) assms(4) by (simp add: enqueue_unfold[OF s bv] enqueue_rest_def)
  finally show ?thesis using e b(1) by auto
qed

lemma trackEvent_fills_batch:
  assumes "is_sampled w" and "configured_hook w = None"
    and "\<And>e. ev_name e = Some n \<Longrightarrow>
           \<exists>b. blob_size w e = Some b \<and> at_most (queued_bytes w + int b) (byte_cap w)"
    and "batch_max w \<le> int (length (queued w)) + 1"
  shows "\<exists>e b. ev_name e = Some n \<and> ev_seq e = current_seq w + 1 \<and> blob_size w e = Some b \<and>
     trackEvent n d w = flushQueue False (push_event e b (snd (nextSeq w)))"
proof (rule trackEvent_cases[of w n d])
  assume "\<not> is_sampled w"
  then show ?thesis using assms(1) by simp
next
  fix e
  assume e: "trackEvent n d w = dispatch e (snd (nextSeq w))"
    "ev_seq e = current_seq w + 1" "ev_name e = Some n"
  let ?v = "snd (nextSeq w)"
  obtain b where b: "blob_size w e = Some b" "at_most (queued_bytes w + int b) (byte_cap w)"
    using assms(3)[OF e(3)] by blast
  have s: "is_sampled ?v" using assms(1) by simp
  have r: "running ?v" using s by (rule is_sampled_running)
  have h: "configured_hook ?v = None" using assms(2) by simp
  have bv: "blob_size ?v e = Some b" using b(1) by simp
  have "dispatch e ?v = enqueue e ?v" by (simp add: dispatch_unfold[OF r] assms(2))
  also have "\<dots> = flushQueue False (push_event e b ?v)"
    using b(2) assms(4) by (simp add: enqueue_unfold[OF s bv] enqueue_rest_def)
  finally show ?thesis using e b(1) by auto
qed

lemma fresh_page_any_size:
  "\<exists>b. blob_size fresh_page e = Some b \<and> (ev_name e \<noteq> Some ''big'' \<longrightarrow> b = 100)"
  by (simp add: fresh_page_def)

lemma fresh_track_one:
  "\<exists>e. queued (world_of (trackEvent ''a'' None (world_of (startRum all_sampled fresh_page)))) = [e]"
  "serialises (world_of (trackEvent ''a'' None (world_of (startRum all_sampled fresh_page))))"
proof -
  let ?W = "world_of (startRum all_sampled fresh_page)"
  note fs = fresh_start[OF example_configs(1,2)]
  have c: "byte_cap ?W = Finite 256000"
    by (simp add: startRum_obs(2)[OF fresh_page_idle] config_values)
  have m: "batch_max ?W = 50"
    by (simp add: startRum_obs(3)[OF fresh_page_idle] config_values)
  have h: "configured_hook ?W = None"
    by (simp add: startRum_obs(4)[OF fresh_page_idle] all_sampled_def no_config_def)
  have sz: "\<exists>b. blob_size ?W e = Some b \<and> at_most (queued_bytes ?W + int b) (byte_cap ?W)"
    if "ev_name e = Some ''a''" for e
    using that fresh_page_any_size[of e] by (auto simp: fs(4,6) c)
  have l: "int (length (queued ?W)) + 1 < batch_max ?W" by (simp add: fs(3) m)
  from trackEvent_appends[where n = "''a''" and d = None and w = ?W, OF fs(1) h sz l]
  obtain e b where
    "trackEvent ''a'' None ?W = Returns (push_event e b (snd (nextSeq ?W)))"
    by blast
  then have "queued (world_of (trackEvent ''a'' None ?W)) = [e]"
    by (simp add: push_event_queued is_sampled_running[OF fs(1)] fs(3))
  then show "\<exists>e. queued (world_of (trackEvent ''a'' None ?W)) = [e]" by blast
  have "counter_exact (world_of (trackEvent ''a'' None ?W))"
    by (rule trackEvent_exact[OF startRum_exact[OF fresh_page_idle]])
  then show "serialises (world_of (trackEvent ''a'' None ?W))" by (simp add: counter_exact_def)
qed


subsection \<open>C7: unload and page-hide\<close>

lemma refreshSessionActivity_transports [simp]:
  "has_sendBeacon (refreshSessionActivity w) = has_sendBeacon w"
  "sendBeacon_throws (refreshSessionActivity w) = sendBeacon_throws w"
  by (simp_all add: refreshSessionActivity_def setItem_session_def log_effect_def
      split: option.splits Stored.splits)

lemma started_listeners:
  assumes "\<not> running w0" "listeners w0 = []"
  shows "listeners (run calls (world_of (startRum c w0))) =
     (if is_sampled (run calls (world_of (startRum c w0))) then lifecycle_listeners else [])"
  using assms(2) by (simp add: startRum_listeners[OF assms(1)])

lemma hide_effects:
  assumes "listeners w = lifecycle_listeners" "running w" "queued w \<noteq> []" "serialises w"
    "has_sendBeacon w" "\<not> sendBeacon_throws w"
  shows "\<exists>u p. pl_events p = queued w \<and>
     effects_since (length (trace w)) (page_hide w) = [BeaconCall u p]"
proof -
  let ?V = "w\<lparr>visibility_hidden := True\<rparr>"
  have "running ?V" "queued ?V \<noteq> []" "serialises ?V" "has_sendBeacon ?V"
    "\<not> sendBeacon_throws ?V"
    using assms(2-6) by simp_all
  from flushQueue_beacon_trace[OF this] obtain u p where
    "pl_events p = queued ?V"
    "trace (world_of (flushQueue True ?V)) = trace ?V @ [BeaconCall u p]"
    by blast
  then have "pl_events p = queued w"
    "effects_since (length (trace w)) (world_of (flushQueue True ?V)) = [BeaconCall u p]"
    by (simp_all add: effects_since_def)
  then show ?thesis unfolding teardown_handlers(2)[OF assms(1)] by blast
qed

lemma unload_effects:
  assumes "listeners w = lifecycle_listeners" "running w" "queued w \<noteq> []" "serialises w"
    "has_sendBeacon w" "\<not> sendBeacon_throws w"
    "\<not> getItem_throws w" "\<not> setItem_throws w" "persisted_session w = Some v"
  shows "\<exists>u p. pl_events p = queued w \<and>
     effects_since (length (trace w)) (page_unload w) =
       [SetSessionItem (v\<lparr>sess_last := now w\<rparr>), BeaconCall u p]"
proof -
  let ?R = "refreshSessionActivity w"
  have "running ?R" "queued ?R \<noteq> []" "serialises ?R" "has_sendBeacon ?R"
    "\<not> sendBeacon_throws ?R"
    using assms(2-6) by simp_all
  from flushQueue_beacon_trace[OF this] obtain u p where
    "pl_events p = queued ?R"
    "trace (world_of (flushQueue True ?R)) = trace ?R @ [BeaconCall u p]"
    by blast
  then have "pl_events p = queued w"
    "effects_since (length (trace w)) (world_of (flushQueue True ?R)) =
       [SetSessionItem (v\<lparr>sess_last := now w\<rparr>), BeaconCall u p]"
    by (simp_all add: effects_since_def refreshSessionActivity_effect(2)[OF assms(7-9)])
  then show ?thesis unfolding teardown_handlers(1)[OF assms(1)] by blast
qed

text \<open>
  Claim C7, as amended. Take a pipeline started on a page where no listener of the
  module is registered yet, in any state it reaches while it runs. If its session is
  sampled: on the unload signal the pipeline first refreshes the persisted session's
  last activity and then flushes with the beacon forced; on page-hide it only flushes
  with the beacon forced, writes no session and leaves the persisted session as it was.
  With working storage, a persisted session, a non-empty queue that serialises and a
  working beacon, the effects of the unload are the session write followed by the beacon
  call, and the only effect of the page-hide is the beacon call. If its session is not
  sampled, no listener is registered, and neither signal refreshes or flushes anything.
\<close>
theorem teardown_signals:
  assumes "\<not> running w0" and "listeners w0 = []"
    and "w = run calls (world_of (startRum c w0))"
  shows "(is_sampled w \<longrightarrow>
       page_unload w = world_of (flushQueue True (refreshSessionActivity w)) \<and>
       page_hide w = world_of (flushQueue True (w\<lparr>visibility_hidden := True\<rparr>)) \<and>
       persisted_session (page_hide w) = persisted_session w \<and>
       session_writes (effects_since (length (trace w)) (page_hide w)) = [] \<and>
       (\<not> getItem_throws w \<and> \<not> setItem_throws w \<and> persisted_session w = Some v \<longrightarrow>
          persisted_session (page_unload w) = Some (v\<lparr>sess_last := now w\<rparr>)) \<and>
       (\<not> getItem_throws w \<and> \<not> setItem_throws w \<and> persisted_session w = Some v \<and>
        queued w \<noteq> [] \<and> serialises w \<and> has_sendBeacon w \<and> \<not> sendBeacon_throws w \<longrightarrow>
          (\<exists>u p. pl_events p = queued w \<and>
             effects_since (length (trace w)) (page_unload w) =
               [SetSessionItem (v\<lparr>sess_last := now w\<rparr>), BeaconCall u p]) \<and>
          (\<exists>u p. pl_events p = queued w \<and>
             effects_since (length (trace w)) (page_hide w) = [BeaconCall u p]))) \<and>
     (\<not> is_sampled w \<longrightarrow> page_unload w = w \<and> page_hide w = w\<lparr>visibility_hidden := True\<rparr>)"
proof (intro conjI impI)
  assume "\<not> is_sampled w"
  then have l: "listeners w = []"
    using started_listeners[OF assms(1,2), of calls c] by (simp add: assms(3))
  show "page_unload w = w" by (rule no_handlers(1)[OF l])
  show "page_hide w = w\<lparr>visibility_hidden := True\<rparr>" by (rule no_handlers(2)[OF l])
next
  assume s: "is_sampled w"
  then have l: "listeners w = lifecycle_listeners"
    using started_listeners[OF assms(1,2), of calls c] by (simp add: assms(3))
  have r: "running w" using s by (rule is_sampled_running)
  note t = teardown_handlers[OF l]
  show "page_unload w = world_of (flushQueue True (refreshSessionActivity w))" by (rule t(1))
  show "page_hide w = world_of (flushQueue True (w\<lparr>visibility_hidden := True\<rparr>))"
    by (rule t(2))
  show "persisted_session (page_hide w) = persisted_session w"
    by (simp add: t(2) persisted_session_def)
  have "session_writes (effects_since (length (trace (w\<lparr>visibility_hidden := True\<rparr>)))
      (world_of (flushQueue True (w\<lparr>visibility_hidden := True\<rparr>)))) = []"
    by (rule flushQueue_session_writes)
  then show "session_writes (effects_since (length (trace w)) (page_hide w)) = []"
    by (simp add: t(2))
  show "persisted_session (page_unload w) = Some (v\<lparr>sess_last := now w\<rparr>)"
    if "\<not> getItem_throws w \<and> \<not> setItem_throws w \<and> persisted_session w = Some v"
    using refreshSessionActivity_effect(3)[of w v] that by (simp add: t(1))
  show "\<exists>u p. pl_events p = queued w \<and>
             effects_since (length (trace w)) (page_unload w) =
               [SetSessionItem (v\<lparr>sess_last := now w\<rparr>), BeaconCall u p]"
    if "\<not> getItem_throws w \<and> \<not> setItem_throws w \<and> persisted_session w = Some v \<and>
        queued w \<noteq> [] \<and> serialises w \<and> has_sendBeacon w \<and> \<not> sendBeacon_throws w"
    using unload_effects[OF l r, of v] that by blast
  show "\<exists>u p. pl_events p = queued w \<and>
             effects_since (length (trace w)) (page_hide w) = [BeaconCall u p]"
    if "\<not> getItem_throws w \<and> \<not> setItem_throws w \<and> persisted_session w = Some v \<and>
        queued w \<noteq> [] \<and> serialises w \<and> has_sendBeacon w \<and> \<not> sendBeacon_throws w"
    using hide_effects[OF l r] that by blast
qed

lemma teardown_example:
  "listeners (run before_teardown (world_of (startRum all_sampled fresh_page))) = lifecycle_listeners"
  "running (run before_teardown (world_of (startRum all_sampled fresh_page)))"
  "queued (run before_teardown (world_of (startRum all_sampled fresh_page))) \<noteq> []"
  "serialises (run before_teardown (world_of (startRum all_sampled fresh_page)))"
  "has_sendBeacon (run before_teardown (world_of (startRum all_sampled fresh_page)))"
  "\<not> sendBeacon_throws (run before_teardown (world_of (startRum all_sampled fresh_page)))"
  "\<not> getItem_throws (run before_teardown (world_of (startRum all_sampled fresh_page)))"
  "\<not> setItem_throws (run before_teardown (world_of (startRum all_sampled fresh_page)))"
  "persisted_session (run before_teardown (world_of (startRum all_sampled fresh_page)))
     = Some old_session"
  "is_sampled (run before_teardown (world_of (startRum all_sampled fresh_page)))"
proof -
  let ?W0 = "world_of (startRum all_sampled fresh_page)"
  have l0: "listeners fresh_page = []" by (simp add: fresh_page_def)
  have s0: "is_sampled ?W0" by (rule fresh_start(1)[OF example_configs(1,2)])
  show s: "is_sampled (run before_teardown ?W0)" using s0 by simp
  show "listeners (run before_teardown ?W0) = lifecycle_listeners"
    using started_listeners[OF fresh_page_idle l0, of before_teardown all_sampled] s
    by simp
  show "running (run before_teardown ?W0)" by (simp add: startRum_running)
  show "queued (run before_teardown ?W0) \<noteq> []"
    using fresh_track_one(1) by (auto simp: before_teardown_def)
  show "serialises (run before_teardown ?W0)"
    using fresh_track_one(2) by (simp add: before_teardown_def)
  show "has_sendBeacon (run before_teardown ?W0)" by (simp add: before_teardown_def)
  show "\<not> sendBeacon_throws (run before_teardown ?W0)" by (simp add: before_teardown_def)
  show "\<not> getItem_throws (run before_teardown ?W0)" by (simp add: before_teardown_def)
  show "\<not> setItem_throws (run before_teardown ?W0)" by (simp add: before_teardown_def)
  show "persisted_session (run before_teardown ?W0) = Some old_session"
    by (simp add: before_teardown_def persisted_session_def)
qed

lemma unsampled_start:
  "\<not> is_sampled (world_of (startRum no_config fresh_page))"
proof -
  have r: "sampleRate (applyDefaults no_config fresh_page) = 1 / 10"
    by (simp add: applyDefaults_def no_config_def DEFAULT_SAMPLE_RATE_def)
  have "loadOrCreateSession (1 / 10) t (snd (getOrCreateDeviceId fresh_page)) =
     (\<lparr>sess_id = ''uu'', sess_sampled = False, sess_last = 1000\<rparr>,
      setItem_session \<lparr>sess_id = ''uu'', sess_sampled = False, sess_last = 1000\<rparr>
        ((setItem_device ''u'' (fresh_page\<lparr>uuid_count := 1\<rparr>))\<lparr>uuid_count := 2, random_count := 1\<rparr>))"
    for t
    by (simp add: getOrCreateDeviceId_def loadOrCreateSession_def create_session_def uuid_def
        math_random_def now_def setItem_device_def setItem_session_def log_effect_def
        fresh_page_def Let_def)
  then show ?thesis
    by (simp add: startRum_obs(5)[OF fresh_page_idle] r)
qed

text \<open>
  Witness for C7: after one tracked event, with the old session in working storage and a
  working beacon, the unload writes the session and then calls the beacon; the page-hide
  calls the beacon and writes nothing. With the default sample rate the session of the
  example page is not sampled, and the unload changes nothing.
\<close>
theorem teardown_signals_witness:
  "\<not> running fresh_page \<and> listeners fresh_page = [] \<and>
   is_sampled (run before_teardown (world_of (startRum all_sampled fresh_page))) \<and>
   persisted_session (run before_teardown (world_of (startRum all_sampled fresh_page)))
     = Some old_session \<and>
   persisted_session (page_unload (run before_teardown (world_of (startRum all_sampled fresh_page))))
     = Some (old_session\<lparr>sess_last :=
         now (run before_teardown (world_of (startRum all_sampled fresh_page)))\<rparr>) \<and>
   persisted_session (page_hide (run before_teardown (world_of (startRum all_sampled fresh_page))))
     = Some old_session \<and>
   length (effects_since
     (length (trace (run before_teardown (world_of (startRum all_sampled fresh_page)))))
     (page_unload (run before_teardown (world_of (startRum all_sampled fresh_page))))) = 2 \<and>
   length (effects_since
     (length (trace (run before_teardown (world_of (startRum all_sampled fresh_page)))))
     (page_hide (run before_teardown (world_of (startRum all_sampled fresh_page))))) = 1 \<and>
   \<not> is_sampled (run [] (world_of (startRum no_config fresh_page))) \<and>
   page_unload (run [] (world_of (startRum no_config fresh_page))) =
     run [] (world_of (startRum no_config fresh_page))"
proof -
  let ?W = "run before_teardown (world_of (startRum all_sampled fresh_page))"
  let ?U = "run [] (world_of (startRum no_config fresh_page))"
  have l0: "listeners fresh_page = []" by (simp add: fresh_page_def)
  note ex = teardown_example
  note t = teardown_signals[OF fresh_page_idle l0 refl,
      where calls = before_teardown and c = all_sampled and v = old_session]
  have 1: "persisted_session (page_unload ?W) = Some (old_session\<lparr>sess_last := now ?W\<rparr>)"
    using t ex(7,8,9,10) by blast
  have "persisted_session (page_hide ?W) = persisted_session ?W"
    using t ex(10) by blast
  then have 2: "persisted_session (page_hide ?W) = Some old_session"
    by (simp only: ex(9))
  obtain u p where "effects_since (length (trace ?W)) (page_unload ?W) =
      [SetSessionItem (old_session\<lparr>sess_last := now ?W\<rparr>), BeaconCall u p]"
    using t ex(3-10) by blast
  then have 3: "length (effects_since (length (trace ?W)) (page_unload ?W)) = 2" by simp
  obtain u' p' where "effects_since (length (trace ?W)) (page_hide ?W) = [BeaconCall u' p']"
    using t ex(3-10) by blast
  then have 4: "length (effects_since (length (trace ?W)) (page_hide ?W)) = 1" by simp
  have n: "\<not> is_sampled ?U" using unsampled_start by simp
  from teardown_signals[OF fresh_page_idle l0 refl, where calls = "[]" and c = no_config] n
  have 5: "page_unload ?U = ?U" by blast
  show ?thesis using fresh_page_idle l0 ex(9,10) 1 2 3 4 n 5 by blast
qed

text \<open>
  Counterexample to C7 as stated: in that same state, where storage works and holds a
  session, the page-hide writes no session, while the unload does.
\<close>
theorem page_hide_does_not_refresh:
  "persisted_session (run before_teardown (world_of (startRum all_sampled fresh_page)))
     = Some old_session \<and>
   \<not> getItem_throws (run before_teardown (world_of (startRum all_sampled fresh_page))) \<and>
   \<not> setItem_throws (run before_teardown (world_of (startRum all_sampled fresh_page))) \<and>
   session_writes (effects_since
     (length (trace (run before_teardown (world_of (startRum all_sampled fresh_page)))))
     (page_hide (run before_teardown (world_of (startRum all_sampled fresh_page))))) = [] \<and>
   session_writes (effects_since
     (length (trace (run before_teardown (world_of (startRum all_sampled fresh_page)))))
     (page_unload (run before_teardown (world_of (startRum all_sampled fresh_page))))) \<noteq> []"
proof -
  let ?W = "run before_teardown (world_of (startRum all_sampled fresh_page))"
  note ex = teardown_example
  obtain u p where "effects_since (length (trace ?W)) (page_hide ?W) = [BeaconCall u p]"
    using hide_effects[OF ex(1-6)] by blast
  then have 1: "session_writes (effects_since (length (trace ?W)) (page_hide ?W)) = []"
    by simp
  obtain u' p' where "effects_since (length (trace ?W)) (page_unload ?W) =
      [SetSessionItem (old_session\<lparr>sess_last := now ?W\<rparr>), BeaconCall u' p']"
    using unload_effects[OF ex(1-9)] by blast
  then have 2: "session_writes (effects_since (length (trace ?W)) (page_unload ?W)) \<noteq> []"
    by simp
  show ?thesis using ex(7,8,9) 1 2 by blast
qed

subsection \<open>C6: a batch of two\<close>

lemma at_most_half: "at_most (2 * int n) c \<Longrightarrow> at_most (int n) c"
  by (erule at_most_mono) simp

lemma at_most_pair:
  assumes "at_most (2 * int m) c" "at_most (2 * int n) c"
  shows "at_most (int m + int n) c"
proof (cases "m \<le> n")
  case True
  show ?thesis by (rule at_most_mono[OF assms(2)]) (use True in simp)
next
  case False
  show ?thesis by (rule at_most_mono[OF assms(1)]) (use False in simp)
qed

lemma trackPageView_appends:
  assumes "is_sampled w" and "configured_hook w = None"
    and "\<And>e. ev_name e = None \<Longrightarrow>
           \<exists>b. blob_size w e = Some b \<and> at_most (queued_bytes w + int b) (byte_cap w)"
    and "int (length (queued w)) + 1 < batch_max w"
  shows "\<exists>e b. blob_size w e = Some b \<and> ev_name e = None \<and> ev_type e = page_view \<and>
     ev_seq e = current_seq w + 1 \<and>
     trackPageView x nav w =
       Returns ((push_event e b (snd (nextSeq w)))\<lparr>hasSentInitialPV := True\<rparr>)"
proof -
  from trackPageView_unfold[OF assms(1), of x nav] obtain e where
    e: "trackPageView x nav w =
         and_then (dispatch e (snd (nextSeq w))) (\<lambda>v. Returns (v\<lparr>hasSentInitialPV := True\<rparr>))"
      "ev_seq e = current_seq w + 1" "ev_type e = page_view" "ev_name e = None"
    by blast
  let ?v = "snd (nextSeq w)"
  obtain b where b: "blob_size w e = Some b" "at_most (queued_bytes w + int b) (byte_cap w)"
    using assms(3)[OF e(4)] by blast
  have s: "is_sampled ?v" using assms(1) by simp
  have r: "running ?v" using s by (rule is_sampled_running)
  have bv: "blob_size ?v e = Some b" using b(1) by simp
  have "dispatch e ?v = enqueue e ?v" by (simp add: dispatch_unfold[OF r] assms(2))
  also have "\<dots> = Returns (push_event e b ?v)"
    using b(2) assms(4) by (simp add: enqueue_unfold[OF s bv] enqueue_rest_def)
  finally have "trackPageView x nav w =
      Returns ((push_event e b ?v)\<lparr>hasSentInitialPV := True\<rparr>)"
    by (simp add: e(1))
  then show ?thesis using e(2,3,4) b(1) by blast
qed

text \<open>
  Claim C6, as amended. Take a start with \<^verbatim>\<open>batchMax: 2\<close> and no hook, from a state with no
  running instance, in which the initial page view is deferred (no route manifest has
  been set and no path normalizer is configured) and the session comes out sampled; let
  the events named \<open>a\<close> and \<open>b\<close> serialise, each to no more than half the byte cap. Then
  \<^verbatim>\<open>trackEvent(a)\<close> followed at once by \<^verbatim>\<open>trackEvent(b)\<close> both return; the first sends
  nothing and leaves one event queued; the second makes exactly one transport call, a
  fetch whose payload holds exactly the two events, \<open>a\<close> then \<open>b\<close>, with the sequence
  numbers 1 and 2; and the queue is empty afterwards, with its byte counter at 0.
\<close>
theorem batch_of_two_flushes:
  assumes "\<not> running w0" and "\<not> routeManifestReady w0"
    and "getNormalizedPath_opt c = None" and "pendingPathNormalizer w0 = None"
    and "batchMax_opt c = Some 2" and "beforeSend_opt c = None"
    and "is_sampled (world_of (startRum c w0))"
    and "\<forall>e. ev_name e = Some a \<or> ev_name e = Some b \<longrightarrow>
           (\<exists>n. blob_size w0 e = Some n \<and>
              at_most (2 * int n) (nullish (maxQueueBytes_opt c) DEFAULT_MAX_QUEUE_BYTES))"
    and "w1 = world_of (trackEvent a da (world_of (startRum c w0)))"
    and "w2 = world_of (trackEvent b db w1)"
  shows "returns (startRum c w0) \<and>
     returns (trackEvent a da (world_of (startRum c w0))) \<and>
     returns (trackEvent b db w1) \<and>
     effects_since (length (trace (world_of (startRum c w0)))) w1 = [] \<and>
     length (queued w1) = 1 \<and>
     (\<exists>u p hs ea eb.
        effects_since (length (trace (world_of (startRum c w0)))) w2 = [FetchCall u p hs] \<and>
        pl_events p = [ea, eb] \<and> ev_name ea = Some a \<and> ev_name eb = Some b \<and>
        ev_seq ea = 1 \<and> ev_seq eb = 2) \<and>
     queued w2 = [] \<and> queued_bytes w2 = 0"
proof -
  let ?W = "world_of (startRum c w0)"
  let ?cap = "nullish (maxQueueBytes_opt c) DEFAULT_MAX_QUEUE_BYTES"
  have g: "getNormalizedPath (applyDefaults c w0) = None"
    using assms(3,4) by (simp add: applyDefaults_def)
  note sd = startRum_deferred[OF assms(1,2) g]
  note so = startRum_obs[OF assms(1), of c]
  have cap: "byte_cap ?W = ?cap" by (simp add: so(2) applyDefaults_def)
  have bm: "batch_max ?W = 2" using assms(5) by (simp add: so(3) applyDefaults_def)
  have hk: "configured_hook ?W = None" using assms(6) by (simp add: so(4))
  have bs: "blob_size ?W = blob_size w0" by (rule so(6))
  have run: "running ?W" by (rule so(1))
  \<comment> \<open>the first call\<close>
  have szA: "\<exists>n. blob_size ?W e = Some n \<and> at_most (queued_bytes ?W + int n) (byte_cap ?W)"
    if h: "ev_name e = Some a" for e
  proof -
    obtain n where "blob_size w0 e = Some n" "at_most (2 * int n) ?cap"
      using assms(8) h by blast
    then show ?thesis using at_most_half[of n ?cap] by (simp add: bs cap sd(3))
  qed
  have lA: "int (length (queued ?W)) + 1 < batch_max ?W" by (simp add: sd(2) bm)
  from trackEvent_appends[where n = a and d = da, OF assms(7) hk szA lA]
  obtain ea na where ea: "ev_name ea = Some a" "ev_seq ea = current_seq ?W + 1"
    "blob_size ?W ea = Some na"
    "trackEvent a da ?W = Returns (push_event ea na (snd (nextSeq ?W)))"
    by blast
  have w1: "w1 = push_event ea na (snd (nextSeq ?W))" by (simp add: assms(9) ea(4))
  have r1: "running (snd (nextSeq ?W))" using run by simp
  have q1: "queued w1 = [ea]" "queued_bytes w1 = int na"
    by (simp_all add: w1 push_event_queued[OF r1] sd(2,3))
  have o1: "is_sampled w1" "configured_hook w1 = None" "byte_cap w1 = ?cap"
    "batch_max w1 = 2" "blob_size w1 = blob_size w0" "trace w1 = trace ?W"
    "current_seq w1 = 1"
    using assms(7) run by (simp_all add: w1 hk cap bm bs nextSeq_seq(1) sd(4))
  have hA: "at_most (2 * int na) ?cap"
    using assms(8) ea(1,3) by (auto simp: bs)
  \<comment> \<open>the second call\<close>
  have szB: "\<exists>n. blob_size w1 e = Some n \<and> at_most (queued_bytes w1 + int n) (byte_cap w1)"
    if h: "ev_name e = Some b" for e
  proof -
    obtain n where "blob_size w0 e = Some n" "at_most (2 * int n) ?cap"
      using assms(8) h by blast
    then show ?thesis using at_most_pair[OF hA, of n] by (simp add: o1(3,5) q1(2))
  qed
  have lB: "batch_max w1 \<le> int (length (queued w1)) + 1" by (simp add: o1(4) q1(1))
  from trackEvent_fills_batch[where n = b and d = db, OF o1(1,2) szB lB]
  obtain eb nb where eb: "ev_name eb = Some b" "ev_seq eb = current_seq w1 + 1"
    "blob_size w1 eb = Some nb"
    "trackEvent b db w1 = flushQueue False (push_event eb nb (snd (nextSeq w1)))"
    by blast
  let ?P = "push_event eb nb (snd (nextSeq w1))"
  have r2: "running (snd (nextSeq w1))" using o1(1) by (simp add: is_sampled_running)
  have qP: "queued ?P = [ea, eb]" by (simp add: push_event_queued[OF r2] q1(1))
  have rP: "running ?P" using r2 by simp
  have bP: "blob_size ?P = blob_size w0" by (simp add: o1(5))
  have sP: "serialises ?P"
    using ea(3) eb(3) by (simp add: serialises_def qP bP bs o1(5))
  have tP: "trace ?P = trace ?W" by (simp add: o1(6))
  have nP: "queued ?P \<noteq> []" by (simp add: qP)
  from flushQueue_sends[OF rP nP sP, of False] obtain v u p hs where
    v: "flushQueue False ?P = Returns v" "queued v = []" "queued_bytes v = 0"
      "pl_events p = queued ?P" "trace v = trace ?P @ [FetchCall u p hs]"
    by auto
  have w2: "w2 = v" by (simp add: assms(10) eb(4) v(1))
  have tv: "trace v = trace ?W @ [FetchCall u p hs]" using v(5) by (simp add: o1(6))
  have e2: "effects_since (length (trace ?W)) w2 = [FetchCall u p hs]"
    unfolding w2 by (rule effects_since_append[OF tv])
  have 1: "returns (startRum c w0)" by (rule sd(1))
  have 2: "returns (trackEvent a da ?W)" by (simp add: ea(4))
  have 3: "returns (trackEvent b db w1)" by (simp add: eb(4) v(1))
  have 4: "effects_since (length (trace ?W)) w1 = []" by (simp add: effects_since_def o1(6))
  have 5: "length (queued w1) = 1" by (simp add: q1(1))
  have 6: "\<exists>u p hs ea eb.
        effects_since (length (trace ?W)) w2 = [FetchCall u p hs] \<and>
        pl_events p = [ea, eb] \<and> ev_name ea = Some a \<and> ev_name eb = Some b \<and>
        ev_seq ea = 1 \<and> ev_seq eb = 2"
    using e2 v(4) qP ea(1,2) eb(1,2) by (auto simp: sd(4) o1(7))
  have 7: "queued w2 = []" "queued_bytes w2 = 0" by (simp_all add: w2 v(2,3))
  show ?thesis using 1 2 3 4 5 6 7 by blast
qed

lemma batch_of_two_config:
  "sampleRate_opt batch_of_two = Some 1" "getNormalizedPath_opt batch_of_two = None"
  "batchMax_opt batch_of_two = Some 2" "beforeSend_opt batch_of_two = None"
  "nullish (maxQueueBytes_opt batch_of_two) DEFAULT_MAX_QUEUE_BYTES = Finite 256000"
  "autoTrackInitialView_opt batch_of_two = None"
  by (simp_all add: batch_of_two_def all_sampled_def no_config_def DEFAULT_MAX_QUEUE_BYTES_def)

text \<open>Witness for C6: the example of the specification on a freshly loaded page.\<close>
theorem batch_of_two_flushes_witness:
  "\<not> running fresh_page \<and> \<not> routeManifestReady fresh_page \<and>
   is_sampled (world_of (startRum batch_of_two fresh_page)) \<and>
   returns (trackEvent ''b'' None
     (world_of (trackEvent ''a'' None (world_of (startRum batch_of_two fresh_page))))) \<and>
   length (effects_since (length (trace (world_of (startRum batch_of_two fresh_page))))
     (world_of (trackEvent ''b'' None
       (world_of (trackEvent ''a'' None (world_of (startRum batch_of_two fresh_page))))))) = 1 \<and>
   queued (world_of (trackEvent ''b'' None
     (world_of (trackEvent ''a'' None (world_of (startRum batch_of_two fresh_page)))))) = [] \<and>
   queued_bytes (world_of (trackEvent ''b'' None
     (world_of (trackEvent ''a'' None (world_of (startRum batch_of_two fresh_page)))))) = 0"
proof -
  let ?W = "world_of (startRum batch_of_two fresh_page)"
  let ?w1 = "world_of (trackEvent ''a'' None ?W)"
  let ?w2 = "world_of (trackEvent ''b'' None ?w1)"
  have m: "\<not> routeManifestReady fresh_page" and p: "pendingPathNormalizer fresh_page = None"
    by (simp_all add: fresh_page_def)
  have s: "is_sampled ?W" by (rule fresh_start(1)[OF batch_of_two_config(1,2)])
  have z: "\<forall>e. ev_name e = Some ''a'' \<or> ev_name e = Some ''b'' \<longrightarrow>
           (\<exists>n. blob_size fresh_page e = Some n \<and>
              at_most (2 * int n)
                (nullish (maxQueueBytes_opt batch_of_two) DEFAULT_MAX_QUEUE_BYTES))"
    unfolding batch_of_two_config(5) by (auto simp: fresh_page_def)
  note t = batch_of_two_flushes[OF fresh_page_idle m batch_of_two_config(2) p
      batch_of_two_config(3,4) s z refl refl, where da = None and db = None]
  have 1: "returns (trackEvent ''b'' None ?w1)" using t by blast
  obtain u q hs where "effects_since (length (trace ?W)) ?w2 = [FetchCall u q hs]"
    using t by blast
  then have 2: "length (effects_since (length (trace ?W)) ?w2) = 1" by simp
  have 3: "queued ?w2 = []" "queued_bytes ?w2 = 0" using t by blast+
  show ?thesis using fresh_page_idle m s 1 2 3 by blast
qed

text \<open>When the initial page view is sent at the start, it is the first event of the
  first batch.\<close>
lemma startRum_immediate:
  assumes "\<not> running w" and "routeManifestReady w"
    and "autoTrackInitialView_opt c = None" and "is_sampled (world_of (startRum c w))"
  shows "\<exists>v. startRum c w = trackPageView None None v \<and>
     is_sampled v \<and> queued v = [] \<and> queued_bytes v = 0 \<and> current_seq v = 0 \<and>
     configured_hook v = beforeSend_opt c \<and> blob_size v = blob_size w \<and>
     byte_cap v = maxQueueBytes (applyDefaults c w) \<and>
     batch_max v = batchMax (applyDefaults c w)"
proof -
  have n: "current w = None" using assms(1) by (simp add: running_def)
  define cfg where "cfg = applyDefaults c w"
  define sw where
    "sw = loadOrCreateSession (sampleRate cfg) (sessionTtlMs cfg) (snd (getOrCreateDeviceId w))"
  define st where "st = \<lparr>config = cfg, deviceId = fst (getOrCreateDeviceId w),
      sessionId = sess_id (fst sw), sampled = sess_sampled (fst sw), seq = 0, queue = [],
      queueBytes = 0, flushTimer = None, pageCtxExtra = Map.empty,
      user = (if truthy (userId cfg) then Some [''id'' \<mapsto> nullish (userId cfg) []] else None),
      unsubscribers = []\<rparr>"
  define w3 where "w3 = (snd sw)\<lparr>current := Some st\<rparr>"
  define v where "v = scheduleFlush
      (if sess_sampled (fst sw) then attach_collectors cfg (setupLifecycle w3) else w3)"
  have sm: "sess_sampled (fst sw)"
    using assms(4) by (simp add: startRum_obs(5)[OF assms(1)] sw_def cfg_def)
  have au: "autoTrackInitialView cfg" using assms(3) by (simp add: cfg_def applyDefaults_def)
  have rv: "routeManifestReady v" using assms(2) by (simp add: v_def w3_def sw_def)
  have eq: "startRum c w =
      (if sess_sampled (fst sw) \<and> autoTrackInitialView cfg then
         (if routeManifestReady v \<or> getNormalizedPath cfg \<noteq> None
          then trackPageView None None v
          else Returns (snd (setTimer (InitialViewFallback (fst (setTimer InitialViewPoll v)))
                 (snd (setTimer InitialViewPoll v)))))
       else Returns v)"
    by (simp add: startRum_def n Let_def split_def cfg_def sw_def st_def w3_def v_def)
  have 0: "startRum c w = trackPageView None None v" using sm au rv by (simp add: eq)
  have 1: "is_sampled v" using sm by (simp add: v_def w3_def st_def)
  have 2: "queued v = []" by (simp add: v_def w3_def st_def)
  have 3: "queued_bytes v = 0" by (simp add: v_def w3_def st_def)
  have 4: "current_seq v = 0" by (simp add: v_def w3_def st_def)
  have 5: "configured_hook v = beforeSend_opt c"
    by (simp add: v_def w3_def st_def cfg_def applyDefaults_def)
  have 6: "blob_size v = blob_size w" by (simp add: v_def w3_def sw_def)
  have 7: "byte_cap v = maxQueueBytes (applyDefaults c w)"
    by (simp add: v_def w3_def st_def cfg_def)
  have 8: "batch_max v = batchMax (applyDefaults c w)"
    by (simp add: v_def w3_def st_def cfg_def)
  show ?thesis using 0 1 2 3 4 5 6 7 8 by blast
qed

lemma routed_page_facts:
  "\<not> running routed_page" "routeManifestReady routed_page"
  "blob_size routed_page = blob_size fresh_page"
  "is_sampled (world_of (startRum batch_of_two routed_page))"
proof -
  show n: "\<not> running routed_page"
    by (simp add: routed_page_def fresh_page_idle)
  show "routeManifestReady routed_page"
    by (simp add: routed_page_def setRouteManifest_def fresh_page_def)
  show "blob_size routed_page = blob_size fresh_page" by (simp add: routed_page_def)
  have r: "sampleRate (applyDefaults batch_of_two routed_page) = 1"
    by (simp add: applyDefaults_def batch_of_two_config)
  have "loadOrCreateSession 1 t (snd (getOrCreateDeviceId routed_page)) =
     (\<lparr>sess_id = ''uu'', sess_sampled = True, sess_last = 1000\<rparr>,
      setItem_session \<lparr>sess_id = ''uu'', sess_sampled = True, sess_last = 1000\<rparr>
        ((setItem_device ''u'' (routed_page\<lparr>uuid_count := 1\<rparr>))\<lparr>uuid_count := 2, random_count := 1\<rparr>))"
    for t
    by (simp add: getOrCreateDeviceId_def loadOrCreateSession_def create_session_def uuid_def
        math_random_def now_def setItem_device_def setItem_session_def log_effect_def
        routed_page_def setRouteManifest_def fresh_page_def Let_def)
  then show "is_sampled (world_of (startRum batch_of_two routed_page))"
    by (simp add: startRum_obs(5)[OF n] r)
qed

text \<open>
  Counterexample to C6 as stated: the host has set a route manifest before the start, so
  the start sends the initial page view at once. With \<^verbatim>\<open>sampleRate: 1\<close> and \<^verbatim>\<open>batchMax: 2\<close>,
  \<^verbatim>\<open>trackEvent("a")\<close> completes the first batch (page view, a), and after
  \<^verbatim>\<open>trackEvent("b")\<close> the queue is not empty: it holds the one event \<open>b\<close>.
\<close>
theorem initial_page_view_fills_batch:
  "length (queued (world_of (trackEvent ''b'' None
     (world_of (trackEvent ''a'' None (world_of (startRum batch_of_two routed_page))))))) = 1"
proof -
  let ?W = "world_of (startRum batch_of_two routed_page)"
  note rp = routed_page_facts
  from startRum_immediate[OF rp(1,2) batch_of_two_config(6) rp(4)] obtain v where
    v: "startRum batch_of_two routed_page = trackPageView None None v"
      "is_sampled v" "queued v = []" "queued_bytes v = 0"
      "configured_hook v = beforeSend_opt batch_of_two"
      "blob_size v = blob_size routed_page"
      "byte_cap v = maxQueueBytes (applyDefaults batch_of_two routed_page)"
      "batch_max v = batchMax (applyDefaults batch_of_two routed_page)"
    by blast
  have cv: "byte_cap v = Finite 256000"
    using batch_of_two_config(5) by (simp add: v(7) applyDefaults_def)
  have mv: "batch_max v = 2" by (simp add: v(8) applyDefaults_def batch_of_two_config)
  have hv: "configured_hook v = None" by (simp add: v(5) batch_of_two_config)
  have bv: "blob_size v = blob_size fresh_page" by (simp add: v(6) rp(3))
  have ser: "serialises x" if "blob_size x = blob_size fresh_page" for x
    using that by (simp add: serialises_def fresh_page_def list_all_iff)
  \<comment> \<open>the page view of the start\<close>
  have sz0: "\<exists>b. blob_size v e = Some b \<and> at_most (queued_bytes v + int b) (byte_cap v)"
    if "ev_name e = None" for e
    using that by (simp add: bv cv v(4) fresh_page_def)
  have l0: "int (length (queued v)) + 1 < batch_max v" by (simp add: v(3) mv)
  from trackPageView_appends[where x = None and nav = None, OF v(2) hv sz0 l0]
  obtain e0 n0 where e0: "blob_size v e0 = Some n0" "ev_name e0 = None"
    "trackPageView None None v =
       Returns ((push_event e0 n0 (snd (nextSeq v)))\<lparr>hasSentInitialPV := True\<rparr>)"
    by blast
  have n0: "n0 = 100" using e0(1,2) by (simp add: bv fresh_page_def)
  have W: "?W = (push_event e0 n0 (snd (nextSeq v)))\<lparr>hasSentInitialPV := True\<rparr>"
    by (simp add: v(1) e0(3))
  have rv: "running (snd (nextSeq v))" using v(2) by (simp add: is_sampled_running)
  have oW: "is_sampled ?W" "configured_hook ?W = None" "byte_cap ?W = Finite 256000"
    "batch_max ?W = 2" "blob_size ?W = blob_size fresh_page"
    "queued ?W = [e0]" "queued_bytes ?W = 100"
    unfolding W using v(2) by (simp_all add: hv cv mv bv push_event_queued[OF rv] v(3,4) n0)
  \<comment> \<open>the first event completes the batch\<close>
  have szA: "\<exists>b. blob_size ?W e = Some b \<and> at_most (queued_bytes ?W + int b) (byte_cap ?W)"
    if "ev_name e = Some ''a''" for e
    using that by (simp add: oW(3,5,7) fresh_page_def)
  have lA: "batch_max ?W \<le> int (length (queued ?W)) + 1" by (simp add: oW(4,6))
  from trackEvent_fills_batch[where n = "''a''" and d = None, OF oW(1,2) szA lA]
  obtain ea na where
    ea: "trackEvent ''a'' None ?W = flushQueue False (push_event ea na (snd (nextSeq ?W)))"
    by blast
  define P where "P = push_event ea na (snd (nextSeq ?W))"
  define w1 where "w1 = world_of (flushQueue False P)"
  have rW: "running (snd (nextSeq ?W))" using oW(1) by (simp add: is_sampled_running)
  have bP: "blob_size P = blob_size fresh_page" by (simp add: P_def oW(5))
  have qP: "queued P \<noteq> []" by (simp add: P_def push_event_queued[OF rW])
  have e1: "world_of (trackEvent ''a'' None ?W) = w1" by (simp add: ea w1_def P_def)
  have o1: "is_sampled w1" "configured_hook w1 = None" "byte_cap w1 = Finite 256000"
    "batch_max w1 = 2" "blob_size w1 = blob_size fresh_page"
    using oW(1) by (simp_all add: w1_def P_def oW(2-5))
  have q1: "queued w1 = []" "queued_bytes w1 = 0"
    using ser[OF bP] qP by (simp_all add: w1_def flushQueue_queued flushQueue_queued_bytes)
  \<comment> \<open>the second event is alone in the queue\<close>
  have szB: "\<exists>b. blob_size w1 e = Some b \<and> at_most (queued_bytes w1 + int b) (byte_cap w1)"
    if "ev_name e = Some ''b''" for e
    using that by (simp add: o1(3,5) q1(2) fresh_page_def)
  have lB: "int (length (queued w1)) + 1 < batch_max w1" by (simp add: o1(4) q1(1))
  from trackEvent_appends[where n = "''b''" and d = None, OF o1(1,2) szB lB]
  obtain eb nb where
    eb: "trackEvent ''b'' None w1 = Returns (push_event eb nb (snd (nextSeq w1)))"
    by blast
  have r1: "running (snd (nextSeq w1))" using o1(1) by (simp add: is_sampled_running)
  have "queued (world_of (trackEvent ''b'' None w1)) = [eb]"
    by (simp add: eb push_event_queued[OF r1] q1(1))
  then show ?thesis by (simp add: e1)
qed

subsection \<open>The stream of accepted events\<close>

lemma stream_frame [simp]:
  "stream k (push_unsubscriber u w) = stream k w"
  "stream k (addEventListener evt h w) = stream k w"
  "stream k (clearInterval t w) = stream k w"
  "stream k (snd (setTimer task w)) = stream k w"
  "stream k (attach c w) = stream k w"
  "stream k (attach_collectors cfg w) = stream k w"
  "stream k (setupLifecycle w) = stream k w"
  "stream k (scheduleFlush w) = stream k w"
  "stream k (identify uid traits w) = stream k w"
  "stream k (setContext extra w) = stream k w"
  "stream k (setRouteManifest routes w) = stream k w"
  "stream k (setPathNormalizer fn w) = stream k w"
  "stream k (snd (nextSeq w)) = stream k w"
  "stream k (w\<lparr>hasSentInitialPV := x\<rparr>) = stream k w"
  "stream k (w\<lparr>clock := y\<rparr>) = stream k w"
  "stream k (w\<lparr>visibility_hidden := x\<rparr>) = stream k w"
  "stream k (w\<lparr>session_item := si\<rparr>) = stream k w"
  "stream k (w\<lparr>getItem_throws := x\<rparr>) = stream k w"
  "stream k (w\<lparr>setItem_throws := x\<rparr>) = stream k w"
  "stream k (w\<lparr>has_sendBeacon := x\<rparr>) = stream k w"
  "stream k (w\<lparr>sendBeacon_throws := x\<rparr>) = stream k w"
  "stream k (w\<lparr>blob_size := f\<rparr>) = stream k w"
  by (simp_all add: stream_def emitted_since_def effects_since_def)

lemma stream_grows:
  assumes "trace w' = trace w @ es" "k \<le> length (trace w)"
  shows "emitted_since k w' = emitted_since k w @ concat (map pl_events (sent_payloads es))"
  using assms by (simp add: emitted_since_def effects_since_def)

text \<open>A flush moves the queue to the transported events, or throws and moves nothing.\<close>
lemma flushQueue_stream:
  assumes "k \<le> length (trace w)"
  shows "stream k (world_of (flushQueue b w)) = stream k w"
    and "length (trace w) \<le> length (trace (world_of (flushQueue b w)))"
proof -
  from flushQueue_trace[of b w] obtain es where
    es: "trace (world_of (flushQueue b w)) = trace w @ es"
      "concat (map pl_events (sent_payloads es)) = (if serialises w then queued w else [])"
    by blast
  show "stream k (world_of (flushQueue b w)) = stream k w"
    by (simp add: stream_def stream_grows[OF es(1) assms] es(2) flushQueue_queued)
  show "length (trace w) \<le> length (trace (world_of (flushQueue b w)))" by (simp add: es(1))
qed

lemma push_event_stream:
  "running w \<Longrightarrow> stream k (push_event e b w) = stream k w @ [e]"
  by (simp add: stream_def emitted_since_def effects_since_def push_event_queued)

lemma refreshSessionActivity_stream:
  assumes "k \<le> length (trace w)"
  shows "stream k (refreshSessionActivity w) = stream k w"
    and "length (trace w) \<le> length (trace (refreshSessionActivity w))"
proof -
  have "\<exists>es. trace (refreshSessionActivity w) = trace w @ es \<and> sent_payloads es = []"
    by (simp add: refreshSessionActivity_def setItem_session_def log_effect_def
        split: option.splits Stored.splits)
  then obtain es where es: "trace (refreshSessionActivity w) = trace w @ es"
    "sent_payloads es = []" by blast
  show "stream k (refreshSessionActivity w) = stream k w"
    by (simp add: stream_def stream_grows[OF es(1) assms] es(2))
  show "length (trace w) \<le> length (trace (refreshSessionActivity w))" by (simp add: es(1))
qed

text \<open>An \<^verbatim>\<open>enqueue\<close> adds the event to the stream or leaves the stream as it was.\<close>
lemma enqueue_rest_stream:
  assumes "k \<le> length (trace w)" "running w"
  shows "length (trace w) \<le> length (trace (world_of (enqueue_rest e b w)))"
    and "stream k (world_of (enqueue_rest e b w)) = stream k w \<or>
         stream k (world_of (enqueue_rest e b w)) = stream k w @ [e]"
    and "at_most (queued_bytes w + int b) (byte_cap w) \<Longrightarrow>
         stream k (world_of (enqueue_rest e b w)) = stream k w @ [e]"
proof -
  let ?p = "push_event e b w"
  have kp: "k \<le> length (trace ?p)" using assms(1) by simp
  have a: "stream k ?p = stream k w @ [e]" using assms(2) by (rule push_event_stream)
  have p1: "stream k (world_of (flushQueue False ?p)) = stream k w @ [e]"
    using flushQueue_stream(1)[OF kp, of False] a by simp
  have t1: "length (trace w) \<le> length (trace (world_of (flushQueue False ?p)))"
    using flushQueue_stream(2)[OF kp, of False] by simp
  show "length (trace w) \<le> length (trace (world_of (enqueue_rest e b w)))"
    using t1 by (simp add: enqueue_rest_def)
  show "stream k (world_of (enqueue_rest e b w)) = stream k w \<or>
         stream k (world_of (enqueue_rest e b w)) = stream k w @ [e]"
    using a p1 by (simp add: enqueue_rest_def)
  show "stream k (world_of (enqueue_rest e b w)) = stream k w @ [e]"
    if "at_most (queued_bytes w + int b) (byte_cap w)"
    using a p1 that by (simp add: enqueue_rest_def)
qed

lemma enqueue_stream:
  assumes "k \<le> length (trace w)"
  shows "length (trace w) \<le> length (trace (world_of (enqueue e w)))"
    and "stream k (world_of (enqueue e w)) = stream k w \<or>
         stream k (world_of (enqueue e w)) = stream k w @ [e]"
proof -
  let ?f = "world_of (flushQueue False w)"
  have kf: "k \<le> length (trace ?f)"
    using flushQueue_stream(2)[OF assms, of False] assms by simp
  have tf: "length (trace w) \<le> length (trace ?f)" by (rule flushQueue_stream(2)[OF assms])
  have sf: "stream k ?f = stream k w" by (rule flushQueue_stream(1)[OF assms])
  have both: "length (trace w) \<le> length (trace (world_of (enqueue e w))) \<and>
     (stream k (world_of (enqueue e w)) = stream k w \<or>
      stream k (world_of (enqueue e w)) = stream k w @ [e])"
  proof (rule enqueue_cases[of w e])
    fix b
    assume s: "is_sampled w" and e: "enqueue e w = enqueue_rest e b w"
    show ?thesis
      unfolding e
      using enqueue_rest_stream(1,2)[OF assms is_sampled_running[OF s], of e b] by blast
  next
    fix b
    assume s: "is_sampled w" and e: "enqueue e w = enqueue_rest e b ?f"
    have rf: "running ?f" using is_sampled_running[OF s] by simp
    show ?thesis
      unfolding e
      using enqueue_rest_stream(1,2)[OF kf rf, of e b] tf sf by auto
  qed simp_all
  show "length (trace w) \<le> length (trace (world_of (enqueue e w)))" using both by blast
  show "stream k (world_of (enqueue e w)) = stream k w \<or>
         stream k (world_of (enqueue e w)) = stream k w @ [e]" using both by blast
qed


lemma advances_quiet:
  assumes "stream k w' = stream k w" "current_seq w' = current_seq w"
    "length (trace w) \<le> length (trace w')"
  shows "advances k w w'"
  unfolding advances_def using assms by (intro exI[of _ "[]"]) simp

lemma advances_refl [simp]: "advances k w w"
  by (rule advances_quiet) simp_all

lemma enqueue_accepts:
  assumes "k \<le> length (trace w)" "is_sampled w" "never_drops w"
  shows "stream k (world_of (enqueue e w)) = stream k w @ [e]"
proof -
  obtain b where b: "blob_size w e = Some b" "at_most (int b) (byte_cap w)"
    using assms(3) by (auto simp: never_drops_def)
  have wc: "counter_exact w" using assms(3) by (simp add: never_drops_def)
  have s: "serialises w" using wc by (simp add: counter_exact_def)
  have r: "running w" using assms(2) by (rule is_sampled_running)
  let ?f = "world_of (flushQueue False w)"
  have kf: "k \<le> length (trace ?f)"
    using flushQueue_stream(2)[OF assms(1), of False] assms(1) by simp
  have rf: "running ?f" using r by simp
  show ?thesis
  proof (cases "at_most (queued_bytes w + int b) (byte_cap w)")
    case True
    have "enqueue e w = enqueue_rest e b w"
      using True by (simp add: enqueue_unfold[OF assms(2) b(1)])
    then show ?thesis using enqueue_rest_stream(3)[OF assms(1) r True] by simp
  next
    case False
    have e: "enqueue e w = enqueue_rest e b ?f" by (rule enqueue_over[OF assms(2) b(1) False s])
    have "queued w = [] \<Longrightarrow> queued_bytes w = 0"
      using wc by (simp add: counter_exact_def queue_size_empty)
    then have z: "queued_bytes ?f = 0" using s by (auto simp: flushQueue_queued_bytes)
    have fit: "at_most (queued_bytes ?f + int b) (byte_cap ?f)" using b(2) by (simp add: z)
    show ?thesis
      unfolding e
      using enqueue_rest_stream(3)[OF kf rf fit, of e] flushQueue_stream(1)[OF assms(1), of False]
      by simp
  qed
qed

lemma dispatch_advances:
  assumes "k \<le> length (trace w)" "hook_keeps_seq w" "is_sampled w"
  shows "\<exists>es. length es \<le> 1 \<and> (\<forall>x \<in> set es. ev_seq x = ev_seq e) \<and>
       stream k (world_of (dispatch e w)) = stream k w @ es \<and>
       (never_drops w \<longrightarrow> length es = 1) \<and>
       length (trace w) \<le> length (trace (world_of (dispatch e w)))"
proof -
  have r: "running w" using assms(3) by (rule is_sampled_running)
  have enq: "\<exists>es. length es \<le> 1 \<and> (\<forall>x \<in> set es. ev_seq x = ev_seq t) \<and>
       stream k (world_of (enqueue t w)) = stream k w @ es \<and>
       (never_drops w \<longrightarrow> length es = 1) \<and>
       length (trace w) \<le> length (trace (world_of (enqueue t w)))" for t
  proof (cases "never_drops w")
    case True
    have "stream k (world_of (enqueue t w)) = stream k w @ [t]"
      by (rule enqueue_accepts[OF assms(1,3) True])
    then show ?thesis using enqueue_stream(1)[OF assms(1), of t]
      by (intro exI[of _ "[t]"]) simp
  next
    case False
    from enqueue_stream(2)[OF assms(1), of t]
    show ?thesis
    proof
      assume "stream k (world_of (enqueue t w)) = stream k w"
      then show ?thesis using False enqueue_stream(1)[OF assms(1), of t]
        by (intro exI[of _ "[]"]) simp
    next
      assume "stream k (world_of (enqueue t w)) = stream k w @ [t]"
      then show ?thesis using False enqueue_stream(1)[OF assms(1), of t]
        by (intro exI[of _ "[t]"]) simp
    qed
  qed
  show ?thesis
  proof (cases "configured_hook w")
    case None
    then show ?thesis using enq[of e] by (simp add: dispatch_unfold[OF r])
  next
    case (Some h)
    note hk = Some
    have nd: "\<not> never_drops w" using hk by (simp add: never_drops_def)
    show ?thesis
    proof (cases "h e")
      case HookThrows
      then show ?thesis using hk nd
        by (intro exI[of _ "[]"]) (simp add: dispatch_unfold[OF r])
    next
      case (HookReturns res)
      note hr = HookReturns
      show ?thesis
      proof (cases res)
        case None
        then show ?thesis using hk nd hr
          by (intro exI[of _ "[]"]) (simp add: dispatch_unfold[OF r])
      next
        case (Some t)
        have "ev_seq t = ev_seq e"
          using assms(2) hk hr Some by (simp add: hook_keeps_seq_def)
        then show ?thesis using enq[of t] hk hr Some
          by (simp add: dispatch_unfold[OF r])
      qed
    qed
  qed
qed


lemma never_drops_frame [simp]:
  "never_drops (snd (nextSeq w)) = never_drops w"
  "never_drops (clearInterval t w) = never_drops w"
  "never_drops (w\<lparr>hasSentInitialPV := x\<rparr>) = never_drops w"
  "never_drops (snd (setTimer task w)) = never_drops w"
  "never_drops (scheduleFlush w) = never_drops w"
  "never_drops (setupLifecycle w) = never_drops w"
  "never_drops (attach_collectors cfg w) = never_drops w"
  by (simp_all add: never_drops_def)

lemma hook_keeps_seq_frame [simp]:
  "hook_keeps_seq (snd (nextSeq w)) = hook_keeps_seq w"
  "hook_keeps_seq (clearInterval t w) = hook_keeps_seq w"
  "hook_keeps_seq (w\<lparr>hasSentInitialPV := x\<rparr>) = hook_keeps_seq w"
  "hook_keeps_seq (snd (setTimer task w)) = hook_keeps_seq w"
  "hook_keeps_seq (scheduleFlush w) = hook_keeps_seq w"
  "hook_keeps_seq (setupLifecycle w) = hook_keeps_seq w"
  "hook_keeps_seq (attach_collectors cfg w) = hook_keeps_seq w"
  "hook_keeps_seq (world_of (perform c w)) = hook_keeps_seq w"
  "hook_keeps_seq (run cs w) = hook_keeps_seq w"
  by (simp_all add: hook_keeps_seq_def)

lemma advances_frame [simp]:
  "advances k w (w'\<lparr>hasSentInitialPV := x\<rparr>) = advances k w w'"
  "advances k (clearInterval t w) w' = advances k w w'"
  by (simp_all add: advances_def)

lemma track_advances:
  assumes "k \<le> length (trace w)" "hook_keeps_seq w" "is_sampled w"
    "ev_seq e = current_seq w + 1"
  shows "advances k w (world_of (dispatch e (snd (nextSeq w))))"
proof -
  let ?v = "snd (nextSeq w)"
  have r: "running w" using assms(3) by (rule is_sampled_running)
  have kv: "k \<le> length (trace ?v)" using assms(1) by simp
  have hv: "hook_keeps_seq ?v" using assms(2) by simp
  have sv: "is_sampled ?v" using assms(3) by simp
  from dispatch_advances[OF kv hv sv, of e] obtain es where
    es: "length es \<le> 1" "\<forall>x \<in> set es. ev_seq x = ev_seq e"
      "stream k (world_of (dispatch e ?v)) = stream k ?v @ es"
      "never_drops ?v \<longrightarrow> length es = 1"
      "length (trace ?v) \<le> length (trace (world_of (dispatch e ?v)))"
    by blast
  have c: "current_seq (world_of (dispatch e ?v)) = current_seq w + 1"
    using r by (simp add: nextSeq_seq(1))
  show ?thesis
    unfolding advances_def using es c assms(4)
    by (intro exI[of _ es]) auto
qed

lemma trackEvent_advances:
  assumes "k \<le> length (trace w)" "hook_keeps_seq w"
  shows "advances k w (world_of (trackEvent n d w))"
  by (rule trackEvent_cases[of w n d]) (simp_all add: track_advances[OF assms])

lemma trackError_advances:
  assumes "k \<le> length (trace w)" "hook_keeps_seq w"
  shows "advances k w (world_of (trackError err src w))"
  by (rule trackError_cases[of w err src]) (simp_all add: track_advances[OF assms])

lemma trackPageView_advances:
  assumes "k \<le> length (trace w)" "hook_keeps_seq w"
  shows "advances k w (world_of (trackPageView x nav w))"
  by (rule trackPageView_cases[of w x nav])
     (simp_all add: track_advances[OF assms] world_of_mark)

lemma run_handler_quiet:
  assumes "k \<le> length (trace w)"
  shows "stream k (world_of (run_handler h w)) = stream k w"
    and "length (trace w) \<le> length (trace (world_of (run_handler h w)))"
proof -
  have kr: "k \<le> length (trace (refreshSessionActivity w))"
    using refreshSessionActivity_stream(2)[OF assms] assms by simp
  show "stream k (world_of (run_handler h w)) = stream k w"
    using assms kr
    by (cases h) (simp_all add: flushQueue_stream(1) refreshSessionActivity_stream(1))
  show "length (trace w) \<le> length (trace (world_of (run_handler h w)))"
  proof (cases h)
    case OnUnload
    then show ?thesis
      using flushQueue_stream(2)[OF kr, of True] refreshSessionActivity_stream(2)[OF assms]
      by simp
  next
    case OnVisibilityChange
    then show ?thesis using flushQueue_stream(2)[OF assms, of True] by simp
  next
    case OnActivity
    then show ?thesis using refreshSessionActivity_stream(2)[OF assms] by simp
  qed
qed

lemma handlers_quiet:
  "k \<le> length (trace w) \<Longrightarrow>
     stream k (foldl (\<lambda>v h. world_of (run_handler h v)) w hs) = stream k w \<and>
     length (trace w) \<le> length (trace (foldl (\<lambda>v h. world_of (run_handler h v)) w hs))"
proof (induction hs arbitrary: w)
  case Nil
  then show ?case by simp
next
  case (Cons h hs)
  have k': "k \<le> length (trace (world_of (run_handler h w)))"
    using run_handler_quiet(2)[OF Cons.prems, of h] Cons.prems by simp
  show ?case
    using Cons.IH[OF k'] run_handler_quiet[OF Cons.prems, of h] by simp
qed

lemma fire_event_advances:
  "k \<le> length (trace w) \<Longrightarrow> advances k w (fire_event evt w)"
  unfolding fire_event_def by (rule advances_quiet) (simp_all add: handlers_quiet)

lemma fire_event_hidden_advances:
  assumes "k \<le> length (trace w)"
  shows "advances k w (fire_event evt (w\<lparr>visibility_hidden := x\<rparr>))"
proof -
  have "k \<le> length (trace (w\<lparr>visibility_hidden := x\<rparr>))" using assms by simp
  from handlers_quiet[OF this] show ?thesis
    unfolding fire_event_def by (intro advances_quiet) simp_all
qed

lemma flushQueue_advances:
  "k \<le> length (trace w) \<Longrightarrow> advances k w (world_of (flushQueue b w))"
  by (rule advances_quiet) (simp_all add: flushQueue_stream)

lemma run_timer_advances:
  assumes "k \<le> length (trace w)" "hook_keeps_seq w"
  shows "advances k w (world_of (run_timer t w))"
proof -
  have a: "advances k w (world_of (trackPageView None None (clearInterval t' w)))" for t'
    using trackPageView_advances[of k "clearInterval t' w" None None] assms by simp
  have b: "advances k w (world_of (trackPageView None None (clearInterval p (clearInterval t' w))))"
    for p t'
    using trackPageView_advances[of k "clearInterval p (clearInterval t' w)" None None] assms
    by simp
  have c: "advances k w (clearInterval t' w)" for t'
    by (rule advances_quiet) simp_all
  show ?thesis
    using a b c flushQueue_advances[OF assms(1)]
    by (simp add: run_timer_def Let_def split: option.splits TimerTask.splits)
qed

lemma perform_advances:
  assumes "k \<le> length (trace w)" "hook_keeps_seq w"
  shows "advances k w (world_of (perform c w))"
proof (cases c)
  case (CallTrackPageView x nav)
  then show ?thesis by (simp add: trackPageView_advances[OF assms])
next
  case (CallTrackEvent n d)
  then show ?thesis by (simp add: trackEvent_advances[OF assms])
next
  case (CallTrackError err src)
  then show ?thesis by (simp add: trackError_advances[OF assms])
next
  case CallFlush
  then show ?thesis by (simp add: flush_def flushQueue_advances[OF assms(1)])
next
  case (WindowEvent evt)
  then show ?thesis by (simp add: fire_event_advances[OF assms(1)])
next
  case PageHidden
  then show ?thesis by (simp add: page_hide_def fire_event_hidden_advances[OF assms(1)])
next
  case PageShown
  then show ?thesis by (simp add: fire_event_hidden_advances[OF assms(1)])
next
  case (TimerFires t)
  then show ?thesis by (simp add: run_timer_advances[OF assms])
qed (simp_all add: advances_quiet)


lemma seq_ordered_step:
  assumes "seq_ordered k w" "advances k w w'"
  shows "seq_ordered k w'"
proof -
  from assms(2) obtain es where
    es: "length es \<le> 1" "\<forall>x \<in> set es. ev_seq x = current_seq w + 1"
      "stream k w' = stream k w @ es" "current_seq w \<le> current_seq w'"
      "es \<noteq> [] \<longrightarrow> current_seq w' = current_seq w + 1"
      "length (trace w) \<le> length (trace w')"
    unfolding advances_def by blast
  have o: "k \<le> length (trace w)" "sorted_wrt (<) (map ev_seq (stream k w))"
    "\<forall>e \<in> set (stream k w). ev_seq e \<le> current_seq w"
    using assms(1) by (simp_all add: seq_ordered_def)
  have s1: "sorted_wrt (<) (map ev_seq es)"
    using es(1) by (cases es) simp_all
  have "sorted_wrt (<) (map ev_seq (stream k w) @ map ev_seq es)"
    unfolding sorted_wrt_append using o(2,3) s1 es(2) by fastforce
  then have 1: "sorted_wrt (<) (map ev_seq (stream k w'))" by (simp add: es(3))
  have 2: "\<forall>e \<in> set (stream k w'). ev_seq e \<le> current_seq w'"
    using o(3) es(2,4,5) by (fastforce simp: es(3))
  show ?thesis unfolding seq_ordered_def using o(1) es(6) 1 2 by simp
qed

lemma gapless_step:
  assumes "gapless k w" "never_drops w" "advances k w w'"
  shows "gapless k w'"
proof -
  from assms(3) obtain es where
    es: "length es \<le> 1" "\<forall>x \<in> set es. ev_seq x = current_seq w + 1"
      "stream k w' = stream k w @ es"
      "never_drops w \<longrightarrow> current_seq w' = current_seq w + int (length es)"
      "length (trace w) \<le> length (trace w')"
    unfolding advances_def by blast
  have g: "k \<le> length (trace w)" "0 \<le> current_seq w"
    "map ev_seq (stream k w) = [1..current_seq w]"
    using assms(1) by (simp_all add: gapless_def)
  have c: "current_seq w' = current_seq w + int (length es)" using es(4) assms(2) by simp
  show ?thesis
  proof (cases es)
    case Nil
    then show ?thesis using g es(3,5) c by (simp add: gapless_def)
  next
    case (Cons x xs)
    then have xs: "xs = []" using es(1) by simp
    have x: "ev_seq x = current_seq w + 1" using es(2) Cons by simp
    have "[1..current_seq w + 1] = [1..current_seq w] @ [current_seq w + 1]"
      using g(2) by (simp add: upto_rec2)
    then show ?thesis using g es(3,5) c Cons xs x by (simp add: gapless_def)
  qed
qed

lemma never_drops_perform:
  "\<not> changes_data c \<Longrightarrow> never_drops w \<Longrightarrow> never_drops (world_of (perform c w))"
  by (simp add: never_drops_def perform_exact perform_blob_size)

lemma run_seq_ordered:
  "seq_ordered k w \<Longrightarrow> hook_keeps_seq w \<Longrightarrow> seq_ordered k (run cs w)"
proof (induction cs arbitrary: w)
  case Nil
  then show ?case by simp
next
  case (Cons c cs)
  have k: "k \<le> length (trace w)" using Cons.prems(1) by (simp add: seq_ordered_def)
  have "seq_ordered k (world_of (perform c w))"
    using seq_ordered_step[OF Cons.prems(1) perform_advances[OF k Cons.prems(2)]] .
  then show ?case using Cons.IH Cons.prems(2) by simp
qed

lemma never_drops_keeps: "never_drops w \<Longrightarrow> hook_keeps_seq w"
  by (simp add: never_drops_def hook_keeps_seq_def)

lemma run_gapless:
  "gapless k w \<Longrightarrow> never_drops w \<Longrightarrow> \<forall>c \<in> set cs. \<not> changes_data c \<Longrightarrow>
     gapless k (run cs w) \<and> never_drops (run cs w)"
proof (induction cs arbitrary: w)
  case Nil
  then show ?case by simp
next
  case (Cons c cs)
  have k: "k \<le> length (trace w)" using Cons.prems(1) by (simp add: gapless_def)
  have nc: "\<not> changes_data c" and ncs: "\<forall>c \<in> set cs. \<not> changes_data c"
    using Cons.prems(3) by simp_all
  have "gapless k (world_of (perform c w))"
    using gapless_step[OF Cons.prems(1,2)
        perform_advances[OF k never_drops_keeps[OF Cons.prems(2)]]] .
  then show ?case using Cons.IH never_drops_perform[OF nc Cons.prems(2)] ncs by simp
qed

lemma storage_trace:
  "\<exists>es. trace (snd (getOrCreateDeviceId w)) = trace w @ es \<and> sent_payloads es = []"
  "\<exists>es. trace (snd (loadOrCreateSession r t w)) = trace w @ es \<and> sent_payloads es = []"
  by (simp_all add: getOrCreateDeviceId_def loadOrCreateSession_def create_session_def
      unpersisted_session_def uuid_def math_random_def setItem_device_def setItem_session_def
      log_effect_def Let_def split_def split: option.splits Stored.splits)

lemma storage_emits_nothing:
  "emitted_since (length (trace w))
     (snd (loadOrCreateSession r t (snd (getOrCreateDeviceId w)))) = []"
  "length (trace w) \<le> length (trace (snd (loadOrCreateSession r t (snd (getOrCreateDeviceId w)))))"
proof -
  obtain es where es: "trace (snd (getOrCreateDeviceId w)) = trace w @ es" "sent_payloads es = []"
    using storage_trace(1) by blast
  obtain fs where fs: "trace (snd (loadOrCreateSession r t (snd (getOrCreateDeviceId w)))) =
      trace (snd (getOrCreateDeviceId w)) @ fs" "sent_payloads fs = []"
    using storage_trace(2) by blast
  show "emitted_since (length (trace w))
     (snd (loadOrCreateSession r t (snd (getOrCreateDeviceId w)))) = []"
    by (simp add: emitted_since_def effects_since_def fs es)
  show "length (trace w) \<le> length (trace (snd (loadOrCreateSession r t (snd (getOrCreateDeviceId w)))))"
    by (simp add: fs es)
qed


text \<open>The state in which \<^verbatim>\<open>startRum\<close> decides about the initial page view, and what
  follows from it.\<close>
lemma startRum_first_step:
  assumes "\<not> running w"
  shows "\<exists>v. stream (length (trace w)) v = [] \<and> current_seq v = 0 \<and>
     queued v = [] \<and> queued_bytes v = 0 \<and>
     length (trace w) \<le> length (trace v) \<and>
     configured_hook v = beforeSend_opt c \<and>
     blob_size v = blob_size w \<and>
     byte_cap v = maxQueueBytes (applyDefaults c w) \<and>
     (hook_keeps_seq v \<longrightarrow> advances (length (trace w)) v (world_of (startRum c w)))"
proof -
  have n: "current w = None" using assms by (simp add: running_def)
  define cfg where "cfg = applyDefaults c w"
  define sw where
    "sw = loadOrCreateSession (sampleRate cfg) (sessionTtlMs cfg) (snd (getOrCreateDeviceId w))"
  define st where "st = \<lparr>config = cfg, deviceId = fst (getOrCreateDeviceId w),
      sessionId = sess_id (fst sw), sampled = sess_sampled (fst sw), seq = 0, queue = [],
      queueBytes = 0, flushTimer = None, pageCtxExtra = Map.empty,
      user = (if truthy (userId cfg) then Some [''id'' \<mapsto> nullish (userId cfg) []] else None),
      unsubscribers = []\<rparr>"
  define w3 where "w3 = (snd sw)\<lparr>current := Some st\<rparr>"
  define v where "v = scheduleFlush
      (if sess_sampled (fst sw) then attach_collectors cfg (setupLifecycle w3) else w3)"
  have eq: "startRum c w =
      (if sess_sampled (fst sw) \<and> autoTrackInitialView cfg then
         (if routeManifestReady v \<or> getNormalizedPath cfg \<noteq> None
          then trackPageView None None v
          else Returns (snd (setTimer (InitialViewFallback (fst (setTimer InitialViewPoll v)))
                 (snd (setTimer InitialViewPoll v)))))
       else Returns v)"
    by (simp add: startRum_def n Let_def split_def cfg_def sw_def st_def w3_def v_def)
  have e3: "emitted_since (length (trace w)) w3 = []"
    using storage_emits_nothing(1)[of w "sampleRate cfg" "sessionTtlMs cfg"]
    by (simp add: w3_def sw_def emitted_since_def effects_since_def)
  have t3: "length (trace w) \<le> length (trace w3)"
    using storage_emits_nothing(2)[of w "sampleRate cfg" "sessionTtlMs cfg"]
    by (simp add: w3_def sw_def)
  have s3: "stream (length (trace w)) w3 = []"
    by (simp add: stream_def e3) (simp add: w3_def st_def)
  have 1: "stream (length (trace w)) v = []" by (simp add: v_def s3)
  have 2: "current_seq v = 0" by (simp add: v_def w3_def st_def)
  have 3: "queued v = []" by (simp add: v_def w3_def st_def)
  have 4: "queued_bytes v = 0" by (simp add: v_def w3_def st_def)
  have 5: "length (trace w) \<le> length (trace v)" using t3 by (simp add: v_def)
  have 6: "configured_hook v = beforeSend_opt c"
    by (simp add: v_def w3_def st_def cfg_def applyDefaults_def)
  have 7: "blob_size v = blob_size w" by (simp add: v_def w3_def sw_def)
  have 8: "byte_cap v = maxQueueBytes (applyDefaults c w)"
    by (simp add: v_def w3_def st_def cfg_def)
  have 9: "advances (length (trace w)) v (world_of (startRum c w))" if "hook_keeps_seq v"
  proof -
    have a: "advances (length (trace w)) v (world_of (trackPageView None None v))"
      by (rule trackPageView_advances[OF 5 that])
    have b: "advances (length (trace w)) v
        (snd (setTimer (InitialViewFallback (fst (setTimer InitialViewPoll v)))
                 (snd (setTimer InitialViewPoll v))))"
      by (rule advances_quiet) simp_all
    show ?thesis using a b by (simp add: eq)
  qed
  show ?thesis using 1 2 3 4 5 6 7 8 9 by blast
qed


lemma started_seq_ordered:
  assumes "\<not> running w0"
    and "\<forall>h e t. beforeSend_opt c = Some h \<longrightarrow> h e = HookReturns (Some t) \<longrightarrow> ev_seq t = ev_seq e"
  shows "seq_ordered (length (trace w0)) (run calls (world_of (startRum c w0)))"
proof -
  from startRum_first_step[OF assms(1), of c] obtain v where
    v: "stream (length (trace w0)) v = []" "current_seq v = 0"
      "length (trace w0) \<le> length (trace v)" "configured_hook v = beforeSend_opt c"
      "hook_keeps_seq v \<longrightarrow> advances (length (trace w0)) v (world_of (startRum c w0))"
    by blast
  have hv: "hook_keeps_seq v"
    using assms(2) by (auto simp: hook_keeps_seq_def v(4) split: option.splits)
  have h0: "hook_keeps_seq (world_of (startRum c w0))"
    using assms(2)
    by (auto simp: hook_keeps_seq_def startRum_obs(4)[OF assms(1)] split: option.splits)
  have "seq_ordered (length (trace w0)) v" by (simp add: seq_ordered_def v(1,3))
  then have "seq_ordered (length (trace w0)) (world_of (startRum c w0))"
    using v(5) hv by (blast intro: seq_ordered_step)
  then show ?thesis using h0 by (rule run_seq_ordered)
qed

lemma started_gapless:
  assumes "\<not> running w0" and "beforeSend_opt c = None"
    and "\<forall>e. \<exists>b. blob_size w0 e = Some b \<and> at_most (int b) (maxQueueBytes (applyDefaults c w0))"
    and "\<forall>c \<in> set calls. \<not> changes_data c"
  shows "gapless (length (trace w0)) (run calls (world_of (startRum c w0))) \<and>
     never_drops (run calls (world_of (startRum c w0)))"
proof -
  from startRum_first_step[OF assms(1), of c] obtain v where
    v: "stream (length (trace w0)) v = []" "current_seq v = 0"
      "queued v = []" "queued_bytes v = 0"
      "length (trace w0) \<le> length (trace v)" "configured_hook v = beforeSend_opt c"
      "blob_size v = blob_size w0" "byte_cap v = maxQueueBytes (applyDefaults c w0)"
      "hook_keeps_seq v \<longrightarrow> advances (length (trace w0)) v (world_of (startRum c w0))"
    by blast
  have nv: "never_drops v"
    using assms(2,3)
    by (simp add: never_drops_def counter_exact_def v serialises_empty queue_size_empty)
  have gv: "gapless (length (trace w0)) v" by (simp add: gapless_def v)
  have a: "advances (length (trace w0)) v (world_of (startRum c w0))"
    using v(9) never_drops_keeps[OF nv] by blast
  have g0: "gapless (length (trace w0)) (world_of (startRum c w0))"
    by (rule gapless_step[OF gv nv a])
  have n0: "never_drops (world_of (startRum c w0))"
    using assms(2,3)
    by (simp add: never_drops_def startRum_obs(2,4,6)[OF assms(1)]
        startRum_exact[OF assms(1)])
  show ?thesis by (rule run_gapless[OF g0 n0 assms(4)])
qed

subsection \<open>C4: sequence numbers of the emitted events\<close>

text \<open>
  Claim C4, as amended. Within one pipeline instance, from its start on, whatever calls,
  signals, timers and changes of the data follow: when the configured hook, if any,
  passes events on with their sequence number, the sequence numbers of the transported
  events are strictly increasing. They need not be gapless: a sequence number is taken
  when an event is constructed, before the hook, the serialisation or the byte cap can
  drop it. When no hook is configured, every event serialises to no more than the cap
  and the host does not change the data of events, nothing is dropped, and after a flush
  the transported events carry exactly the numbers from 1 to the counter.
\<close>
theorem emitted_sequence_numbers:
  assumes "\<not> running w0" and "w = run calls (world_of (startRum c w0))"
  shows "((\<forall>h e t. beforeSend_opt c = Some h \<longrightarrow> h e = HookReturns (Some t) \<longrightarrow>
             ev_seq t = ev_seq e) \<longrightarrow>
          sorted_wrt (<) (map ev_seq (emitted_since (length (trace w0)) w))) \<and>
     (beforeSend_opt c = None \<and>
      (\<forall>e. \<exists>b. blob_size w0 e = Some b \<and>
         at_most (int b) (nullish (maxQueueBytes_opt c) DEFAULT_MAX_QUEUE_BYTES)) \<and>
      (\<forall>x \<in> set calls. \<not> changes_data x) \<longrightarrow>
          returns (flush w) \<and>
          map ev_seq (emitted_since (length (trace w0)) (world_of (flush w)))
            = [1..current_seq w])"
proof -
  have cap: "maxQueueBytes (applyDefaults c w0) =
      nullish (maxQueueBytes_opt c) DEFAULT_MAX_QUEUE_BYTES"
    by (simp add: applyDefaults_def)
  have A: "sorted_wrt (<) (map ev_seq (emitted_since (length (trace w0)) w))"
    if "\<forall>h e t. beforeSend_opt c = Some h \<longrightarrow> h e = HookReturns (Some t) \<longrightarrow> ev_seq t = ev_seq e"
  proof -
    have "seq_ordered (length (trace w0)) w"
      unfolding assms(2) by (rule started_seq_ordered[OF assms(1) that])
    then have "sorted_wrt (<) (map ev_seq (stream (length (trace w0)) w))"
      by (simp add: seq_ordered_def)
    then show ?thesis by (simp add: stream_def sorted_wrt_append)
  qed
  have B: "returns (flush w) \<and>
      map ev_seq (emitted_since (length (trace w0)) (world_of (flush w))) = [1..current_seq w]"
    if h: "beforeSend_opt c = None"
      "\<forall>e. \<exists>b. blob_size w0 e = Some b \<and>
         at_most (int b) (nullish (maxQueueBytes_opt c) DEFAULT_MAX_QUEUE_BYTES)"
      "\<forall>x \<in> set calls. \<not> changes_data x"
  proof -
    have z: "\<forall>e. \<exists>b. blob_size w0 e = Some b \<and>
        at_most (int b) (maxQueueBytes (applyDefaults c w0))"
      using h(2) by (simp add: cap)
    have g: "gapless (length (trace w0)) w" and nd: "never_drops w"
      unfolding assms(2) using started_gapless[OF assms(1) h(1) z h(3)] by blast+
    have k: "length (trace w0) \<le> length (trace w)" using g by (simp add: gapless_def)
    have s: "serialises w" using nd by (simp add: never_drops_def counter_exact_def)
    have r: "returns (flush w)" using s by (simp add: flush_def flushQueue_returns)
    have q: "queued (world_of (flush w)) = []"
      using s by (simp add: flush_def flushQueue_queued)
    have "stream (length (trace w0)) (world_of (flush w)) = stream (length (trace w0)) w"
      unfolding flush_def by (rule flushQueue_stream(1)[OF k])
    then have "emitted_since (length (trace w0)) (world_of (flush w)) =
        stream (length (trace w0)) w"
      by (simp add: stream_def q)
    then show ?thesis using g r by (simp add: gapless_def)
  qed
  show ?thesis using A B by blast
qed

lemma drop_debug_cases:
  "ev_type e = custom \<Longrightarrow> ev_name e = Some n \<Longrightarrow> take 6 n = ''debug_'' \<Longrightarrow>
     drop_debug e = HookReturns None"
  "ev_name e = Some n \<Longrightarrow> take 6 n \<noteq> ''debug_'' \<Longrightarrow> drop_debug e = HookReturns (Some e)"
  by (simp_all add: drop_debug_def)

lemma drop_debug_keeps_seq: "drop_debug e = HookReturns (Some t) \<Longrightarrow> ev_seq t = ev_seq e"
  by (auto simp: drop_debug_def split: if_splits)

text \<open>One tracking call on the example page with the hook that drops debug events.\<close>
lemma debug_page_step:
  assumes "is_sampled w" "configured_hook w = Some drop_debug"
    "blob_size w = blob_size fresh_page" "byte_cap w = Finite 256000" "batch_max w = 50"
    "queued_bytes w \<le> 1000" "length (queued w) \<le> 10"
  shows "take 6 n \<noteq> ''debug_'' \<Longrightarrow> n \<noteq> ''big'' \<Longrightarrow>
       \<exists>e. ev_seq e = current_seq w + 1 \<and>
         trackEvent n d w = Returns (push_event e 100 (snd (nextSeq w)))"
    and "take 6 n = ''debug_'' \<Longrightarrow> trackEvent n d w = Returns (snd (nextSeq w))"
proof -
  let ?v = "snd (nextSeq w)"
  from trackEvent_unfold[OF assms(1), of n d] obtain e where
    e: "trackEvent n d w = dispatch e ?v" "ev_seq e = current_seq w + 1"
      "ev_name e = Some n" "ev_type e = custom"
    by blast
  have s: "is_sampled ?v" using assms(1) by simp
  have r: "running ?v" using s by (rule is_sampled_running)
  have d: "dispatch e ?v =
      (case drop_debug e of HookThrows \<Rightarrow> Throws HookError ?v
       | HookReturns None \<Rightarrow> Returns ?v
       | HookReturns (Some t) \<Rightarrow> enqueue t ?v)"
    by (simp add: dispatch_unfold[OF r] assms(2))
  show "trackEvent n d w = Returns ?v" if "take 6 n = ''debug_''"
    using drop_debug_cases(1)[OF e(4,3) that] by (simp add: e(1) d)
  show "\<exists>e. ev_seq e = current_seq w + 1 \<and>
         trackEvent n d w = Returns (push_event e 100 (snd (nextSeq w)))"
    if "take 6 n \<noteq> ''debug_''" "n \<noteq> ''big''"
  proof -
    have b: "blob_size ?v e = Some 100"
      using that(2) e(3) by (simp add: assms(3) fresh_page_def)
    have "dispatch e ?v = enqueue e ?v"
      using drop_debug_cases(2)[OF e(3) that(1)] by (simp add: d)
    also have "\<dots> = Returns (push_event e 100 ?v)"
      using assms(4-7) by (simp add: enqueue_unfold[OF s b] enqueue_rest_def)
    finally show ?thesis using e(1,2) by auto
  qed
qed

lemma pushed_facts:
  assumes "is_sampled w"
  shows "queued (push_event e b (snd (nextSeq w))) = queued w @ [e]"
    and "queued_bytes (push_event e b (snd (nextSeq w))) = queued_bytes w + int b"
    and "stream k (push_event e b (snd (nextSeq w))) = stream k w @ [e]"
    and "current_seq (push_event e b (snd (nextSeq w))) = current_seq w + 1"
proof -
  have r: "running (snd (nextSeq w))" using assms by (simp add: is_sampled_running)
  have r0: "running w" using assms by (rule is_sampled_running)
  show "queued (push_event e b (snd (nextSeq w))) = queued w @ [e]"
    by (simp add: push_event_queued(1)[OF r])
  show "queued_bytes (push_event e b (snd (nextSeq w))) = queued_bytes w + int b"
    by (simp add: push_event_queued(2)[OF r])
  show "stream k (push_event e b (snd (nextSeq w))) = stream k w @ [e]"
    by (simp add: push_event_stream[OF r])
  show "current_seq (push_event e b (snd (nextSeq w))) = current_seq w + 1"
    using r0 by (simp add: nextSeq_seq(1))
qed

lemma fresh_start_stream:
  assumes "getNormalizedPath_opt c = None"
  shows "stream 0 (world_of (startRum c fresh_page)) = []"
proof -
  have t0: "length (trace fresh_page) = 0" by (simp add: fresh_page_def)
  have g: "getNormalizedPath (applyDefaults c fresh_page) = None"
    using assms by (simp add: applyDefaults_def fresh_page_def)
  have m: "\<not> routeManifestReady fresh_page" by (simp add: fresh_page_def)
  have q: "queued (world_of (startRum c fresh_page)) = []"
    by (rule startRum_deferred(2)[OF fresh_page_idle m g])
  have n: "current fresh_page = None" by (simp add: fresh_page_def)
  have "emitted_since 0 (world_of (startRum c fresh_page)) =
      emitted_since 0 (snd (loadOrCreateSession (sampleRate (applyDefaults c fresh_page))
        (sessionTtlMs (applyDefaults c fresh_page)) (snd (getOrCreateDeviceId fresh_page))))"
    using g m
    by (simp add: startRum_def n Let_def split_def emitted_since_def effects_since_def)
  also have "\<dots> = []"
    using storage_emits_nothing(1)[of fresh_page] by (simp add: t0)
  finally show ?thesis by (simp add: stream_def q)
qed

lemma flush_emits_stream:
  assumes "serialises w"
  shows "emitted_since 0 (world_of (flush w)) = stream 0 w"
proof -
  have "stream 0 (world_of (flushQueue False w)) = stream 0 w"
    by (rule flushQueue_stream(1)) simp
  then show ?thesis using assms by (simp add: stream_def flush_def flushQueue_queued)
qed

text \<open>
  Counterexample to C4 as stated: with a hook that drops debug events, three events are
  tracked, the second one a debug event, and the queue is flushed; the transported
  events carry the sequence numbers 1 and 3.
\<close>
theorem dropped_event_leaves_gap:
  "map ev_seq (emitted_since 0 (run debug_calls (world_of (startRum dropping_hook fresh_page))))
     = [1, 3]"
proof -
  let ?W0 = "world_of (startRum dropping_hook fresh_page)"
  note fs = fresh_start[OF example_configs_hooks(4,5)]
  have h0: "configured_hook ?W0 = Some drop_debug"
    by (simp add: startRum_obs(4)[OF fresh_page_idle] example_configs_hooks)
  have c0: "byte_cap ?W0 = Finite 256000"
    by (simp add: startRum_obs(2)[OF fresh_page_idle] applyDefaults_def dropping_hook_def
        all_sampled_def no_config_def DEFAULT_MAX_QUEUE_BYTES_def)
  have m0: "batch_max ?W0 = 50"
    by (simp add: startRum_obs(3)[OF fresh_page_idle] applyDefaults_def dropping_hook_def
        all_sampled_def no_config_def DEFAULT_BATCH_MAX_def)
  have s0: "stream 0 ?W0 = []" by (rule fresh_start_stream[OF example_configs_hooks(5)])
  \<comment> \<open>first event\<close>
  have q0: "queued_bytes ?W0 \<le> 1000" "length (queued ?W0) \<le> 10" by (simp_all add: fs(3,4))
  from debug_page_step(1)[OF fs(1) h0 fs(6) c0 m0 q0, of "''a''" None] obtain e1 where
    e1: "ev_seq e1 = current_seq ?W0 + 1"
      "trackEvent ''a'' None ?W0 = Returns (push_event e1 100 (snd (nextSeq ?W0)))"
    by auto
  define W1 where "W1 = push_event e1 100 (snd (nextSeq ?W0))"
  have p1: "is_sampled W1" "configured_hook W1 = Some drop_debug"
    "blob_size W1 = blob_size fresh_page" "byte_cap W1 = Finite 256000" "batch_max W1 = 50"
    by (simp_all add: W1_def fs(1,6) h0 c0 m0)
  have x1: "queued_bytes W1 \<le> 1000" "length (queued W1) \<le> 10"
    "stream 0 W1 = [e1]" "current_seq W1 = 1"
    unfolding W1_def pushed_facts[OF fs(1)] by (simp_all add: fs(3,4,5) s0)
  \<comment> \<open>the debug event\<close>
  have d2: "trackEvent ''debug_x'' None W1 = Returns (snd (nextSeq W1))"
    by (rule debug_page_step(2)[OF p1 x1(1,2)]) simp
  define W2 where "W2 = snd (nextSeq W1)"
  have p2: "is_sampled W2" "configured_hook W2 = Some drop_debug"
    "blob_size W2 = blob_size fresh_page" "byte_cap W2 = Finite 256000" "batch_max W2 = 50"
    by (simp_all add: W2_def p1)
  have x2: "queued_bytes W2 \<le> 1000" "length (queued W2) \<le> 10"
    "stream 0 W2 = [e1]" "current_seq W2 = 2"
    using x1 is_sampled_running[OF p1(1)] by (simp_all add: W2_def nextSeq_seq(1))
  \<comment> \<open>third event\<close>
  from debug_page_step(1)[OF p2 x2(1,2), of "''b''" None] obtain e3 where
    e3: "ev_seq e3 = current_seq W2 + 1"
      "trackEvent ''b'' None W2 = Returns (push_event e3 100 (snd (nextSeq W2)))"
    by auto
  define W3 where "W3 = push_event e3 100 (snd (nextSeq W2))"
  have s3: "stream 0 W3 = [e1, e3]"
    unfolding W3_def pushed_facts(3)[OF p2(1)] by (simp add: x2(3))
  have b3: "blob_size W3 = blob_size fresh_page" by (simp add: W3_def p2(3))
  have ser: "serialises W3"
    by (simp add: serialises_def b3 fresh_page_def list_all_iff)
  have "run debug_calls ?W0 = world_of (flush W3)"
    by (simp add: debug_calls_def e1(2) d2 e3(2) W1_def[symmetric] W2_def[symmetric]
        W3_def[symmetric])
  then have "emitted_since 0 (run debug_calls ?W0) = [e1, e3]"
    by (simp add: flush_emits_stream[OF ser] s3)
  then show ?thesis using e1(1) e3(1) by (simp add: fs(5) x2(4))
qed

text \<open>
  Witness for C4: with the hook that drops debug events the transported sequence numbers
  increase; with no hook and a cap of 1000000 bytes, two events are tracked and, after a
  flush, the transported numbers run from 1 to the counter.
\<close>
theorem emitted_sequence_numbers_witness:
  "\<not> running fresh_page \<and>
   sorted_wrt (<) (map ev_seq (emitted_since (length (trace fresh_page))
     (run debug_calls (world_of (startRum dropping_hook fresh_page))))) \<and>
   beforeSend_opt roomy = None \<and>
   map ev_seq (emitted_since (length (trace fresh_page))
     (world_of (flush (run two_events (world_of (startRum roomy fresh_page))))))
     = [1..current_seq (run two_events (world_of (startRum roomy fresh_page)))]"
proof -
  have k: "\<forall>h e t. beforeSend_opt dropping_hook = Some h \<longrightarrow> h e = HookReturns (Some t) \<longrightarrow>
      ev_seq t = ev_seq e"
    by (auto simp: example_configs_hooks(6) drop_debug_keeps_seq)
  have n: "beforeSend_opt roomy = None"
    by (simp add: roomy_def all_sampled_def no_config_def)
  have c: "nullish (maxQueueBytes_opt roomy) DEFAULT_MAX_QUEUE_BYTES = Finite 1000000"
    by (simp add: roomy_def)
  have z: "\<forall>e. \<exists>b. blob_size fresh_page e = Some b \<and>
      at_most (int b) (nullish (maxQueueBytes_opt roomy) DEFAULT_MAX_QUEUE_BYTES)"
    unfolding c by (simp add: fresh_page_def)
  have p: "\<forall>x \<in> set two_events. \<not> changes_data x" by (simp add: two_events_def)
  from emitted_sequence_numbers[OF fresh_page_idle refl, where calls = debug_calls and c = dropping_hook] k
  have 1: "sorted_wrt (<) (map ev_seq (emitted_since (length (trace fresh_page))
     (run debug_calls (world_of (startRum dropping_hook fresh_page)))))"
    by blast
  from emitted_sequence_numbers[OF fresh_page_idle refl, where calls = two_events and c = roomy] n z p
  have 2: "map ev_seq (emitted_since (length (trace fresh_page))
     (world_of (flush (run two_events (world_of (startRum roomy fresh_page))))))
     = [1..current_seq (run two_events (world_of (startRum roomy fresh_page)))]"
    by blast
  show ?thesis using fresh_page_idle 1 n 2 by blast
qed


end
